(* ===== verification/Prelude.thy ===== *)
theory Prelude
  imports
    Main
    "HOL-Library.Word"
    "HOL-Library.Char_ord"
    "HOL-Library.List_Lexorder"
    "HOL-Library.Product_Lexorder"
begin

text \<open>
  Shared material of the development of the wallet platform.

  \<^item> \<open>error\<close>: the sentinel errors of \<^verbatim>\<open>internal/core\<close> and \<^verbatim>\<open>internal/adapter/postgres\<close>.  Go wraps
    errors with the \<^verbatim>\<open>%w\<close> verb, which keeps \<^verbatim>\<open>errors.Is\<close> true; the model keeps the wrapped
    sentinel and drops the message around it.
  \<^item> \<open>'d world\<close> and the computation type \<open>('d, 'a) m\<close>: explicit state passing with errors as
    values.  The world holds the database, the identifiers \<^verbatim>\<open>uuid.NewV7\<close> will return, the reading
    of the clock, the outcome of every statement still to come (so that a lost connection can
    strike between any two statements) and the log of raw transactions handed to a node.
  \<^item> \<open>in_tx_when\<close>: the begin / run / commit-or-rollback shape of every use case.
  \<^item> the functions of Go's \<^verbatim>\<open>strings\<close>, \<^verbatim>\<open>encoding/hex\<close> and \<^verbatim>\<open>math/big\<close> packages that the
    code calls, on byte strings.
  \<^item> list lemmas and the named collections \<open>m_simps\<close> (forward execution) and
    \<open>m_success\<close> (inversion of a successful run).
\<close>

named_theorems m_simps "equations that run a computation forwards"
named_theorems m_success "inversion of a successful run"

subsection \<open>Types\<close>

type_synonym byte = "8 word"
type_synonym u64 = "64 word"
type_synonym uuid = string
type_synonym time = int

datatype error =
    ErrCustomerNotFound
  | ErrInsufficientBalance
  | ErrDuplicateTransferCause
  | ErrInvalidCursor
  | ErrInvalidPageSize
  | ErrSelfTransfer
  | ErrNonPositiveAmount
  | ErrAmountTooLarge
  | ErrMalformedDestinationAddress
  | ErrInvalidDestinationAddress
  | ErrInsufficientBalanceForFee
  | ErrWithdrawalNotAwaitingApproval
  | ErrWithdrawalNotFound
  | ErrDuplicateWithdrawalCause
  | ErrWithdrawalNotSigned
  | ErrWithdrawalNotBroadcast
  | ErrMissingApprovalActor
  | ErrMissingApprovalReason
  | ErrNoChainNonceState
  | ErrNoTreasuryAccount
  | ErrNoHoldAccount
  | ErrNoAvailableAccount
  | ErrNoWithdrawalApprovalThreshold
  | ErrKeyConflict
  | PgUniqueViolation
  | PgError string
  | ErrUUID
  | ErrConnection
  | ErrText string

datatype outcome = Ok | Lost | Late

record 'd world =
  db :: 'd
  uuids :: "uuid list"
  clock :: time
  outcomes :: "outcome list"
  wire :: "(string \<times> byte list) list"

type_synonym ('d, 'a) m = "'d world \<Rightarrow> (error + 'a) \<times> 'd world"

subsection \<open>Computations\<close>

definition ret :: "'a \<Rightarrow> ('d, 'a) m" where
  "ret a = (\<lambda>w. (Inr a, w))"

definition raise :: "error \<Rightarrow> ('d, 'a) m" where
  "raise e = (\<lambda>w. (Inl e, w))"

definition bindm :: "('d, 'a) m \<Rightarrow> ('a \<Rightarrow> ('d, 'b) m) \<Rightarrow> ('d, 'b) m" where
  "bindm c f = (\<lambda>w. case c w of (Inl e, w') \<Rightarrow> (Inl e, w') | (Inr a, w') \<Rightarrow> f a w')"

definition guardm :: "bool \<Rightarrow> error \<Rightarrow> ('d, unit) m" where
  "guardm b e = (if b then ret () else raise e)"

definition lift_result :: "error + 'a \<Rightarrow> ('d, 'a) m" where
  "lift_result r = (case r of Inl e \<Rightarrow> raise e | Inr a \<Rightarrow> ret a)"

definition map_error :: "(error \<Rightarrow> error) \<Rightarrow> ('d, 'a) m \<Rightarrow> ('d, 'a) m" where
  "map_error f c = (\<lambda>w. case c w of (Inl e, w') \<Rightarrow> (Inl (f e), w') | (Inr a, w') \<Rightarrow> (Inr a, w'))"

text \<open>The outcome of the next round trip to the database server; an exhausted list means that
  nothing fails any more.\<close>

definition next_outcome :: "'d world \<Rightarrow> outcome \<times> 'd world" where
  "next_outcome w = (case outcomes w of [] \<Rightarrow> (Ok, w) | r # rs \<Rightarrow> (r, w\<lparr>outcomes := rs\<rparr>))"

text \<open>One SQL statement: it either reaches the server and runs, or the call returns an error.
  A statement that fails leaves the tables alone.\<close>

definition stmt :: "('d \<Rightarrow> error + 'a \<times> 'd) \<Rightarrow> ('d, 'a) m" where
  "stmt f = (\<lambda>w. case next_outcome w of (r, w1) \<Rightarrow>
     if r \<noteq> Ok then (Inl ErrConnection, w1)
     else (case f (db w1) of Inl e \<Rightarrow> (Inl e, w1) | Inr (a, d) \<Rightarrow> (Inr a, w1\<lparr>db := d\<rparr>)))"

definition query :: "('d \<Rightarrow> 'a) \<Rightarrow> ('d, 'a) m" where
  "query f = stmt (\<lambda>d. Inr (f d, d))"

definition newUUIDv7 :: "('d, uuid) m" where
  "newUUIDv7 = (\<lambda>w. case uuids w of [] \<Rightarrow> (Inl ErrUUID, w) | u # us \<Rightarrow> (Inr u, w\<lparr>uuids := us\<rparr>))"

definition time_now :: "('d, time) m" where
  "time_now = (\<lambda>w. (Inr (clock w), w))"

text \<open>
  \<open>in_tx_when p c\<close>: begin a transaction, run \<open>c\<close>, commit when it succeeds with a result that
  satisfies \<open>p\<close>, roll back otherwise.  A commit can be lost (nothing is committed, the caller sees
  an error) or late (it is committed, and the caller sees an error all the same).
\<close>

definition in_tx_when :: "('a \<Rightarrow> bool) \<Rightarrow> ('d, 'a) m \<Rightarrow> ('d, 'a) m" where
  "in_tx_when p c = (\<lambda>w. case next_outcome w of (r, w1) \<Rightarrow>
     if r \<noteq> Ok then (Inl ErrConnection, w1)
     else (case c w1 of
         (Inl e, w2) \<Rightarrow> (Inl e, w2\<lparr>db := db w\<rparr>)
       | (Inr a, w2) \<Rightarrow>
           if p a then
             (case next_outcome w2 of (r', w3) \<Rightarrow>
                (case r' of
                   Ok \<Rightarrow> (Inr a, w3)
                 | Lost \<Rightarrow> (Inl ErrConnection, w3\<lparr>db := db w\<rparr>)
                 | Late \<Rightarrow> (Inl ErrConnection, w3)))
           else (Inr a, w2\<lparr>db := db w\<rparr>)))"

definition in_tx :: "('d, 'a) m \<Rightarrow> ('d, 'a) m" where
  "in_tx = in_tx_when (\<lambda>_. True)"

definition read_tx :: "('d, 'a) m \<Rightarrow> ('d, 'a) m" where
  "read_tx = in_tx_when (\<lambda>_. False)"

fun mapm :: "('a \<Rightarrow> ('d, 'b) m) \<Rightarrow> 'a list \<Rightarrow> ('d, 'b list) m" where
  "mapm f [] = ret []"
| "mapm f (x # xs) = bindm (f x) (\<lambda>y. bindm (mapm f xs) (\<lambda>ys. ret (y # ys)))"

text \<open>Reading through a pointer: a nil pointer panics, which unwinds through the deferred rollback.\<close>

definition deref :: "'a option \<Rightarrow> ('d, 'a) m" where
  "deref x = (case x of None \<Rightarrow> raise (ErrText ''nil pointer'') | Some a \<Rightarrow> ret a)"

text \<open>A loop that runs a statement per element for its effect.\<close>

fun for_each :: "('a \<Rightarrow> ('d, unit) m) \<Rightarrow> 'a list \<Rightarrow> ('d, unit) m" where
  "for_each f [] = ret ()"
| "for_each f (x # xs) = bindm (f x) (\<lambda>_. for_each f xs)"

subsection \<open>Byte strings: hexadecimal, case, white space, decimal integers\<close>

definition hex_digit :: "nat \<Rightarrow> char" where
  "hex_digit n = ''0123456789abcdef'' ! n"

definition hex_val :: "char \<Rightarrow> nat option" where
  "hex_val c = (let n = (of_char c :: nat) in
     if 48 \<le> n \<and> n \<le> 57 then Some (n - 48)
     else if 97 \<le> n \<and> n \<le> 102 then Some (n - 87)
     else if 65 \<le> n \<and> n \<le> 70 then Some (n - 55)
     else None)"

definition hex_encode :: "byte list \<Rightarrow> string" where
  "hex_encode bs = concat (map (\<lambda>b. [hex_digit (unat b div 16), hex_digit (unat b mod 16)]) bs)"

fun hex_decode :: "string \<Rightarrow> byte list option" where
  "hex_decode [] = Some []"
| "hex_decode [c] = None"
| "hex_decode (c # d # cs) =
     (case hex_val c of None \<Rightarrow> None
      | Some h \<Rightarrow> (case hex_val d of None \<Rightarrow> None
      | Some l \<Rightarrow> (case hex_decode cs of None \<Rightarrow> None
      | Some bs \<Rightarrow> Some (of_nat (16 * h + l) # bs))))"

definition trim_prefix :: "string \<Rightarrow> string \<Rightarrow> string" where
  "trim_prefix p s = (if take (length p) s = p then drop (length p) s else s)"

definition lower_char :: "char \<Rightarrow> char" where
  "lower_char c = (let n = (of_char c :: nat) in if 65 \<le> n \<and> n \<le> 90 then char_of (n + 32) else c)"

definition to_lower :: "string \<Rightarrow> string" where
  "to_lower s = map lower_char s"

fun str_contains :: "string \<Rightarrow> string \<Rightarrow> bool" where
  "str_contains [] t = (t = [])"
| "str_contains (c # cs) t = (take (length t) (c # cs) = t \<or> str_contains cs t)"

text \<open>The UTF-8 encodings of the code points \<^verbatim>\<open>unicode.IsSpace\<close> accepts.\<close>

definition space_encodings :: "string list" where
  "space_encodings =
     [[CHR 0x09], [CHR 0x0A], [CHR 0x0B], [CHR 0x0C], [CHR 0x0D], [CHR 0x20],
      [CHR 0xC2, CHR 0x85], [CHR 0xC2, CHR 0xA0], [CHR 0xE1, CHR 0x9A, CHR 0x80],
      [CHR 0xE2, CHR 0x80, CHR 0x80], [CHR 0xE2, CHR 0x80, CHR 0x81],
      [CHR 0xE2, CHR 0x80, CHR 0x82], [CHR 0xE2, CHR 0x80, CHR 0x83],
      [CHR 0xE2, CHR 0x80, CHR 0x84], [CHR 0xE2, CHR 0x80, CHR 0x85],
      [CHR 0xE2, CHR 0x80, CHR 0x86], [CHR 0xE2, CHR 0x80, CHR 0x87],
      [CHR 0xE2, CHR 0x80, CHR 0x88], [CHR 0xE2, CHR 0x80, CHR 0x89],
      [CHR 0xE2, CHR 0x80, CHR 0x8A], [CHR 0xE2, CHR 0x80, CHR 0xA8],
      [CHR 0xE2, CHR 0x80, CHR 0xA9], [CHR 0xE2, CHR 0x80, CHR 0xAF],
      [CHR 0xE2, CHR 0x81, CHR 0x9F], [CHR 0xE3, CHR 0x80, CHR 0x80]]"

fun trim_left_fuel :: "nat \<Rightarrow> string \<Rightarrow> string" where
  "trim_left_fuel 0 s = s"
| "trim_left_fuel (Suc n) s =
     (case filter (\<lambda>e. take (length e) s = e) space_encodings of
        [] \<Rightarrow> s
      | e # _ \<Rightarrow> trim_left_fuel n (drop (length e) s))"

definition trim_left :: "string \<Rightarrow> string" where
  "trim_left s = trim_left_fuel (length s) s"

fun trim_right_fuel :: "nat \<Rightarrow> string \<Rightarrow> string" where
  "trim_right_fuel 0 s = s"
| "trim_right_fuel (Suc n) s =
     (case filter (\<lambda>e. length e \<le> length s \<and> drop (length s - length e) s = e) space_encodings of
        [] \<Rightarrow> s
      | e # _ \<Rightarrow> trim_right_fuel n (take (length s - length e) s))"

definition trim_right :: "string \<Rightarrow> string" where
  "trim_right s = trim_right_fuel (length s) s"

definition trim_space :: "string \<Rightarrow> string" where
  "trim_space s = trim_right (trim_left s)"

fun parse_digits :: "nat \<Rightarrow> string \<Rightarrow> nat option" where
  "parse_digits acc [] = Some acc"
| "parse_digits acc (c # cs) =
     (let n = (of_char c :: nat) in
      if 48 \<le> n \<and> n \<le> 57 then parse_digits (10 * acc + (n - 48)) cs else None)"

definition parse_nat10 :: "string \<Rightarrow> nat option" where
  "parse_nat10 s = (if s = [] then None else parse_digits 0 s)"

text \<open>\<^verbatim>\<open>new(big.Int).SetString(s, 10)\<close>: an optional sign and at least one decimal digit.\<close>

definition parse_int10 :: "string \<Rightarrow> int option" where
  "parse_int10 s =
     (case s of
        [] \<Rightarrow> None
      | c # cs \<Rightarrow>
          if c = CHR ''-'' then map_option (\<lambda>n. - int n) (parse_nat10 cs)
          else if c = CHR ''+'' then map_option int (parse_nat10 cs)
          else map_option int (parse_nat10 s))"

subsection \<open>Running computations\<close>

lemma ret_run [simp]: "ret a w = (Inr a, w)"
  by (simp add: ret_def)

lemma raise_run [simp]: "raise e w = (Inl e, w)"
  by (simp add: raise_def)

lemma guardm_run [simp]: "guardm b e w = (if b then (Inr (), w) else (Inl e, w))"
  by (simp add: guardm_def)

lemma lift_result_run [m_simps]:
  "lift_result r w = (case r of Inl e \<Rightarrow> (Inl e, w) | Inr a \<Rightarrow> (Inr a, w))"
  by (simp add: lift_result_def split: sum.split)

lemma time_now_run [simp]: "time_now w = (Inr (clock w), w)"
  by (simp add: time_now_def)

lemma bindm_ret [simp]: "bindm (ret a) f = f a"
  by (simp add: bindm_def ret_def)

lemma bindm_raise [simp]: "bindm (raise e) f = raise e"
  by (simp add: bindm_def raise_def)

lemma bindm_assoc: "bindm (bindm c f) g = bindm c (\<lambda>a. bindm (f a) g)"
  by (auto simp: bindm_def fun_eq_iff split: prod.splits sum.splits)

lemma bindm_Inr [m_success]:
  "bindm c f w = (Inr b, w') \<longleftrightarrow> (\<exists>a w1. c w = (Inr a, w1) \<and> f a w1 = (Inr b, w'))"
  by (auto simp: bindm_def split: prod.splits sum.splits)

lemma bindm_run_Inr: "c w = (Inr a, w1) \<Longrightarrow> bindm c f w = f a w1"
  by (simp add: bindm_def)

lemma bindm_run_Inl: "c w = (Inl e, w1) \<Longrightarrow> bindm c f w = (Inl e, w1)"
  by (simp add: bindm_def)

lemma ret_Inr [m_success]: "ret a w = (Inr b, w') \<longleftrightarrow> b = a \<and> w' = w"
  by auto

lemma raise_Inr [m_success]: "raise e w = (Inr b, w') \<longleftrightarrow> False"
  by simp

lemma guardm_Inr [m_success]: "guardm p e w = (Inr u, w') \<longleftrightarrow> p \<and> w' = w"
  by auto

lemma lift_result_Inr [m_success]: "lift_result r w = (Inr a, w') \<longleftrightarrow> r = Inr a \<and> w' = w"
  by (auto simp: lift_result_run split: sum.splits)

lemma time_now_Inr [m_success]: "time_now w = (Inr t, w') \<longleftrightarrow> t = clock w \<and> w' = w"
  by auto

lemma map_error_Inr [m_success]: "map_error f c w = (Inr a, w') \<longleftrightarrow> c w = (Inr a, w')"
  by (auto simp: map_error_def split: prod.splits sum.splits)

lemma next_outcome_world:
  "next_outcome w = (r, w') \<Longrightarrow>
     db w' = db w \<and> uuids w' = uuids w \<and> clock w' = clock w \<and> wire w' = wire w"
  by (auto simp: next_outcome_def split: list.splits)

lemma next_outcome_Nil [simp]: "outcomes w = [] \<Longrightarrow> next_outcome w = (Ok, w)"
  by (simp add: next_outcome_def)

lemma newUUIDv7_Inr [m_success]:
  "newUUIDv7 w = (Inr u, w') \<longleftrightarrow> (\<exists>us. uuids w = u # us \<and> w' = w\<lparr>uuids := us\<rparr>)"
  by (auto simp: newUUIDv7_def split: list.splits)

lemma newUUIDv7_run [m_simps]: "uuids w = u # us \<Longrightarrow> newUUIDv7 w = (Inr u, w\<lparr>uuids := us\<rparr>)"
  by (simp add: newUUIDv7_def)

lemma stmt_Inr [m_success]:
  "stmt f w = (Inr a, w') \<longleftrightarrow>
     (\<exists>w1 d. next_outcome w = (Ok, w1) \<and> f (db w) = Inr (a, d) \<and> w' = w1\<lparr>db := d\<rparr>)"
  by (auto simp: stmt_def dest: next_outcome_world split: prod.splits sum.splits if_splits)

lemma stmt_run [m_simps]:
  "outcomes w = [] \<Longrightarrow>
     stmt f w = (case f (db w) of Inl e \<Rightarrow> (Inl e, w) | Inr (a, d) \<Rightarrow> (Inr a, w\<lparr>db := d\<rparr>))"
  by (simp add: stmt_def)

lemma query_run [m_simps]: "outcomes w = [] \<Longrightarrow> query f w = (Inr (f (db w)), w)"
  by (simp add: query_def stmt_run)

text \<open>Inversion of a successful run, as facts on the fields of the worlds before and after.\<close>

lemma bindm_InrE:
  assumes "bindm c f w = (Inr b, w')"
  obtains a w1 where "c w = (Inr a, w1)" "f a w1 = (Inr b, w')"
  using assms by (auto simp: bindm_Inr)

lemma stmt_InrD:
  assumes "stmt f w = (Inr a, w')"
  shows "f (db w) = Inr (a, db w')" "clock w' = clock w" "wire w' = wire w" "uuids w' = uuids w"
  using assms by (auto simp: stmt_Inr dest: next_outcome_world)

lemma query_InrD:
  assumes "query f w = (Inr a, w')"
  shows "a = f (db w)" "db w' = db w" "clock w' = clock w" "wire w' = wire w" "uuids w' = uuids w"
  using stmt_InrD [OF assms [unfolded query_def]] by auto

lemma newUUIDv7_InrD:
  assumes "newUUIDv7 w = (Inr u, w')"
  shows "db w' = db w" "clock w' = clock w" "wire w' = wire w" "uuids w = u # uuids w'"
  using assms by (auto simp: newUUIDv7_Inr)

lemma deref_Inr [m_success]: "deref x w = (Inr a, w') \<longleftrightarrow> x = Some a \<and> w' = w"
  by (auto simp: deref_def split: option.splits)

lemma deref_run [m_simps]:
  "deref x w = (case x of None \<Rightarrow> (Inl (ErrText ''nil pointer''), w) | Some a \<Rightarrow> (Inr a, w))"
  by (simp add: deref_def split: option.split)

text \<open>A run known to succeed, as a pair.\<close>

lemma succeeded_pair: "isl (fst r) = False \<Longrightarrow> \<exists>a. r = (Inr a, snd r)"
  by (cases r; cases "fst r") auto

subsection \<open>Effects of a computation on the database\<close>

text \<open>
  \<open>effect c t d a d'\<close>: some run of \<open>c\<close>, at time \<open>t\<close> and from the database \<open>d\<close>, succeeds with
  result \<open>a\<close> and leaves \<open>d'\<close>.  \<open>quiet c\<close>: no run of \<open>c\<close>, successful or not, touches the clock
  or hands a raw transaction to a node.  The invariants of the components are proved over effects;
  \<open>in_tx_effect\<close> carries them to whole transactions with every fault included.
\<close>

definition effect :: "('d, 'a) m \<Rightarrow> time \<Rightarrow> 'd \<Rightarrow> 'a \<Rightarrow> 'd \<Rightarrow> bool" where
  "effect c t d a d' \<longleftrightarrow>
     (\<exists>w w'. clock w = t \<and> db w = d \<and> c w = (Inr a, w') \<and> db w' = d')"

definition quiet :: "('d, 'a) m \<Rightarrow> bool" where
  "quiet c \<longleftrightarrow> (\<forall>w. clock (snd (c w)) = clock w \<and> wire (snd (c w)) = wire w)"

lemma effectI: "c w = (Inr a, w') \<Longrightarrow> effect c (clock w) (db w) a (db w')"
  by (auto simp: effect_def)

lemma effectE:
  assumes "effect c t d a d'"
  obtains w w' where "c w = (Inr a, w')" "clock w = t" "db w = d" "db w' = d'"
  using assms by (auto simp: effect_def)

lemma quietD:
  assumes "quiet c" "c w = (r, w')"
  shows "clock w' = clock w" "wire w' = wire w"
  using assms by (auto simp: quiet_def dest: spec [of _ w])

lemma quiet_ret [simp]: "quiet (ret a)"
  by (simp add: quiet_def)

lemma quiet_raise [simp]: "quiet (raise e)"
  by (simp add: quiet_def)

lemma quiet_guardm [simp]: "quiet (guardm b e)"
  by (simp add: quiet_def)

lemma quiet_lift_result [simp]: "quiet (lift_result r)"
  by (simp add: quiet_def lift_result_run split: sum.split)

lemma quiet_deref [simp]: "quiet (deref x)"
  by (simp add: deref_def split: option.split)

lemma quiet_time_now [simp]: "quiet time_now"
  by (simp add: quiet_def)

lemma quiet_newUUIDv7 [simp]: "quiet newUUIDv7"
  by (simp add: quiet_def newUUIDv7_def split: list.split)

lemma next_outcome_fields [simp]:
  "db (snd (next_outcome w)) = db w" "clock (snd (next_outcome w)) = clock w"
  "wire (snd (next_outcome w)) = wire w" "uuids (snd (next_outcome w)) = uuids w"
  by (auto simp: next_outcome_def split: list.splits)

lemma quiet_stmt [simp]: "quiet (stmt f)"
  by (auto simp: quiet_def stmt_def split_beta split: sum.splits)

lemma quiet_query [simp]: "quiet (query f)"
  by (simp add: query_def)

lemma quiet_bindm [simp]: "quiet c \<Longrightarrow> (\<And>a. quiet (f a)) \<Longrightarrow> quiet (bindm c f)"
  by (auto simp: quiet_def bindm_def split_beta split: sum.splits)

lemma quiet_map_error [simp]: "quiet c \<Longrightarrow> quiet (map_error f c)"
  by (auto simp: quiet_def map_error_def split_beta split: sum.splits)

lemma quiet_for_each [simp]: "(\<And>x. quiet (f x)) \<Longrightarrow> quiet (for_each f xs)"
  by (induction xs) simp_all

lemma quiet_mapm [simp]: "(\<And>x. quiet (f x)) \<Longrightarrow> quiet (mapm f xs)"
  by (induction xs) simp_all

lemma quiet_in_tx_when [simp]: "quiet c \<Longrightarrow> quiet (in_tx_when p c)"
  by (auto simp: quiet_def in_tx_when_def split_beta split: sum.splits outcome.splits)

lemma quiet_in_tx [simp]: "quiet c \<Longrightarrow> quiet (in_tx c)"
  by (simp add: in_tx_def)

lemma quiet_read_tx [simp]: "quiet c \<Longrightarrow> quiet (read_tx c)"
  by (simp add: read_tx_def)

lemma effect_ret [m_success]: "effect (ret a) t d b d' \<longleftrightarrow> b = a \<and> d' = d"
  by (auto simp: effect_def intro!: exI [of _ "\<lparr>db = d, uuids = [], clock = t, outcomes = [], wire = []\<rparr>"])

lemma effect_raise [m_success]: "effect (raise e) t d b d' \<longleftrightarrow> False"
  by (simp add: effect_def)

lemma effect_guardm [m_success]: "effect (guardm p e) t d u d' \<longleftrightarrow> p \<and> d' = d"
  by (cases p) (simp_all add: guardm_def m_success)

lemma effect_lift_result [m_success]: "effect (lift_result r) t d a d' \<longleftrightarrow> r = Inr a \<and> d' = d"
  by (cases r) (auto simp: lift_result_def m_success)

lemma effect_deref [m_success]: "effect (deref x) t d a d' \<longleftrightarrow> x = Some a \<and> d' = d"
  by (cases x) (auto simp: deref_def m_success)

lemma effect_time_now [m_success]: "effect time_now t d a d' \<longleftrightarrow> a = t \<and> d' = d"
  by (auto simp: effect_def intro!: exI [of _ "\<lparr>db = d, uuids = [], clock = t, outcomes = [], wire = []\<rparr>"])

lemma effect_newUUIDv7 [m_success]: "effect newUUIDv7 t d u d' \<longleftrightarrow> d' = d"
proof
  assume "d' = d"
  moreover have "newUUIDv7 \<lparr>db = d, uuids = [u], clock = t, outcomes = [], wire = []\<rparr> =
      (Inr u, \<lparr>db = d, uuids = [], clock = t, outcomes = [], wire = []\<rparr>)"
    by (simp add: newUUIDv7_def)
  ultimately show "effect newUUIDv7 t d u d'"
    using effectI [of newUUIDv7 "\<lparr>db = d, uuids = [u], clock = t, outcomes = [], wire = []\<rparr>"]
    by simp
qed (auto elim!: effectE dest: newUUIDv7_InrD)

lemma effect_stmt [m_success]: "effect (stmt f) t d a d' \<longleftrightarrow> f d = Inr (a, d')"
proof
  assume "f d = Inr (a, d')"
  then have "stmt f \<lparr>db = d, uuids = [], clock = t, outcomes = [], wire = []\<rparr> =
      (Inr a, \<lparr>db = d', uuids = [], clock = t, outcomes = [], wire = []\<rparr>)"
    by (simp add: stmt_run)
  then show "effect (stmt f) t d a d'"
    using effectI [of "stmt f" "\<lparr>db = d, uuids = [], clock = t, outcomes = [], wire = []\<rparr>"]
    by simp
qed (auto elim!: effectE dest: stmt_InrD)

lemma effect_query [m_success]: "effect (query f) t d a d' \<longleftrightarrow> a = f d \<and> d' = d"
  by (auto simp: query_def m_success)

lemma effect_map_error [m_success]: "effect (map_error f c) t d a d' \<longleftrightarrow> effect c t d a d'"
  by (simp add: effect_def map_error_Inr)

lemma effect_bindmE:
  assumes "effect (bindm c f) t d b d'" "quiet c"
  obtains a d1 where "effect c t d a d1" "effect (f a) t d1 b d'"
proof -
  obtain w w' a w1 where w: "clock w = t" "db w = d" "db w' = d'"
    and c: "c w = (Inr a, w1)" and f: "f a w1 = (Inr b, w')"
    using assms(1) by (auto elim!: effectE bindm_InrE)
  have "clock w1 = t"
    using quietD [OF assms(2) c] w by simp
  then show thesis
    using effectI [of c w a w1] effectI [of "f a" w1 b w'] c f w that by simp
qed

text \<open>A transaction leaves the database as it found it, or with the effect of a successful run of
  its body: the second also when the commit arrived but its acknowledgement did not.\<close>

lemma in_tx_when_effect:
  assumes "in_tx_when p c w = (r, w')"
  shows "db w' = db w \<or> (\<exists>a. p a \<and> effect c (clock w) (db w) a (db w'))"
proof -
  obtain r1 w1 where n: "next_outcome w = (r1, w1)"
    by fastforce
  then have w1: "db w1 = db w" "clock w1 = clock w"
    by (auto dest: next_outcome_world)
  obtain s w2 where c: "c w1 = (s, w2)"
    by fastforce
  show ?thesis
  proof (cases s)
    case (Inr a)
    have e: "effect c (clock w) (db w) a (db w2)"
      using effectI [of c w1 a w2] c Inr w1 by simp
    obtain r3 w3 where n3: "next_outcome w2 = (r3, w3)"
      by fastforce
    then have "db w3 = db w2"
      by (auto dest: next_outcome_world)
    then show ?thesis
      using assms n c w1 Inr e n3
      by (auto simp: in_tx_when_def split: if_splits outcome.splits)
  qed (use assms n c w1 in \<open>auto simp: in_tx_when_def split: if_splits\<close>)
qed

lemma in_tx_effect:
  assumes "in_tx c w = (r, w')"
  shows "db w' = db w \<or> (\<exists>a. effect c (clock w) (db w) a (db w'))"
  using in_tx_when_effect [OF assms [unfolded in_tx_def]] by blast

lemma read_tx_db:
  assumes "read_tx c w = (r, w')"
  shows "db w' = db w"
  using in_tx_when_effect [OF assms [unfolded read_tx_def]] by blast

text \<open>An acknowledged commit is the effect of a run of the body.\<close>

lemma in_tx_Inr:
  assumes "in_tx c w = (Inr a, w')"
  shows "effect c (clock w) (db w) a (db w')"
proof -
  obtain w1 w2 w3 where "next_outcome w = (Ok, w1)" "c w1 = (Inr a, w2)" "next_outcome w2 = (Ok, w3)"
    "w' = w3"
    using assms by (auto simp: in_tx_def in_tx_when_def split: prod.splits sum.splits if_splits outcome.splits)
  then show ?thesis
    using effectI [of c w1 a w2] by (auto dest!: next_outcome_world)
qed

lemma in_tx_when_Inr:
  assumes "in_tx_when p c w = (Inr a, w')"
  shows "\<exists>d'. effect c (clock w) (db w) a d' \<and> db w' = (if p a then d' else db w)"
proof -
  obtain w1 w2 where 1: "next_outcome w = (Ok, w1)" "c w1 = (Inr a, w2)"
    using assms by (auto simp: in_tx_when_def split: prod.splits sum.splits if_splits outcome.splits)
  then have "effect c (clock w) (db w) a (db w2)"
    using effectI [of c w1 a w2] by (auto dest!: next_outcome_world)
  moreover have "db w' = (if p a then db w2 else db w)"
    using assms 1 by (auto simp: in_tx_when_def dest!: next_outcome_world split: prod.splits outcome.splits)
  ultimately show ?thesis by blast
qed

lemma in_tx_run:
  assumes "outcomes w = []" "c w = (r, w1)" "outcomes w1 = []"
  shows "in_tx c w = (r, case r of Inl _ \<Rightarrow> w1\<lparr>db := db w\<rparr> | Inr _ \<Rightarrow> w1)"
  using assms by (auto simp: in_tx_def in_tx_when_def split: sum.split)

text \<open>Invariants of the database across transactions.\<close>

lemma in_tx_when_keeps:
  assumes "in_tx_when p c w = (r, w')" "P (db w)"
    and "\<And>t d a d'. effect c t d a d' \<Longrightarrow> p a \<Longrightarrow> P d \<Longrightarrow> P d'"
  shows "P (db w')"
  using in_tx_when_effect [OF assms(1)] assms(2,3) by auto

lemma in_tx_keeps:
  assumes "in_tx c w = (r, w')" "P (db w)"
    and "\<And>t d a d'. effect c t d a d' \<Longrightarrow> P d \<Longrightarrow> P d'"
  shows "P (db w')"
  using in_tx_effect [OF assms(1)] assms(2,3) by auto

lemma in_tx_when_quiet:
  assumes "in_tx_when p c w = (r, w')" "quiet c"
  shows "clock w' = clock w" "wire w' = wire w"
  using quietD [OF quiet_in_tx_when [OF assms(2)] assms(1)] by auto

subsection \<open>Hexadecimal round trip\<close>

lemma hex_val_hex_digit: "n < 16 \<Longrightarrow> hex_val (hex_digit n) = Some n"
proof -
  have "\<forall>n\<in>set [0..<16]. hex_val (hex_digit n) = Some n"
    by code_simp
  then show "n < 16 \<Longrightarrow> hex_val (hex_digit n) = Some n"
    by auto
qed

lemma hex_digit_not_x: "n < 16 \<Longrightarrow> hex_digit n \<noteq> CHR ''x''"
proof -
  have "\<forall>n\<in>set [0..<16]. hex_digit n \<noteq> CHR ''x''"
    by code_simp
  then show "n < 16 \<Longrightarrow> hex_digit n \<noteq> CHR ''x''"
    by auto
qed

lemma byte_nibbles: "unat (b :: byte) div 16 < 16" "unat b mod 16 < 16"
  using unsigned_less [of b, where ?'a = nat] by auto

lemma hex_decode_encode: "hex_decode (hex_encode bs) = Some bs"
proof (induction bs)
  case (Cons b bs)
  have "of_nat (16 * (unat b div 16) + unat b mod 16) = b"
    by simp
  then show ?case
    using Cons byte_nibbles [of b] by (simp add: hex_encode_def hex_val_hex_digit)
qed (simp add: hex_encode_def)

lemma trim_prefix_hex_encode: "trim_prefix ''0x'' (hex_encode bs) = hex_encode bs"
  by (cases bs) (auto simp: trim_prefix_def hex_encode_def hex_digit_not_x byte_nibbles)

lemma hex_encode_Nil [simp]: "hex_encode bs = [] \<longleftrightarrow> bs = []"
  by (cases bs) (auto simp: hex_encode_def)

end
