(* ===== verification/Domain.thy ===== *)
theory Domain
  imports Prelude
begin

text \<open>
  The vocabulary of \<^verbatim>\<open>internal/core\<close>: chains, assets, account types, the statuses of a
  withdrawal, the states of a deposit, the value types the use cases exchange, the shape check on
  addresses and the CREATE2 salt.

  Chains and assets are strings, as in the code (\<^verbatim>\<open>type Chain string\<close>): a request may carry any
  string.  Account types, withdrawal statuses and deposit states are only ever written from the
  declared constants and are closed by a CHECK constraint each, so they are datatypes.  A
  \<^verbatim>\<open>*big.Int\<close> that the code compares with \<^verbatim>\<open>nil\<close> is an \<^typ>\<open>int option\<close>, any other an \<^typ>\<open>int\<close>.
\<close>

subsection \<open>Chains, assets, account types (customer.go)\<close>

type_synonym chain = string
type_synonym asset = string
type_synonym address = string

definition ChainBase :: chain where "ChainBase = ''base''"
definition ChainArbitrum :: chain where "ChainArbitrum = ''arbitrum''"

definition AssetETH :: asset where "AssetETH = ''eth''"
definition AssetUSDC :: asset where "AssetUSDC = ''usdc''"

definition SupportedChainAssetPairs :: "(chain \<times> asset) list" where
  "SupportedChainAssetPairs =
     [(ChainBase, AssetETH), (ChainBase, AssetUSDC),
      (ChainArbitrum, AssetETH), (ChainArbitrum, AssetUSDC)]"

datatype account_type = AccountTypeAvailable | AccountTypeHold | AccountTypeTreasury

record customer =
  cu_id :: uuid
  cu_created_at :: time
  cu_deposit_address :: address

record account =
  acc_id :: uuid
  acc_customer_id :: uuid
  acc_chain :: chain
  acc_asset :: asset
  acc_type :: account_type
  acc_created_at :: time

record account_balance =
  ab_chain :: chain
  ab_asset :: asset
  ab_balance :: int

record transfer_request =
  tr_source :: uuid
  tr_destination :: uuid
  tr_chain :: chain
  tr_asset :: asset
  tr_amount :: "int option"
  tr_idempotency_key :: string

record transfer =
  tf_id :: uuid
  tf_source :: uuid
  tf_destination :: uuid
  tf_chain :: chain
  tf_asset :: asset
  tf_amount :: int
  tf_created_at :: time

record transaction =
  tn_id :: uuid
  tn_type :: string
  tn_amount :: int
  tn_chain :: chain
  tn_asset :: asset
  tn_status :: string
  tn_created_at :: time

record transaction_page =
  tp_transactions :: "transaction list"
  tp_next_cursor :: string

subsection \<open>Deposits (deposit.go)\<close>

datatype deposit_state =
  DepositObserved | DepositSafe | DepositFinalized | DepositOrphaned | DepositCredited

definition CursorTierObserved :: string where "CursorTierObserved = ''observed''"
definition CursorTierSafe :: string where "CursorTierSafe = ''safe''"
definition CursorTierFinalized :: string where "CursorTierFinalized = ''finalized''"

record deposit =
  de_id :: uuid
  de_chain :: chain
  de_asset :: asset
  de_address :: address
  de_tx_hash :: string
  de_log_index :: int
  de_amount :: int
  de_block_number :: u64
  de_block_hash :: string
  de_state :: deposit_state
  de_observed_at :: time
  de_updated_at :: time

record observed_transfer =
  ot_chain :: chain
  ot_asset :: asset
  ot_address :: address
  ot_tx_hash :: string
  ot_log_index :: int
  ot_amount :: int
  ot_block_number :: u64
  ot_block_hash :: string

record unsupported_token_observation =
  ut_id :: uuid
  ut_chain :: chain
  ut_address :: address
  ut_contract_address :: address
  ut_tx_hash :: string
  ut_log_index :: int
  ut_amount :: int
  ut_block_number :: u64
  ut_observed_at :: time

subsection \<open>Withdrawals and fees (withdrawal.go, fee\_estimate.go)\<close>

datatype withdrawal_status =
    WithdrawalStatusCreated
  | WithdrawalStatusAwaitingApproval
  | WithdrawalStatusApproved
  | WithdrawalStatusSigned
  | WithdrawalStatusBroadcast
  | WithdrawalStatusConfirmed
  | WithdrawalStatusFailed

record withdrawal_request =
  wr_customer_id :: uuid
  wr_chain :: chain
  wr_asset :: asset
  wr_amount :: "int option"
  wr_destination_address :: address
  wr_idempotency_key :: string

record withdrawal =
  wi_id :: uuid
  wi_customer_id :: uuid
  wi_chain :: chain
  wi_asset :: asset
  wi_amount :: int
  wi_destination_address :: address
  wi_status :: withdrawal_status
  wi_created_at :: time
  wi_approved_at :: "time option"
  wi_approved_by :: string
  wi_approval_reason :: string
  wi_tx_hash :: string
  wi_nonce :: "int option"
  wi_signed_tx :: "byte list"
  wi_stuck_alerted_at :: "time option"

record fee_estimate =
  fe_l2 :: "int option"
  fe_l1 :: "int option"
  fe_total :: "int option"

subsection \<open>Stored HTTP responses (ports.go)\<close>

record stored_response =
  sr_status :: int
  sr_body :: string
  sr_content_type :: string

record stored_entry =
  se_request_hash :: "byte list"
  se_response :: stored_response

subsection \<open>Addresses and the CREATE2 salt (create\_withdrawal.go, deposit\_address.go)\<close>

text \<open>The pattern \<^verbatim>\<open>^0x[0-9a-fA-F]{n}$\<close>, of the code for n = 40 and of the schema for n = 40
  and n = 64.\<close>

definition hex_pattern :: "nat \<Rightarrow> string \<Rightarrow> bool" where
  "hex_pattern n s \<longleftrightarrow>
     take 2 s = ''0x'' \<and> length s = n + 2 \<and> (\<forall>c\<in>set (drop 2 s). hex_val c \<noteq> None)"

definition destinationAddressPattern :: "string \<Rightarrow> bool" where
  "destinationAddressPattern s = hex_pattern 40 s"

definition zeroDestinationAddress :: string where
  "zeroDestinationAddress = ''0x'' @ replicate 40 (CHR ''0'')"

text \<open>\<^verbatim>\<open>strings.EqualFold\<close> on ASCII strings, where the code uses it (after the shape check).\<close>

definition equal_fold :: "string \<Rightarrow> string \<Rightarrow> bool" where
  "equal_fold s t \<longleftrightarrow> to_lower s = to_lower t"

text \<open>\<^verbatim>\<open>uuid.Parse\<close> of \<^verbatim>\<open>github.com/google/uuid\<close> is the parameter \<open>uuid_parse\<close>.\<close>

definition customerSalt :: "(string \<Rightarrow> byte list option) \<Rightarrow> string \<Rightarrow> error + byte list" where
  "customerSalt uuid_parse customerID =
     (case uuid_parse customerID of
        None \<Rightarrow> Inl (ErrText ''parse customer id as uuid'')
      | Some i \<Rightarrow> Inr (replicate 16 0 @ i))"

text \<open>\<^verbatim>\<open>(*big.Int).BitLen\<close>: the length of the absolute value in bits.\<close>

fun bit_len_nat :: "nat \<Rightarrow> nat" where
  "bit_len_nat n = (if n = 0 then 0 else Suc (bit_len_nat (n div 2)))"

declare bit_len_nat.simps [simp del]

definition bit_len :: "int \<Rightarrow> nat" where
  "bit_len x = bit_len_nat (nat \<bar>x\<bar>)"

subsection \<open>Facts\<close>

lemma chain_asset_distinct [simp]:
  "ChainBase \<noteq> ChainArbitrum" "ChainArbitrum \<noteq> ChainBase"
  "AssetETH \<noteq> AssetUSDC" "AssetUSDC \<noteq> AssetETH"
  by (simp_all add: ChainBase_def ChainArbitrum_def AssetETH_def AssetUSDC_def)

lemma cursor_tiers_distinct [simp]:
  "CursorTierObserved \<noteq> CursorTierSafe" "CursorTierSafe \<noteq> CursorTierObserved"
  "CursorTierObserved \<noteq> CursorTierFinalized" "CursorTierFinalized \<noteq> CursorTierObserved"
  "CursorTierSafe \<noteq> CursorTierFinalized" "CursorTierFinalized \<noteq> CursorTierSafe"
  by (simp_all add: CursorTierObserved_def CursorTierSafe_def CursorTierFinalized_def)

lemma SupportedChainAssetPairs_set:
  "set SupportedChainAssetPairs = {ChainBase, ChainArbitrum} \<times> {AssetETH, AssetUSDC}"
  by (auto simp: SupportedChainAssetPairs_def)

lemma SupportedChainAssetPairs_distinct: "distinct SupportedChainAssetPairs"
  by (simp add: SupportedChainAssetPairs_def)

text \<open>The bit length bound is the bound on the value: \<open>BitLen() > 256\<close> rejects exactly the
  amounts that a \<^verbatim>\<open>uint256\<close> cannot hold.\<close>

lemma bit_len_nat_le: "bit_len_nat n \<le> k \<longleftrightarrow> n < 2 ^ k"
proof (induction n arbitrary: k rule: bit_len_nat.induct)
  case (1 n)
  show ?case
  proof (cases "n = 0")
    case False
    show ?thesis
    proof (cases k)
      case (Suc j)
      have "bit_len_nat n \<le> k \<longleftrightarrow> bit_len_nat (n div 2) \<le> j"
        using False Suc by (simp add: bit_len_nat.simps [of n])
      also have "\<dots> \<longleftrightarrow> n div 2 < 2 ^ j"
        using "1.IH" [OF False] by simp
      also have "\<dots> \<longleftrightarrow> n < 2 ^ k"
        using Suc by (simp add: div_less_iff_less_mult mult.commute)
      finally show ?thesis .
    qed (use False in \<open>simp add: bit_len_nat.simps [of n]\<close>)
  qed (simp add: bit_len_nat.simps)
qed

lemma bit_len_le: "bit_len x \<le> k \<longleftrightarrow> \<bar>x\<bar> < 2 ^ k"
  by (simp add: bit_len_def bit_len_nat_le nat_less_iff)

lemma bit_len_gt: "k < bit_len x \<longleftrightarrow> 2 ^ k \<le> \<bar>x\<bar>"
  using bit_len_le [of x k] by linarith

lemma customerSalt_layout:
  "customerSalt p c = Inr s \<longleftrightarrow> (\<exists>i. p c = Some i \<and> s = replicate 16 0 @ i)"
  by (auto simp: customerSalt_def split: option.splits)

end
