(* ===== verification/Database.thy ===== *)
theory Database
  imports Domain
begin

text \<open>
  The PostgreSQL schema after migrations 0001 to 0012
  (\<^verbatim>\<open>internal/adapter/postgres/migrations\<close>): one row record per table, the database as a record of
  tables, and one definition per INSERT statement shape, with the PRIMARY KEY, UNIQUE, FOREIGN KEY
  and CHECK constraints the migrations declare as its guards.  A table is the list of its rows in
  insertion order; a query that needs an order sorts.  A statement that violates a constraint
  returns the error and changes nothing.

  \<open>seeded\<close> is the database the migrations leave behind, for given ids of the eight platform
  accounts (\<^verbatim>\<open>gen_random_uuid()\<close>).  \<open>schema_ok\<close> states every constraint as a predicate; each
  insertion keeps it.
\<close>

subsection \<open>Rows\<close>

record customer_row =
  c_id :: uuid
  c_created_at :: time

record account_row =
  a_id :: uuid
  a_customer_id :: "uuid option"
  a_chain :: chain
  a_asset :: asset
  a_type :: account_type
  a_created_at :: time

record journal_entry_row =
  j_id :: uuid
  j_cause_type :: string
  j_cause_id :: string
  j_created_at :: time

record posting_row =
  p_id :: uuid
  p_journal_entry_id :: uuid
  p_account_id :: uuid
  p_amount :: int
  p_created_at :: time

record deposit_address_row =
  da_customer_id :: uuid
  da_address :: address
  da_created_at :: time

record deposit_row =
  d_id :: uuid
  d_chain :: chain
  d_asset :: asset
  d_address :: address
  d_tx_hash :: string
  d_log_index :: int
  d_amount :: int
  d_block_number :: u64
  d_block_hash :: "string option"
  d_state :: deposit_state
  d_observed_at :: time
  d_updated_at :: time

record watcher_cursor_row =
  wc_chain :: chain
  wc_tier :: string
  wc_last_block :: u64
  wc_updated_at :: time

record crediting_policy_row =
  cp_chain :: chain
  cp_asset :: asset
  cp_credit_tier :: string

record token_registry_row =
  tk_chain :: chain
  tk_contract_address :: address
  tk_asset :: asset

record withdrawal_row =
  w_id :: uuid
  w_customer_id :: uuid
  w_chain :: chain
  w_asset :: asset
  w_amount :: int
  w_destination_address :: address
  w_status :: withdrawal_status
  w_hold_journal_entry_id :: uuid
  w_created_at :: time
  w_updated_at :: time
  w_approved_at :: "time option"
  w_approved_by :: "string option"
  w_approval_reason :: "string option"
  w_tx_hash :: "string option"
  w_nonce :: "int option"
  w_stuck_alerted_at :: "time option"

record threshold_row =
  th_chain :: chain
  th_asset :: asset
  th_amount :: int

record nonce_row =
  n_chain :: chain
  n_next_nonce :: int
  n_updated_at :: time

record attempt_row =
  b_id :: uuid
  b_withdrawal_id :: uuid
  b_chain :: chain
  b_nonce :: int
  b_tx_hash :: "string option"
  b_signed_tx :: "string option"
  b_created_at :: time

text \<open>A JSON payload of \<^verbatim>\<open>outbox_events\<close>: the marshalled struct as its fields in order.\<close>

datatype json = JString string | JInt int | JMoney int

type_synonym payload = "(string \<times> json) list"

record outbox_row =
  o_id :: uuid
  o_event_type :: string
  o_payload :: payload
  o_created_at :: time

record database =
  customers :: "customer_row list"
  accounts :: "account_row list"
  idempotency_keys :: "(string \<times> stored_entry) list"
  journal_entries :: "journal_entry_row list"
  postings :: "posting_row list"
  deposit_addresses :: "deposit_address_row list"
  deposits :: "deposit_row list"
  watcher_cursors :: "watcher_cursor_row list"
  outbox_events :: "outbox_row list"
  crediting_policy :: "crediting_policy_row list"
  token_registry :: "token_registry_row list"
  unsupported_token_observations :: "unsupported_token_observation list"
  withdrawals :: "withdrawal_row list"
  withdrawal_approval_thresholds :: "threshold_row list"
  chain_nonce_state :: "nonce_row list"
  broadcast_attempts :: "attempt_row list"

type_synonym 'a db_m = "(database, 'a) m"

subsection \<open>Column types\<close>

text \<open>\<^verbatim>\<open>NUMERIC(78,0)\<close>, \<^verbatim>\<open>bigint\<close> and \<^verbatim>\<open>integer\<close>: a value outside the range is an error of the
  statement, never a wrap-around.\<close>

definition numeric78 :: "int \<Rightarrow> bool" where
  "numeric78 x \<longleftrightarrow> \<bar>x\<bar> < 10 ^ 78"

definition bigint :: "int \<Rightarrow> bool" where
  "bigint x \<longleftrightarrow> - (2 ^ 63) \<le> x \<and> x < 2 ^ 63"

definition integer32 :: "int \<Rightarrow> bool" where
  "integer32 x \<longleftrightarrow> - (2 ^ 31) \<le> x \<and> x < 2 ^ 31"

definition chain_check :: "chain \<Rightarrow> bool" where
  "chain_check c \<longleftrightarrow> c = ChainBase \<or> c = ChainArbitrum"

definition asset_check :: "asset \<Rightarrow> bool" where
  "asset_check a \<longleftrightarrow> a = AssetETH \<or> a = AssetUSDC"

definition constrained :: "bool \<Rightarrow> bool \<Rightarrow> 'd \<Rightarrow> error + unit \<times> 'd" where
  "constrained unique ok d =
     (if \<not> ok then Inl (PgError ''constraint'') else if \<not> unique then Inl PgUniqueViolation
      else Inr ((), d))"

subsection \<open>Constraints per table\<close>

definition account_key :: "account_row \<Rightarrow> uuid option \<times> chain \<times> asset \<times> account_type" where
  "account_key r = (a_customer_id r, a_chain r, a_asset r, a_type r)"

definition deposit_key :: "deposit_row \<Rightarrow> chain \<times> string \<times> int" where
  "deposit_key r = (d_chain r, d_tx_hash r, d_log_index r)"

definition deposit_checks :: "deposit_row \<Rightarrow> bool" where
  "deposit_checks r \<longleftrightarrow>
     chain_check (d_chain r) \<and> asset_check (d_asset r) \<and> hex_pattern 40 (d_address r) \<and>
     0 < d_amount r \<and> numeric78 (d_amount r) \<and> integer32 (d_log_index r) \<and>
     bigint (uint (d_block_number r)) \<and>
     (case d_block_hash r of None \<Rightarrow> True | Some h \<Rightarrow> hex_pattern 64 h)"

definition withdrawal_checks :: "database \<Rightarrow> withdrawal_row \<Rightarrow> bool" where
  "withdrawal_checks d r \<longleftrightarrow>
     w_customer_id r \<in> c_id ` set (customers d) \<and>
     w_hold_journal_entry_id r \<in> j_id ` set (journal_entries d) \<and>
     chain_check (w_chain r) \<and> asset_check (w_asset r) \<and>
     0 < w_amount r \<and> numeric78 (w_amount r) \<and> hex_pattern 40 (w_destination_address r)"

subsection \<open>Insertions\<close>

definition insert_customer :: "customer_row \<Rightarrow> database \<Rightarrow> error + unit \<times> database" where
  "insert_customer r d =
     constrained (c_id r \<notin> c_id ` set (customers d)) True (d\<lparr>customers := customers d @ [r]\<rparr>)"

definition insert_account :: "account_row \<Rightarrow> database \<Rightarrow> error + unit \<times> database" where
  "insert_account r d =
     constrained
       (a_id r \<notin> a_id ` set (accounts d) \<and> account_key r \<notin> account_key ` set (accounts d))
       (case a_customer_id r of None \<Rightarrow> True | Some c \<Rightarrow> c \<in> c_id ` set (customers d))
       (d\<lparr>accounts := accounts d @ [r]\<rparr>)"

definition insert_deposit_address ::
    "deposit_address_row \<Rightarrow> database \<Rightarrow> error + unit \<times> database" where
  "insert_deposit_address r d =
     constrained
       (da_customer_id r \<notin> da_customer_id ` set (deposit_addresses d) \<and>
        da_address r \<notin> da_address ` set (deposit_addresses d))
       (da_customer_id r \<in> c_id ` set (customers d) \<and> hex_pattern 40 (da_address r))
       (d\<lparr>deposit_addresses := deposit_addresses d @ [r]\<rparr>)"

definition insert_journal_entry ::
    "journal_entry_row \<Rightarrow> database \<Rightarrow> error + unit \<times> database" where
  "insert_journal_entry r d =
     constrained
       (j_id r \<notin> j_id ` set (journal_entries d) \<and>
        (j_cause_type r, j_cause_id r) \<notin>
          (\<lambda>j. (j_cause_type j, j_cause_id j)) ` set (journal_entries d))
       True
       (d\<lparr>journal_entries := journal_entries d @ [r]\<rparr>)"

definition insert_posting :: "posting_row \<Rightarrow> database \<Rightarrow> error + unit \<times> database" where
  "insert_posting r d =
     constrained
       (p_id r \<notin> p_id ` set (postings d))
       (p_journal_entry_id r \<in> j_id ` set (journal_entries d) \<and>
        p_account_id r \<in> a_id ` set (accounts d) \<and> numeric78 (p_amount r))
       (d\<lparr>postings := postings d @ [r]\<rparr>)"

definition insert_outbox_event :: "outbox_row \<Rightarrow> database \<Rightarrow> error + unit \<times> database" where
  "insert_outbox_event r d =
     constrained (o_id r \<notin> o_id ` set (outbox_events d)) True
       (d\<lparr>outbox_events := outbox_events d @ [r]\<rparr>)"

definition insert_withdrawal :: "withdrawal_row \<Rightarrow> database \<Rightarrow> error + unit \<times> database" where
  "insert_withdrawal r d =
     constrained (w_id r \<notin> w_id ` set (withdrawals d)) (withdrawal_checks d r)
       (d\<lparr>withdrawals := withdrawals d @ [r]\<rparr>)"

definition insert_broadcast_attempt ::
    "attempt_row \<Rightarrow> database \<Rightarrow> error + unit \<times> database" where
  "insert_broadcast_attempt r d =
     constrained
       (b_id r \<notin> b_id ` set (broadcast_attempts d) \<and>
        b_withdrawal_id r \<notin> b_withdrawal_id ` set (broadcast_attempts d))
       (b_withdrawal_id r \<in> w_id ` set (withdrawals d) \<and> chain_check (b_chain r) \<and>
        bigint (b_nonce r))
       (d\<lparr>broadcast_attempts := broadcast_attempts d @ [r]\<rparr>)"

text \<open>\<^verbatim>\<open>INSERT ... ON CONFLICT (chain, tx_hash, log_index) WHERE state != 'orphaned' DO NOTHING\<close>:
  the number of rows affected.  The conflict target is the partial unique index; a clash of
  primary keys is still an error.\<close>

definition insert_deposit_or_nothing ::
    "deposit_row \<Rightarrow> database \<Rightarrow> error + nat \<times> database" where
  "insert_deposit_or_nothing r d =
     (if \<not> deposit_checks r then Inl (PgError ''constraint'')
      else if d_state r \<noteq> DepositOrphaned \<and>
              (\<exists>x\<in>set (deposits d). d_state x \<noteq> DepositOrphaned \<and> deposit_key x = deposit_key r)
      then Inr (0, d)
      else if d_id r \<in> d_id ` set (deposits d) then Inl PgUniqueViolation
      else Inr (1, d\<lparr>deposits := deposits d @ [r]\<rparr>))"

definition insert_observation_or_nothing ::
    "unsupported_token_observation \<Rightarrow> database \<Rightarrow> error + nat \<times> database" where
  "insert_observation_or_nothing r d =
     (if \<not> (chain_check (ut_chain r) \<and> hex_pattern 40 (ut_address r) \<and>
             hex_pattern 40 (ut_contract_address r) \<and> 0 < ut_amount r \<and>
             numeric78 (ut_amount r) \<and> integer32 (ut_log_index r) \<and>
             bigint (uint (ut_block_number r)))
      then Inl (PgError ''constraint'')
      else if \<exists>x\<in>set (unsupported_token_observations d).
                ut_chain x = ut_chain r \<and> ut_tx_hash x = ut_tx_hash r \<and>
                ut_log_index x = ut_log_index r
      then Inr (0, d)
      else if ut_id r \<in> ut_id ` set (unsupported_token_observations d)
      then Inl PgUniqueViolation
      else Inr (1, d\<lparr>unsupported_token_observations :=
                      unsupported_token_observations d @ [r]\<rparr>))"

definition insert_idempotency_key ::
    "string \<Rightarrow> stored_entry \<Rightarrow> database \<Rightarrow> error + unit \<times> database" where
  "insert_idempotency_key k e d =
     constrained (k \<notin> fst ` set (idempotency_keys d)) True
       (d\<lparr>idempotency_keys := idempotency_keys d @ [(k, e)]\<rparr>)"

subsection \<open>Updates\<close>

text \<open>\<^verbatim>\<open>UPDATE t SET ... WHERE p\<close>: every matching row is rewritten; the result is the number of
  rows affected.\<close>

definition modify :: "('r \<Rightarrow> bool) \<Rightarrow> ('r \<Rightarrow> 'r) \<Rightarrow> 'r list \<Rightarrow> 'r list" where
  "modify p f rs = map (\<lambda>r. if p r then f r else r) rs"

definition update_rows :: "('r \<Rightarrow> bool) \<Rightarrow> ('r \<Rightarrow> 'r) \<Rightarrow> 'r list \<Rightarrow> nat \<times> 'r list" where
  "update_rows p f rs = (length (filter p rs), modify p f rs)"

definition update_withdrawals ::
    "(withdrawal_row \<Rightarrow> bool) \<Rightarrow> (withdrawal_row \<Rightarrow> withdrawal_row) \<Rightarrow> database \<Rightarrow>
     error + nat \<times> database" where
  "update_withdrawals p f d =
     (case update_rows p f (withdrawals d) of (n, rs) \<Rightarrow> Inr (n, d\<lparr>withdrawals := rs\<rparr>))"

definition update_attempts ::
    "(attempt_row \<Rightarrow> bool) \<Rightarrow> (attempt_row \<Rightarrow> attempt_row) \<Rightarrow> database \<Rightarrow> error + nat \<times> database" where
  "update_attempts p f d =
     (case update_rows p f (broadcast_attempts d) of (n, rs) \<Rightarrow>
        Inr (n, d\<lparr>broadcast_attempts := rs\<rparr>))"

definition update_deposits ::
    "(deposit_row \<Rightarrow> bool) \<Rightarrow> (deposit_row \<Rightarrow> deposit_row) \<Rightarrow> database \<Rightarrow> error + nat \<times> database" where
  "update_deposits p f d =
     (case update_rows p f (deposits d) of (n, rs) \<Rightarrow> Inr (n, d\<lparr>deposits := rs\<rparr>))"

definition update_nonces ::
    "(nonce_row \<Rightarrow> bool) \<Rightarrow> (nonce_row \<Rightarrow> nonce_row) \<Rightarrow> database \<Rightarrow> error + nat \<times> database" where
  "update_nonces p f d =
     (case update_rows p f (chain_nonce_state d) of (n, rs) \<Rightarrow>
        if \<forall>r\<in>set rs. bigint (n_next_nonce r) then Inr (n, d\<lparr>chain_nonce_state := rs\<rparr>)
        else Inl (PgError ''bigint out of range''))"

text \<open>The first row of a query result, and \<^verbatim>\<open>pgx.ErrNoRows\<close>.\<close>

definition select_first :: "('r \<Rightarrow> bool) \<Rightarrow> 'r list \<Rightarrow> 'r option" where
  "select_first p rs = (case filter p rs of [] \<Rightarrow> None | r # _ \<Rightarrow> Some r)"

subsection \<open>The database after the migrations\<close>

definition seeded :: "uuid list \<Rightarrow> time \<Rightarrow> database" where
  "seeded us t =
     \<lparr>customers = [],
      accounts =
        map (\<lambda>(u, ty, ch, a). \<lparr>a_id = u, a_customer_id = None, a_chain = ch, a_asset = a,
               a_type = ty, a_created_at = t\<rparr>)
          (zip us (map (\<lambda>(ch, a). (AccountTypeAvailable, ch, a)) SupportedChainAssetPairs @
                   map (\<lambda>(ch, a). (AccountTypeTreasury, ch, a)) SupportedChainAssetPairs)),
      idempotency_keys = [], journal_entries = [], postings = [], deposit_addresses = [],
      deposits = [], watcher_cursors = [], outbox_events = [],
      crediting_policy =
        map (\<lambda>(ch, a). \<lparr>cp_chain = ch, cp_asset = a, cp_credit_tier = ''finalized''\<rparr>)
          SupportedChainAssetPairs,
      token_registry = [], unsupported_token_observations = [], withdrawals = [],
      withdrawal_approval_thresholds =
        map (\<lambda>(ch, a). \<lparr>th_chain = ch, th_asset = a,
               th_amount = (if a = AssetETH then 10 ^ 18 else 10 ^ 9)\<rparr>)
          SupportedChainAssetPairs,
      chain_nonce_state =
        map (\<lambda>ch. \<lparr>n_chain = ch, n_next_nonce = 0, n_updated_at = t\<rparr>) [ChainBase, ChainArbitrum],
      broadcast_attempts = []\<rparr>"

definition seed_ids :: "uuid list" where
  "seed_ids = [''f1'', ''f2'', ''f3'', ''f4'', ''t1'', ''t2'', ''t3'', ''t4'']"

subsection \<open>The constraints as an invariant\<close>

definition accounts_ok :: "database \<Rightarrow> bool" where
  "accounts_ok d \<longleftrightarrow>
     distinct (map c_id (customers d)) \<and> distinct (map a_id (accounts d)) \<and>
     distinct (map account_key (accounts d)) \<and>
     (\<forall>r\<in>set (accounts d). \<forall>c\<in>set_option (a_customer_id r). c \<in> c_id ` set (customers d)) \<and>
     distinct (map da_customer_id (deposit_addresses d)) \<and>
     distinct (map da_address (deposit_addresses d)) \<and>
     (\<forall>r\<in>set (deposit_addresses d). da_customer_id r \<in> c_id ` set (customers d))"

definition cause :: "journal_entry_row \<Rightarrow> string \<times> string" where
  "cause j = (j_cause_type j, j_cause_id j)"

definition journal_ok :: "database \<Rightarrow> bool" where
  "journal_ok d \<longleftrightarrow>
     distinct (map j_id (journal_entries d)) \<and> distinct (map cause (journal_entries d)) \<and>
     distinct (map p_id (postings d)) \<and>
     (\<forall>p\<in>set (postings d). p_journal_entry_id p \<in> j_id ` set (journal_entries d) \<and>
        p_account_id p \<in> a_id ` set (accounts d))"

definition active_deposits :: "database \<Rightarrow> deposit_row list" where
  "active_deposits d = filter (\<lambda>x. d_state x \<noteq> DepositOrphaned) (deposits d)"

definition deposits_ok :: "database \<Rightarrow> bool" where
  "deposits_ok d \<longleftrightarrow>
     distinct (map d_id (deposits d)) \<and> distinct (map deposit_key (active_deposits d)) \<and>
     (\<forall>x\<in>set (deposits d). deposit_checks x)"

definition withdrawals_ok :: "database \<Rightarrow> bool" where
  "withdrawals_ok d \<longleftrightarrow>
     distinct (map w_id (withdrawals d)) \<and> (\<forall>x\<in>set (withdrawals d). withdrawal_checks d x)"

definition attempts_ok :: "database \<Rightarrow> bool" where
  "attempts_ok d \<longleftrightarrow>
     distinct (map b_id (broadcast_attempts d)) \<and>
     distinct (map b_withdrawal_id (broadcast_attempts d)) \<and>
     (\<forall>b\<in>set (broadcast_attempts d). b_withdrawal_id b \<in> w_id ` set (withdrawals d)) \<and>
     distinct (map n_chain (chain_nonce_state d))"

definition schema_ok :: "database \<Rightarrow> bool" where
  "schema_ok d \<longleftrightarrow>
     accounts_ok d \<and> journal_ok d \<and> deposits_ok d \<and> withdrawals_ok d \<and> attempts_ok d \<and>
     distinct (map o_id (outbox_events d)) \<and> distinct (map fst (idempotency_keys d))"

lemmas schema_defs =
  accounts_ok_def journal_ok_def deposits_ok_def withdrawals_ok_def attempts_ok_def

subsection \<open>Inversion of statements\<close>

lemma constrained_Inr [m_success]: "constrained u ok d = Inr (x, d') \<longleftrightarrow> ok \<and> u \<and> d' = d"
  by (auto simp: constrained_def)

lemmas insert_defs =
  insert_customer_def insert_account_def insert_deposit_address_def insert_journal_entry_def
  insert_posting_def insert_outbox_event_def insert_withdrawal_def insert_broadcast_attempt_def
  insert_idempotency_key_def

lemmas update_defs = update_withdrawals_def update_attempts_def update_deposits_def update_rows_def

lemma update_withdrawals_Inr [m_success]:
  "update_withdrawals p f d = Inr (n, d') \<longleftrightarrow>
     n = length (filter p (withdrawals d)) \<and>
     d' = d\<lparr>withdrawals := modify p f (withdrawals d)\<rparr>"
  by (auto simp: update_defs)

lemma update_attempts_Inr [m_success]:
  "update_attempts p f d = Inr (n, d') \<longleftrightarrow>
     n = length (filter p (broadcast_attempts d)) \<and>
     d' = d\<lparr>broadcast_attempts := modify p f (broadcast_attempts d)\<rparr>"
  by (auto simp: update_defs)

lemma update_deposits_Inr [m_success]:
  "update_deposits p f d = Inr (n, d') \<longleftrightarrow>
     n = length (filter p (deposits d)) \<and>
     d' = d\<lparr>deposits := modify p f (deposits d)\<rparr>"
  by (auto simp: update_defs)

lemma update_nonces_Inr [m_success]:
  "update_nonces p f d = Inr (n, d') \<longleftrightarrow>
     n = length (filter p (chain_nonce_state d)) \<and>
     (\<forall>r\<in>set (modify p f (chain_nonce_state d)). bigint (n_next_nonce r)) \<and>
     d' = d\<lparr>chain_nonce_state := modify p f (chain_nonce_state d)\<rparr>"
  by (auto simp: update_nonces_def update_rows_def)

lemma select_first_Some: "select_first p rs = Some r \<Longrightarrow> r \<in> set rs \<and> p r"
  by (auto simp: select_first_def dest!: filter_eq_ConsD split: list.splits)

lemma select_first_None: "select_first p rs = None \<longleftrightarrow> (\<forall>r\<in>set rs. \<not> p r)"
  by (auto simp: select_first_def filter_empty_conv dest!: filter_eq_ConsD split: list.splits)

lemma set_modify: "set (modify p f rs) = (\<lambda>r. if p r then f r else r) ` set rs"
  by (simp add: modify_def)

lemma in_modifyE:
  assumes "x \<in> set (modify p f rs)"
  obtains r where "r \<in> set rs" "p r" "x = f r" | "x \<in> set rs" "\<not> p x"
  using assms by (auto simp: set_modify split: if_splits)

lemma map_modify: "(\<And>r. p r \<Longrightarrow> k (f r) = k r) \<Longrightarrow> map k (modify p f rs) = map k rs"
  by (induction rs) (auto simp: modify_def)

lemma image_modify: "(\<And>r. p r \<Longrightarrow> k (f r) = k r) \<Longrightarrow> k ` set (modify p f rs) = k ` set rs"
  by (metis list.set_map map_modify)

lemma modify_Nil [simp]: "modify p f [] = []"
  by (simp add: modify_def)

lemma modify_Cons [simp]: "modify p f (r # rs) = (if p r then f r else r) # modify p f rs"
  by (simp add: modify_def)

lemma modify_append [simp]: "modify p f (rs @ ss) = modify p f rs @ modify p f ss"
  by (simp add: modify_def)

lemma length_modify [simp]: "length (modify p f rs) = length rs"
  by (simp add: modify_def)

lemma modify_id: "(\<And>r. r \<in> set rs \<Longrightarrow> \<not> p r) \<Longrightarrow> modify p f rs = rs"
  by (induction rs) auto

subsection \<open>Which tables a constraint reads\<close>

lemma withdrawal_checks_frame [simp]:
  "withdrawal_checks (d\<lparr>accounts := x2\<rparr>) r = withdrawal_checks d r"
  "withdrawal_checks (d\<lparr>idempotency_keys := x3\<rparr>) r = withdrawal_checks d r"
  "withdrawal_checks (d\<lparr>postings := x5\<rparr>) r = withdrawal_checks d r"
  "withdrawal_checks (d\<lparr>deposit_addresses := x6\<rparr>) r = withdrawal_checks d r"
  "withdrawal_checks (d\<lparr>deposits := x7\<rparr>) r = withdrawal_checks d r"
  "withdrawal_checks (d\<lparr>watcher_cursors := x8\<rparr>) r = withdrawal_checks d r"
  "withdrawal_checks (d\<lparr>outbox_events := x9\<rparr>) r = withdrawal_checks d r"
  "withdrawal_checks (d\<lparr>crediting_policy := x10\<rparr>) r = withdrawal_checks d r"
  "withdrawal_checks (d\<lparr>token_registry := x11\<rparr>) r = withdrawal_checks d r"
  "withdrawal_checks (d\<lparr>unsupported_token_observations := x12\<rparr>) r = withdrawal_checks d r"
  "withdrawal_checks (d\<lparr>withdrawals := x13\<rparr>) r = withdrawal_checks d r"
  "withdrawal_checks (d\<lparr>withdrawal_approval_thresholds := x14\<rparr>) r = withdrawal_checks d r"
  "withdrawal_checks (d\<lparr>chain_nonce_state := x15\<rparr>) r = withdrawal_checks d r"
  "withdrawal_checks (d\<lparr>broadcast_attempts := x16\<rparr>) r = withdrawal_checks d r"
  by (simp_all add: withdrawal_checks_def)

lemma active_deposits_frame [simp]:
  "active_deposits (d\<lparr>customers := x1\<rparr>) = active_deposits d"
  "active_deposits (d\<lparr>accounts := x2\<rparr>) = active_deposits d"
  "active_deposits (d\<lparr>idempotency_keys := x3\<rparr>) = active_deposits d"
  "active_deposits (d\<lparr>journal_entries := x4\<rparr>) = active_deposits d"
  "active_deposits (d\<lparr>postings := x5\<rparr>) = active_deposits d"
  "active_deposits (d\<lparr>deposit_addresses := x6\<rparr>) = active_deposits d"
  "active_deposits (d\<lparr>watcher_cursors := x8\<rparr>) = active_deposits d"
  "active_deposits (d\<lparr>outbox_events := x9\<rparr>) = active_deposits d"
  "active_deposits (d\<lparr>crediting_policy := x10\<rparr>) = active_deposits d"
  "active_deposits (d\<lparr>token_registry := x11\<rparr>) = active_deposits d"
  "active_deposits (d\<lparr>unsupported_token_observations := x12\<rparr>) = active_deposits d"
  "active_deposits (d\<lparr>withdrawals := x13\<rparr>) = active_deposits d"
  "active_deposits (d\<lparr>withdrawal_approval_thresholds := x14\<rparr>) = active_deposits d"
  "active_deposits (d\<lparr>chain_nonce_state := x15\<rparr>) = active_deposits d"
  "active_deposits (d\<lparr>broadcast_attempts := x16\<rparr>) = active_deposits d"
  by (simp_all add: active_deposits_def)

lemma accounts_ok_frame [simp]:
  "accounts_ok (d\<lparr>idempotency_keys := x3\<rparr>) = accounts_ok d"
  "accounts_ok (d\<lparr>journal_entries := x4\<rparr>) = accounts_ok d"
  "accounts_ok (d\<lparr>postings := x5\<rparr>) = accounts_ok d"
  "accounts_ok (d\<lparr>deposits := x7\<rparr>) = accounts_ok d"
  "accounts_ok (d\<lparr>watcher_cursors := x8\<rparr>) = accounts_ok d"
  "accounts_ok (d\<lparr>outbox_events := x9\<rparr>) = accounts_ok d"
  "accounts_ok (d\<lparr>crediting_policy := x10\<rparr>) = accounts_ok d"
  "accounts_ok (d\<lparr>token_registry := x11\<rparr>) = accounts_ok d"
  "accounts_ok (d\<lparr>unsupported_token_observations := x12\<rparr>) = accounts_ok d"
  "accounts_ok (d\<lparr>withdrawals := x13\<rparr>) = accounts_ok d"
  "accounts_ok (d\<lparr>withdrawal_approval_thresholds := x14\<rparr>) = accounts_ok d"
  "accounts_ok (d\<lparr>chain_nonce_state := x15\<rparr>) = accounts_ok d"
  "accounts_ok (d\<lparr>broadcast_attempts := x16\<rparr>) = accounts_ok d"
  by (simp_all add: accounts_ok_def)

lemma journal_ok_frame [simp]:
  "journal_ok (d\<lparr>customers := x1\<rparr>) = journal_ok d"
  "journal_ok (d\<lparr>idempotency_keys := x3\<rparr>) = journal_ok d"
  "journal_ok (d\<lparr>deposit_addresses := x6\<rparr>) = journal_ok d"
  "journal_ok (d\<lparr>deposits := x7\<rparr>) = journal_ok d"
  "journal_ok (d\<lparr>watcher_cursors := x8\<rparr>) = journal_ok d"
  "journal_ok (d\<lparr>outbox_events := x9\<rparr>) = journal_ok d"
  "journal_ok (d\<lparr>crediting_policy := x10\<rparr>) = journal_ok d"
  "journal_ok (d\<lparr>token_registry := x11\<rparr>) = journal_ok d"
  "journal_ok (d\<lparr>unsupported_token_observations := x12\<rparr>) = journal_ok d"
  "journal_ok (d\<lparr>withdrawals := x13\<rparr>) = journal_ok d"
  "journal_ok (d\<lparr>withdrawal_approval_thresholds := x14\<rparr>) = journal_ok d"
  "journal_ok (d\<lparr>chain_nonce_state := x15\<rparr>) = journal_ok d"
  "journal_ok (d\<lparr>broadcast_attempts := x16\<rparr>) = journal_ok d"
  by (simp_all add: journal_ok_def)

lemma deposits_ok_frame [simp]:
  "deposits_ok (d\<lparr>customers := x1\<rparr>) = deposits_ok d"
  "deposits_ok (d\<lparr>accounts := x2\<rparr>) = deposits_ok d"
  "deposits_ok (d\<lparr>idempotency_keys := x3\<rparr>) = deposits_ok d"
  "deposits_ok (d\<lparr>journal_entries := x4\<rparr>) = deposits_ok d"
  "deposits_ok (d\<lparr>postings := x5\<rparr>) = deposits_ok d"
  "deposits_ok (d\<lparr>deposit_addresses := x6\<rparr>) = deposits_ok d"
  "deposits_ok (d\<lparr>watcher_cursors := x8\<rparr>) = deposits_ok d"
  "deposits_ok (d\<lparr>outbox_events := x9\<rparr>) = deposits_ok d"
  "deposits_ok (d\<lparr>crediting_policy := x10\<rparr>) = deposits_ok d"
  "deposits_ok (d\<lparr>token_registry := x11\<rparr>) = deposits_ok d"
  "deposits_ok (d\<lparr>unsupported_token_observations := x12\<rparr>) = deposits_ok d"
  "deposits_ok (d\<lparr>withdrawals := x13\<rparr>) = deposits_ok d"
  "deposits_ok (d\<lparr>withdrawal_approval_thresholds := x14\<rparr>) = deposits_ok d"
  "deposits_ok (d\<lparr>chain_nonce_state := x15\<rparr>) = deposits_ok d"
  "deposits_ok (d\<lparr>broadcast_attempts := x16\<rparr>) = deposits_ok d"
  by (simp_all add: deposits_ok_def)

lemma withdrawals_ok_frame [simp]:
  "withdrawals_ok (d\<lparr>accounts := x2\<rparr>) = withdrawals_ok d"
  "withdrawals_ok (d\<lparr>idempotency_keys := x3\<rparr>) = withdrawals_ok d"
  "withdrawals_ok (d\<lparr>postings := x5\<rparr>) = withdrawals_ok d"
  "withdrawals_ok (d\<lparr>deposit_addresses := x6\<rparr>) = withdrawals_ok d"
  "withdrawals_ok (d\<lparr>deposits := x7\<rparr>) = withdrawals_ok d"
  "withdrawals_ok (d\<lparr>watcher_cursors := x8\<rparr>) = withdrawals_ok d"
  "withdrawals_ok (d\<lparr>outbox_events := x9\<rparr>) = withdrawals_ok d"
  "withdrawals_ok (d\<lparr>crediting_policy := x10\<rparr>) = withdrawals_ok d"
  "withdrawals_ok (d\<lparr>token_registry := x11\<rparr>) = withdrawals_ok d"
  "withdrawals_ok (d\<lparr>unsupported_token_observations := x12\<rparr>) = withdrawals_ok d"
  "withdrawals_ok (d\<lparr>withdrawal_approval_thresholds := x14\<rparr>) = withdrawals_ok d"
  "withdrawals_ok (d\<lparr>chain_nonce_state := x15\<rparr>) = withdrawals_ok d"
  "withdrawals_ok (d\<lparr>broadcast_attempts := x16\<rparr>) = withdrawals_ok d"
  by (simp_all add: withdrawals_ok_def)

lemma attempts_ok_frame [simp]:
  "attempts_ok (d\<lparr>customers := x1\<rparr>) = attempts_ok d"
  "attempts_ok (d\<lparr>accounts := x2\<rparr>) = attempts_ok d"
  "attempts_ok (d\<lparr>idempotency_keys := x3\<rparr>) = attempts_ok d"
  "attempts_ok (d\<lparr>journal_entries := x4\<rparr>) = attempts_ok d"
  "attempts_ok (d\<lparr>postings := x5\<rparr>) = attempts_ok d"
  "attempts_ok (d\<lparr>deposit_addresses := x6\<rparr>) = attempts_ok d"
  "attempts_ok (d\<lparr>deposits := x7\<rparr>) = attempts_ok d"
  "attempts_ok (d\<lparr>watcher_cursors := x8\<rparr>) = attempts_ok d"
  "attempts_ok (d\<lparr>outbox_events := x9\<rparr>) = attempts_ok d"
  "attempts_ok (d\<lparr>crediting_policy := x10\<rparr>) = attempts_ok d"
  "attempts_ok (d\<lparr>token_registry := x11\<rparr>) = attempts_ok d"
  "attempts_ok (d\<lparr>unsupported_token_observations := x12\<rparr>) = attempts_ok d"
  "attempts_ok (d\<lparr>withdrawal_approval_thresholds := x14\<rparr>) = attempts_ok d"
  by (simp_all add: attempts_ok_def)

subsection \<open>Every statement keeps the constraints\<close>

lemma schema_insert_customer:
  "insert_customer r d = Inr (u, d') \<Longrightarrow> schema_ok d \<Longrightarrow> schema_ok d'"
  by (auto simp: insert_customer_def m_success schema_ok_def accounts_ok_def withdrawals_ok_def
      withdrawal_checks_def)

lemma schema_insert_account:
  "insert_account r d = Inr (u, d') \<Longrightarrow> schema_ok d \<Longrightarrow> schema_ok d'"
  by (auto simp: insert_account_def m_success schema_ok_def accounts_ok_def journal_ok_def)

lemma schema_insert_deposit_address:
  "insert_deposit_address r d = Inr (u, d') \<Longrightarrow> schema_ok d \<Longrightarrow> schema_ok d'"
  by (auto simp: insert_deposit_address_def m_success schema_ok_def accounts_ok_def)

lemma schema_insert_journal_entry:
  "insert_journal_entry r d = Inr (u, d') \<Longrightarrow> schema_ok d \<Longrightarrow> schema_ok d'"
  by (auto simp: insert_journal_entry_def m_success schema_ok_def journal_ok_def withdrawals_ok_def
      withdrawal_checks_def cause_def image_iff)

lemma schema_insert_posting:
  "insert_posting r d = Inr (u, d') \<Longrightarrow> schema_ok d \<Longrightarrow> schema_ok d'"
  by (auto simp: insert_posting_def m_success schema_ok_def journal_ok_def)

lemma schema_insert_outbox_event:
  "insert_outbox_event r d = Inr (u, d') \<Longrightarrow> schema_ok d \<Longrightarrow> schema_ok d'"
  by (auto simp: insert_outbox_event_def m_success schema_ok_def)

lemma schema_insert_withdrawal:
  "insert_withdrawal r d = Inr (u, d') \<Longrightarrow> schema_ok d \<Longrightarrow> schema_ok d'"
  by (auto simp: insert_withdrawal_def m_success schema_ok_def withdrawals_ok_def attempts_ok_def)

lemma schema_insert_broadcast_attempt:
  "insert_broadcast_attempt r d = Inr (u, d') \<Longrightarrow> schema_ok d \<Longrightarrow> schema_ok d'"
  by (auto simp: insert_broadcast_attempt_def m_success schema_ok_def attempts_ok_def)

lemma schema_insert_idempotency_key:
  "insert_idempotency_key k e d = Inr (u, d') \<Longrightarrow> schema_ok d \<Longrightarrow> schema_ok d'"
  by (auto simp: insert_idempotency_key_def m_success schema_ok_def)

lemma schema_insert_deposit:
  "insert_deposit_or_nothing r d = Inr (n, d') \<Longrightarrow> schema_ok d \<Longrightarrow> schema_ok d'"
  by (fastforce simp: insert_deposit_or_nothing_def schema_ok_def deposits_ok_def
      active_deposits_def split: if_splits)

lemma schema_insert_observation:
  "insert_observation_or_nothing r d = Inr (n, d') \<Longrightarrow> schema_ok d \<Longrightarrow> schema_ok d'"
  by (auto simp: insert_observation_or_nothing_def schema_ok_def split: if_splits)

lemma schema_update_withdrawals:
  assumes "update_withdrawals p f d = Inr (n, d')" "schema_ok d"
    and "\<And>r. p r \<Longrightarrow> w_id (f r) = w_id r"
    and "\<And>r. p r \<Longrightarrow> withdrawal_checks d (f r) = withdrawal_checks d r"
  shows "schema_ok d'"
  using assms by (auto simp: m_success schema_ok_def withdrawals_ok_def attempts_ok_def
      map_modify [where k = w_id] image_modify [where k = w_id] elim!: in_modifyE)

lemma schema_update_attempts:
  assumes "update_attempts p f d = Inr (n, d')" "schema_ok d"
    and "\<And>r. p r \<Longrightarrow> b_id (f r) = b_id r" "\<And>r. p r \<Longrightarrow> b_withdrawal_id (f r) = b_withdrawal_id r"
  shows "schema_ok d'"
  using assms by (auto simp: m_success schema_ok_def attempts_ok_def map_modify [where k = b_id]
      map_modify [where k = b_withdrawal_id] elim!: in_modifyE)

lemma schema_update_nonces:
  assumes "update_nonces p f d = Inr (n, d')" "schema_ok d"
    and "\<And>r. p r \<Longrightarrow> n_chain (f r) = n_chain r"
  shows "schema_ok d'"
  using assms by (auto simp: m_success schema_ok_def attempts_ok_def map_modify [where k = n_chain])

text \<open>A change of state must not bring an orphaned deposit back, for the partial unique index.\<close>

lemma active_deposits_update:
  assumes "\<And>r. p r \<Longrightarrow> deposit_key (f r) = deposit_key r"
    and "\<And>r. r \<in> set rs \<Longrightarrow> p r \<Longrightarrow> d_state r = DepositOrphaned \<Longrightarrow> d_state (f r) = DepositOrphaned"
    and "distinct (map deposit_key (filter (\<lambda>x. d_state x \<noteq> DepositOrphaned) rs))"
  shows "distinct (map deposit_key
    (filter (\<lambda>x. d_state x \<noteq> DepositOrphaned) (modify p f rs)))"
  using assms(2,3)
proof (induction rs)
  case (Cons r rs)
  have "deposit_key ` {x \<in> set (modify p f rs). d_state x \<noteq> DepositOrphaned}
      \<subseteq> deposit_key ` {x \<in> set rs. d_state x \<noteq> DepositOrphaned}"
    using Cons.prems(1) assms(1) by (fastforce simp: set_modify split: if_splits)
  moreover have "distinct (map deposit_key
      (filter (\<lambda>x. d_state x \<noteq> DepositOrphaned) (modify p f rs)))"
    using Cons by (auto split: if_splits)
  ultimately show ?case
    using Cons.prems assms(1) [of r] by (auto split: if_splits)
qed simp

lemma schema_update_deposits:
  assumes "update_deposits p f d = Inr (n, d')" "schema_ok d"
    and "\<And>r. p r \<Longrightarrow> d_id (f r) = d_id r \<and> deposit_key (f r) = deposit_key r \<and>
           deposit_checks (f r) = deposit_checks r"
    and "\<And>r. r \<in> set (deposits d) \<Longrightarrow> p r \<Longrightarrow> d_state r = DepositOrphaned \<Longrightarrow>
           d_state (f r) = DepositOrphaned"
  shows "schema_ok d'"
proof -
  have "distinct (map deposit_key (active_deposits d'))"
    using active_deposits_update [of p f "deposits d"] assms
    by (auto simp: m_success schema_ok_def deposits_ok_def active_deposits_def)
  then show ?thesis
    using assms by (auto simp: m_success schema_ok_def deposits_ok_def map_modify [where k = d_id]
        elim!: in_modifyE)
qed

lemma schema_seeded: "schema_ok (seeded seed_ids t)"
  by (simp add: schema_ok_def schema_defs active_deposits_def seeded_def seed_ids_def
      SupportedChainAssetPairs_def account_key_def)

end
