(* ===== verification/Ledger.thy ===== *)
theory Ledger
  imports Database
begin

text \<open>
  The double-entry ledger every money movement goes through.

  A balance is never stored: \<open>balance\<close> sums the postings of an account.  The four use cases that
  move money (\<^verbatim>\<open>transfer_repo.go\<close>, \<^verbatim>\<open>withdrawal_repo.go\<close> twice, \<^verbatim>\<open>deposit_repo.go\<close>) repeat one
  block: a fresh journal entry for the cause, then a debit and a credit posting in one batch;
  \<open>post_entry\<close> is that block.  \<open>emit\<close> is the paired outbox event.

  The locale \<open>ledger\<close> is the interface the use cases rely on: what one entry does to every balance.
  Its lemmas (conservation, no overdraft, exactness of a derived total) are proved once and
  interpreted on the tables.  The books of the platform are the invariant \<open>books\<close>: no customer
  overdraws, every hold account is the sum of the customer's open withdrawals, every treasury
  account the sum of the confirmed ones, every float account minus the sum of the credited deposits.
\<close>

subsection \<open>Balances and entries\<close>

definition balance :: "database \<Rightarrow> uuid \<Rightarrow> int" where
  "balance d a = sum_list (map p_amount (filter (\<lambda>p. p_account_id p = a) (postings d)))"

definition dup_as :: "error \<Rightarrow> error \<Rightarrow> error" where
  "dup_as e x = (if x = PgUniqueViolation then e else x)"

text \<open>The batch of two posting inserts, and the closing of the batch.\<close>

definition post_batch :: "posting_row \<Rightarrow> posting_row \<Rightarrow> unit db_m" where
  "post_batch debit credit =
     bindm (stmt (insert_posting debit)) (\<lambda>_.
     bindm (stmt (insert_posting credit)) (\<lambda>_.
     query (\<lambda>_. ())))"

definition post_entry ::
    "(error \<Rightarrow> error) \<Rightarrow> string \<Rightarrow> string \<Rightarrow> uuid \<Rightarrow> uuid \<Rightarrow> int \<Rightarrow> time \<Rightarrow> uuid db_m" where
  "post_entry dup cause_type cause_id debit credit amount now =
     bindm newUUIDv7 (\<lambda>je.
     bindm (map_error dup (stmt (insert_journal_entry
       \<lparr>j_id = je, j_cause_type = cause_type, j_cause_id = cause_id, j_created_at = now\<rparr>))) (\<lambda>_.
     bindm newUUIDv7 (\<lambda>p1.
     bindm newUUIDv7 (\<lambda>p2.
     bindm (post_batch
       \<lparr>p_id = p1, p_journal_entry_id = je, p_account_id = debit, p_amount = - amount,
        p_created_at = now\<rparr>
       \<lparr>p_id = p2, p_journal_entry_id = je, p_account_id = credit, p_amount = amount,
        p_created_at = now\<rparr>) (\<lambda>_.
     ret je)))))"

text \<open>The paired outbox event.\<close>

definition emit :: "string \<Rightarrow> payload \<Rightarrow> time \<Rightarrow> unit db_m" where
  "emit event_type pl now =
     bindm newUUIDv7 (\<lambda>eid.
     stmt (insert_outbox_event
       \<lparr>o_id = eid, o_event_type = event_type, o_payload = pl, o_created_at = now\<rparr>))"

subsection \<open>Finding the accounts of a movement\<close>

text \<open>\<^verbatim>\<open>SELECT id, ... FROM accounts WHERE ... ORDER BY id FOR UPDATE\<close>, and the Go map built by
  scanning the rows: a later row replaces an earlier one with the same key.\<close>

definition locked_accounts :: "(account_row \<Rightarrow> bool) \<Rightarrow> account_row list db_m" where
  "locked_accounts p = query (\<lambda>d. sort_key a_id (filter p (accounts d)))"

fun account_by :: "(account_row \<Rightarrow> 'k) \<Rightarrow> account_row list \<Rightarrow> 'k \<Rightarrow> uuid option" where
  "account_by k [] x = None"
| "account_by k (r # rs) x =
     (case account_by k rs x of Some i \<Rightarrow> Some i
      | None \<Rightarrow> if k r = x then Some (a_id r) else None)"

text \<open>The account of a customer (or of the platform) for a pair and a type.\<close>

definition account_of ::
    "database \<Rightarrow> uuid option \<Rightarrow> chain \<Rightarrow> asset \<Rightarrow> account_type \<Rightarrow> uuid option" where
  "account_of d c ch a ty =
     map_option a_id (select_first (\<lambda>r. account_key r = (c, ch, a, ty)) (accounts d))"

subsection \<open>The tables after an entry\<close>

definition posted ::
    "database \<Rightarrow> uuid \<Rightarrow> uuid \<Rightarrow> uuid \<Rightarrow> string \<Rightarrow> string \<Rightarrow> uuid \<Rightarrow> uuid \<Rightarrow> int \<Rightarrow> time \<Rightarrow> database" where
  "posted d je p1 p2 cause_type cause_id debit credit amount now =
     d\<lparr>journal_entries := journal_entries d @
         [\<lparr>j_id = je, j_cause_type = cause_type, j_cause_id = cause_id, j_created_at = now\<rparr>],
       postings := postings d @
         [\<lparr>p_id = p1, p_journal_entry_id = je, p_account_id = debit, p_amount = - amount,
           p_created_at = now\<rparr>,
          \<lparr>p_id = p2, p_journal_entry_id = je, p_account_id = credit, p_amount = amount,
           p_created_at = now\<rparr>]\<rparr>"

definition fresh_entry ::
    "database \<Rightarrow> uuid \<Rightarrow> uuid \<Rightarrow> uuid \<Rightarrow> string \<Rightarrow> string \<Rightarrow> uuid \<Rightarrow> uuid \<Rightarrow> int \<Rightarrow> bool" where
  "fresh_entry d je p1 p2 cause_type cause_id debit credit amount \<longleftrightarrow>
     je \<notin> j_id ` set (journal_entries d) \<and>
     (cause_type, cause_id) \<notin> cause ` set (journal_entries d) \<and>
     p1 \<noteq> p2 \<and> p1 \<notin> p_id ` set (postings d) \<and> p2 \<notin> p_id ` set (postings d) \<and>
     debit \<in> a_id ` set (accounts d) \<and> credit \<in> a_id ` set (accounts d) \<and> numeric78 amount"

text \<open>One entry of \<open>amount\<close> from \<open>debit\<close> to \<open>credit\<close> takes \<open>d\<close> to \<open>d'\<close>.\<close>

definition posts :: "database \<Rightarrow> uuid \<Rightarrow> uuid \<Rightarrow> int \<Rightarrow> database \<Rightarrow> bool" where
  "posts d debit credit amount d' \<longleftrightarrow>
     (\<exists>je p1 p2 ct cid now. d' = posted d je p1 p2 ct cid debit credit amount now \<and>
        fresh_entry d je p1 p2 ct cid debit credit amount)"

subsection \<open>Derived totals\<close>

definition open_status :: "withdrawal_status \<Rightarrow> bool" where
  "open_status s \<longleftrightarrow> s \<noteq> WithdrawalStatusConfirmed \<and> s \<noteq> WithdrawalStatusFailed"

definition total_of :: "('r \<Rightarrow> bool) \<Rightarrow> ('r \<Rightarrow> int) \<Rightarrow> 'r list \<Rightarrow> int" where
  "total_of p f rs = sum_list (map f (filter p rs))"

definition held :: "database \<Rightarrow> uuid \<Rightarrow> chain \<Rightarrow> asset \<Rightarrow> int" where
  "held d c ch a = total_of (\<lambda>w. w_customer_id w = c \<and> w_chain w = ch \<and> w_asset w = a \<and>
     open_status (w_status w)) w_amount (withdrawals d)"

definition settled :: "database \<Rightarrow> chain \<Rightarrow> asset \<Rightarrow> int" where
  "settled d ch a = total_of (\<lambda>w. w_chain w = ch \<and> w_asset w = a \<and>
     w_status w = WithdrawalStatusConfirmed) w_amount (withdrawals d)"

definition credited :: "database \<Rightarrow> chain \<Rightarrow> asset \<Rightarrow> int" where
  "credited d ch a = total_of (\<lambda>x. d_chain x = ch \<and> d_asset x = a \<and>
     d_state x = DepositCredited) d_amount (deposits d)"

definition account_matches :: "database \<Rightarrow> account_row \<Rightarrow> bool" where
  "account_matches d r =
     (case (a_customer_id r, a_type r) of
        (Some c, AccountTypeAvailable) \<Rightarrow> 0 \<le> balance d (a_id r)
      | (Some c, AccountTypeHold) \<Rightarrow> balance d (a_id r) = held d c (a_chain r) (a_asset r)
      | (Some c, AccountTypeTreasury) \<Rightarrow> False
      | (None, AccountTypeAvailable) \<Rightarrow> balance d (a_id r) = - credited d (a_chain r) (a_asset r)
      | (None, AccountTypeHold) \<Rightarrow> False
      | (None, AccountTypeTreasury) \<Rightarrow> balance d (a_id r) = settled d (a_chain r) (a_asset r))"

definition books :: "database \<Rightarrow> bool" where
  "books d \<longleftrightarrow> (\<forall>r\<in>set (accounts d). account_matches d r)"

text \<open>Every journal entry has exactly two postings, of opposite amounts.\<close>

definition entry_balanced :: "database \<Rightarrow> journal_entry_row \<Rightarrow> bool" where
  "entry_balanced d j =
     (case filter (\<lambda>p. p_journal_entry_id p = j_id j) (postings d) of
        [p, q] \<Rightarrow> p_amount p < 0 \<and> p_amount q = - p_amount p
      | _ \<Rightarrow> False)"

definition entries_balanced :: "database \<Rightarrow> bool" where
  "entries_balanced d \<longleftrightarrow> (\<forall>j\<in>set (journal_entries d). entry_balanced d j)"

definition pair_total :: "database \<Rightarrow> chain \<Rightarrow> asset \<Rightarrow> int" where
  "pair_total d ch a =
     total_of (\<lambda>r. a_chain r = ch \<and> a_asset r = a) (\<lambda>r. balance d (a_id r)) (accounts d)"

definition pairs_balanced :: "database \<Rightarrow> bool" where
  "pairs_balanced d \<longleftrightarrow> (\<forall>ch a. pair_total d ch a = 0)"

definition customer_total :: "database \<Rightarrow> chain \<Rightarrow> asset \<Rightarrow> int" where
  "customer_total d ch a =
     total_of (\<lambda>r. a_chain r = ch \<and> a_asset r = a \<and> a_customer_id r \<noteq> None)
       (\<lambda>r. balance d (a_id r)) (accounts d)"

definition ledger_ok :: "database \<Rightarrow> bool" where
  "ledger_ok d \<longleftrightarrow> schema_ok d \<and> books d \<and> entries_balanced d \<and> pairs_balanced d"

subsection \<open>The interface of the ledger\<close>

locale ledger =
  fixes bal :: "'s \<Rightarrow> 'acct \<Rightarrow> int"
    and entry :: "'s \<Rightarrow> 'acct \<Rightarrow> 'acct \<Rightarrow> int \<Rightarrow> 's \<Rightarrow> bool"
  assumes entry_bal:
    "entry s x y n s' \<Longrightarrow> bal s' z = bal s z - (if z = x then n else 0) + (if z = y then n else 0)"
begin

lemma other_accounts: "entry s x y n s' \<Longrightarrow> z \<noteq> x \<Longrightarrow> z \<noteq> y \<Longrightarrow> bal s' z = bal s z"
  by (simp add: entry_bal)

lemma debit_side: "entry s x y n s' \<Longrightarrow> x \<noteq> y \<Longrightarrow> bal s' x = bal s x - n"
  by (simp add: entry_bal)

lemma credit_side: "entry s x y n s' \<Longrightarrow> x \<noteq> y \<Longrightarrow> bal s' y = bal s y + n"
  by (simp add: entry_bal)

lemma conserved:
  assumes "entry s x y n s'" "finite A" "x \<in> A \<longleftrightarrow> y \<in> A"
  shows "(\<Sum>z\<in>A. bal s' z) = (\<Sum>z\<in>A. bal s z)"
proof -
  have "(\<Sum>z\<in>A. bal s' z) =
      (\<Sum>z\<in>A. bal s z) - (\<Sum>z\<in>A. if z = x then n else 0) + (\<Sum>z\<in>A. if z = y then n else 0)"
    using assms(1) by (simp add: entry_bal sum.distrib sum_subtractf)
  then show ?thesis
    using assms(2,3) by (auto simp: sum.delta)
qed

lemma no_overdraft:
  assumes "entry s x y n s'" "0 \<le> n" "n \<le> bal s x" "0 \<le> bal s z"
  shows "0 \<le> bal s' z"
  using assms by (auto simp: entry_bal)

lemma credit_only:
  assumes "entry s x y n s'" "0 \<le> n" "0 \<le> bal s z" "z \<noteq> x"
  shows "0 \<le> bal s' z"
  using assms by (auto simp: entry_bal)

end

subsection \<open>The tables implement the interface\<close>

lemma balance_posted:
  "balance (posted d je p1 p2 ct cid debit credit amount now) z =
     balance d z - (if z = debit then amount else 0) + (if z = credit then amount else 0)"
  by (simp add: balance_def posted_def)

interpretation entries: ledger balance posts
  by unfold_locales (auto simp: posts_def balance_posted)

subsection \<open>Which tables the books read\<close>

lemma balance_frame [simp]:
  "balance (d\<lparr>customers := x1\<rparr>) = balance d"
  "balance (d\<lparr>accounts := x2\<rparr>) = balance d"
  "balance (d\<lparr>idempotency_keys := x3\<rparr>) = balance d"
  "balance (d\<lparr>journal_entries := x4\<rparr>) = balance d"
  "balance (d\<lparr>deposit_addresses := x6\<rparr>) = balance d"
  "balance (d\<lparr>deposits := x7\<rparr>) = balance d"
  "balance (d\<lparr>watcher_cursors := x8\<rparr>) = balance d"
  "balance (d\<lparr>outbox_events := x9\<rparr>) = balance d"
  "balance (d\<lparr>crediting_policy := x10\<rparr>) = balance d"
  "balance (d\<lparr>token_registry := x11\<rparr>) = balance d"
  "balance (d\<lparr>unsupported_token_observations := x12\<rparr>) = balance d"
  "balance (d\<lparr>withdrawals := x13\<rparr>) = balance d"
  "balance (d\<lparr>withdrawal_approval_thresholds := x14\<rparr>) = balance d"
  "balance (d\<lparr>chain_nonce_state := x15\<rparr>) = balance d"
  "balance (d\<lparr>broadcast_attempts := x16\<rparr>) = balance d"
  by (simp_all add: fun_eq_iff balance_def)

lemma held_frame [simp]:
  "held (d\<lparr>customers := x1\<rparr>) = held d"
  "held (d\<lparr>accounts := x2\<rparr>) = held d"
  "held (d\<lparr>idempotency_keys := x3\<rparr>) = held d"
  "held (d\<lparr>journal_entries := x4\<rparr>) = held d"
  "held (d\<lparr>postings := x5\<rparr>) = held d"
  "held (d\<lparr>deposit_addresses := x6\<rparr>) = held d"
  "held (d\<lparr>deposits := x7\<rparr>) = held d"
  "held (d\<lparr>watcher_cursors := x8\<rparr>) = held d"
  "held (d\<lparr>outbox_events := x9\<rparr>) = held d"
  "held (d\<lparr>crediting_policy := x10\<rparr>) = held d"
  "held (d\<lparr>token_registry := x11\<rparr>) = held d"
  "held (d\<lparr>unsupported_token_observations := x12\<rparr>) = held d"
  "held (d\<lparr>withdrawal_approval_thresholds := x14\<rparr>) = held d"
  "held (d\<lparr>chain_nonce_state := x15\<rparr>) = held d"
  "held (d\<lparr>broadcast_attempts := x16\<rparr>) = held d"
  by (simp_all add: fun_eq_iff held_def)

lemma settled_frame [simp]:
  "settled (d\<lparr>customers := x1\<rparr>) = settled d"
  "settled (d\<lparr>accounts := x2\<rparr>) = settled d"
  "settled (d\<lparr>idempotency_keys := x3\<rparr>) = settled d"
  "settled (d\<lparr>journal_entries := x4\<rparr>) = settled d"
  "settled (d\<lparr>postings := x5\<rparr>) = settled d"
  "settled (d\<lparr>deposit_addresses := x6\<rparr>) = settled d"
  "settled (d\<lparr>deposits := x7\<rparr>) = settled d"
  "settled (d\<lparr>watcher_cursors := x8\<rparr>) = settled d"
  "settled (d\<lparr>outbox_events := x9\<rparr>) = settled d"
  "settled (d\<lparr>crediting_policy := x10\<rparr>) = settled d"
  "settled (d\<lparr>token_registry := x11\<rparr>) = settled d"
  "settled (d\<lparr>unsupported_token_observations := x12\<rparr>) = settled d"
  "settled (d\<lparr>withdrawal_approval_thresholds := x14\<rparr>) = settled d"
  "settled (d\<lparr>chain_nonce_state := x15\<rparr>) = settled d"
  "settled (d\<lparr>broadcast_attempts := x16\<rparr>) = settled d"
  by (simp_all add: fun_eq_iff settled_def)

lemma credited_frame [simp]:
  "credited (d\<lparr>customers := x1\<rparr>) = credited d"
  "credited (d\<lparr>accounts := x2\<rparr>) = credited d"
  "credited (d\<lparr>idempotency_keys := x3\<rparr>) = credited d"
  "credited (d\<lparr>journal_entries := x4\<rparr>) = credited d"
  "credited (d\<lparr>postings := x5\<rparr>) = credited d"
  "credited (d\<lparr>deposit_addresses := x6\<rparr>) = credited d"
  "credited (d\<lparr>watcher_cursors := x8\<rparr>) = credited d"
  "credited (d\<lparr>outbox_events := x9\<rparr>) = credited d"
  "credited (d\<lparr>crediting_policy := x10\<rparr>) = credited d"
  "credited (d\<lparr>token_registry := x11\<rparr>) = credited d"
  "credited (d\<lparr>unsupported_token_observations := x12\<rparr>) = credited d"
  "credited (d\<lparr>withdrawals := x13\<rparr>) = credited d"
  "credited (d\<lparr>withdrawal_approval_thresholds := x14\<rparr>) = credited d"
  "credited (d\<lparr>chain_nonce_state := x15\<rparr>) = credited d"
  "credited (d\<lparr>broadcast_attempts := x16\<rparr>) = credited d"
  by (simp_all add: fun_eq_iff credited_def)

lemma account_matches_frame [simp]:
  "account_matches (d\<lparr>customers := x1\<rparr>) = account_matches d"
  "account_matches (d\<lparr>accounts := x2\<rparr>) = account_matches d"
  "account_matches (d\<lparr>idempotency_keys := x3\<rparr>) = account_matches d"
  "account_matches (d\<lparr>journal_entries := x4\<rparr>) = account_matches d"
  "account_matches (d\<lparr>deposit_addresses := x6\<rparr>) = account_matches d"
  "account_matches (d\<lparr>watcher_cursors := x8\<rparr>) = account_matches d"
  "account_matches (d\<lparr>outbox_events := x9\<rparr>) = account_matches d"
  "account_matches (d\<lparr>crediting_policy := x10\<rparr>) = account_matches d"
  "account_matches (d\<lparr>token_registry := x11\<rparr>) = account_matches d"
  "account_matches (d\<lparr>unsupported_token_observations := x12\<rparr>) = account_matches d"
  "account_matches (d\<lparr>withdrawal_approval_thresholds := x14\<rparr>) = account_matches d"
  "account_matches (d\<lparr>chain_nonce_state := x15\<rparr>) = account_matches d"
  "account_matches (d\<lparr>broadcast_attempts := x16\<rparr>) = account_matches d"
  by (simp_all add: fun_eq_iff account_matches_def cong: option.case_cong account_type.case_cong)

lemma books_frame [simp]:
  "books (d\<lparr>customers := x1\<rparr>) = books d"
  "books (d\<lparr>idempotency_keys := x3\<rparr>) = books d"
  "books (d\<lparr>journal_entries := x4\<rparr>) = books d"
  "books (d\<lparr>deposit_addresses := x6\<rparr>) = books d"
  "books (d\<lparr>watcher_cursors := x8\<rparr>) = books d"
  "books (d\<lparr>outbox_events := x9\<rparr>) = books d"
  "books (d\<lparr>crediting_policy := x10\<rparr>) = books d"
  "books (d\<lparr>token_registry := x11\<rparr>) = books d"
  "books (d\<lparr>unsupported_token_observations := x12\<rparr>) = books d"
  "books (d\<lparr>withdrawal_approval_thresholds := x14\<rparr>) = books d"
  "books (d\<lparr>chain_nonce_state := x15\<rparr>) = books d"
  "books (d\<lparr>broadcast_attempts := x16\<rparr>) = books d"
  by (simp_all add: books_def)

lemma entry_balanced_frame [simp]:
  "entry_balanced (d\<lparr>customers := x1\<rparr>) = entry_balanced d"
  "entry_balanced (d\<lparr>accounts := x2\<rparr>) = entry_balanced d"
  "entry_balanced (d\<lparr>idempotency_keys := x3\<rparr>) = entry_balanced d"
  "entry_balanced (d\<lparr>journal_entries := x4\<rparr>) = entry_balanced d"
  "entry_balanced (d\<lparr>deposit_addresses := x6\<rparr>) = entry_balanced d"
  "entry_balanced (d\<lparr>deposits := x7\<rparr>) = entry_balanced d"
  "entry_balanced (d\<lparr>watcher_cursors := x8\<rparr>) = entry_balanced d"
  "entry_balanced (d\<lparr>outbox_events := x9\<rparr>) = entry_balanced d"
  "entry_balanced (d\<lparr>crediting_policy := x10\<rparr>) = entry_balanced d"
  "entry_balanced (d\<lparr>token_registry := x11\<rparr>) = entry_balanced d"
  "entry_balanced (d\<lparr>unsupported_token_observations := x12\<rparr>) = entry_balanced d"
  "entry_balanced (d\<lparr>withdrawals := x13\<rparr>) = entry_balanced d"
  "entry_balanced (d\<lparr>withdrawal_approval_thresholds := x14\<rparr>) = entry_balanced d"
  "entry_balanced (d\<lparr>chain_nonce_state := x15\<rparr>) = entry_balanced d"
  "entry_balanced (d\<lparr>broadcast_attempts := x16\<rparr>) = entry_balanced d"
  by (simp_all add: fun_eq_iff entry_balanced_def)

lemma entries_balanced_frame [simp]:
  "entries_balanced (d\<lparr>customers := x1\<rparr>) = entries_balanced d"
  "entries_balanced (d\<lparr>accounts := x2\<rparr>) = entries_balanced d"
  "entries_balanced (d\<lparr>idempotency_keys := x3\<rparr>) = entries_balanced d"
  "entries_balanced (d\<lparr>deposit_addresses := x6\<rparr>) = entries_balanced d"
  "entries_balanced (d\<lparr>deposits := x7\<rparr>) = entries_balanced d"
  "entries_balanced (d\<lparr>watcher_cursors := x8\<rparr>) = entries_balanced d"
  "entries_balanced (d\<lparr>outbox_events := x9\<rparr>) = entries_balanced d"
  "entries_balanced (d\<lparr>crediting_policy := x10\<rparr>) = entries_balanced d"
  "entries_balanced (d\<lparr>token_registry := x11\<rparr>) = entries_balanced d"
  "entries_balanced (d\<lparr>unsupported_token_observations := x12\<rparr>) = entries_balanced d"
  "entries_balanced (d\<lparr>withdrawals := x13\<rparr>) = entries_balanced d"
  "entries_balanced (d\<lparr>withdrawal_approval_thresholds := x14\<rparr>) = entries_balanced d"
  "entries_balanced (d\<lparr>chain_nonce_state := x15\<rparr>) = entries_balanced d"
  "entries_balanced (d\<lparr>broadcast_attempts := x16\<rparr>) = entries_balanced d"
  by (simp_all add: entries_balanced_def)

lemma pair_total_frame [simp]:
  "pair_total (d\<lparr>customers := x1\<rparr>) = pair_total d"
  "pair_total (d\<lparr>idempotency_keys := x3\<rparr>) = pair_total d"
  "pair_total (d\<lparr>journal_entries := x4\<rparr>) = pair_total d"
  "pair_total (d\<lparr>deposit_addresses := x6\<rparr>) = pair_total d"
  "pair_total (d\<lparr>deposits := x7\<rparr>) = pair_total d"
  "pair_total (d\<lparr>watcher_cursors := x8\<rparr>) = pair_total d"
  "pair_total (d\<lparr>outbox_events := x9\<rparr>) = pair_total d"
  "pair_total (d\<lparr>crediting_policy := x10\<rparr>) = pair_total d"
  "pair_total (d\<lparr>token_registry := x11\<rparr>) = pair_total d"
  "pair_total (d\<lparr>unsupported_token_observations := x12\<rparr>) = pair_total d"
  "pair_total (d\<lparr>withdrawals := x13\<rparr>) = pair_total d"
  "pair_total (d\<lparr>withdrawal_approval_thresholds := x14\<rparr>) = pair_total d"
  "pair_total (d\<lparr>chain_nonce_state := x15\<rparr>) = pair_total d"
  "pair_total (d\<lparr>broadcast_attempts := x16\<rparr>) = pair_total d"
  by (simp_all add: fun_eq_iff pair_total_def)

lemma pairs_balanced_frame [simp]:
  "pairs_balanced (d\<lparr>customers := x1\<rparr>) = pairs_balanced d"
  "pairs_balanced (d\<lparr>idempotency_keys := x3\<rparr>) = pairs_balanced d"
  "pairs_balanced (d\<lparr>journal_entries := x4\<rparr>) = pairs_balanced d"
  "pairs_balanced (d\<lparr>deposit_addresses := x6\<rparr>) = pairs_balanced d"
  "pairs_balanced (d\<lparr>deposits := x7\<rparr>) = pairs_balanced d"
  "pairs_balanced (d\<lparr>watcher_cursors := x8\<rparr>) = pairs_balanced d"
  "pairs_balanced (d\<lparr>outbox_events := x9\<rparr>) = pairs_balanced d"
  "pairs_balanced (d\<lparr>crediting_policy := x10\<rparr>) = pairs_balanced d"
  "pairs_balanced (d\<lparr>token_registry := x11\<rparr>) = pairs_balanced d"
  "pairs_balanced (d\<lparr>unsupported_token_observations := x12\<rparr>) = pairs_balanced d"
  "pairs_balanced (d\<lparr>withdrawals := x13\<rparr>) = pairs_balanced d"
  "pairs_balanced (d\<lparr>withdrawal_approval_thresholds := x14\<rparr>) = pairs_balanced d"
  "pairs_balanced (d\<lparr>chain_nonce_state := x15\<rparr>) = pairs_balanced d"
  "pairs_balanced (d\<lparr>broadcast_attempts := x16\<rparr>) = pairs_balanced d"
  by (simp_all add: pairs_balanced_def)

lemma customer_total_frame [simp]:
  "customer_total (d\<lparr>customers := x1\<rparr>) = customer_total d"
  "customer_total (d\<lparr>idempotency_keys := x3\<rparr>) = customer_total d"
  "customer_total (d\<lparr>journal_entries := x4\<rparr>) = customer_total d"
  "customer_total (d\<lparr>deposit_addresses := x6\<rparr>) = customer_total d"
  "customer_total (d\<lparr>deposits := x7\<rparr>) = customer_total d"
  "customer_total (d\<lparr>watcher_cursors := x8\<rparr>) = customer_total d"
  "customer_total (d\<lparr>outbox_events := x9\<rparr>) = customer_total d"
  "customer_total (d\<lparr>crediting_policy := x10\<rparr>) = customer_total d"
  "customer_total (d\<lparr>token_registry := x11\<rparr>) = customer_total d"
  "customer_total (d\<lparr>unsupported_token_observations := x12\<rparr>) = customer_total d"
  "customer_total (d\<lparr>withdrawals := x13\<rparr>) = customer_total d"
  "customer_total (d\<lparr>withdrawal_approval_thresholds := x14\<rparr>) = customer_total d"
  "customer_total (d\<lparr>chain_nonce_state := x15\<rparr>) = customer_total d"
  "customer_total (d\<lparr>broadcast_attempts := x16\<rparr>) = customer_total d"
  by (simp_all add: fun_eq_iff customer_total_def)

subsection \<open>Running the entry block\<close>

lemma quiet_post_batch [simp]: "quiet (post_batch p q)"
  by (simp add: post_batch_def)

lemma quiet_post_entry [simp]: "quiet (post_entry dup ct cid debit credit amount now)"
  by (simp add: post_entry_def)

lemma quiet_emit [simp]: "quiet (emit ty pl now)"
  by (simp add: emit_def)

lemma quiet_locked_accounts [simp]: "quiet (locked_accounts p)"
  by (simp add: locked_accounts_def)

lemma effect_locked_accounts [m_success]:
  "effect (locked_accounts p) t d rs d' \<longleftrightarrow> rs = sort_key a_id (filter p (accounts d)) \<and> d' = d"
  by (simp add: locked_accounts_def m_success)

lemma effect_post_batch:
  assumes "effect (post_batch p q) t d u d'"
  shows "d' = d\<lparr>postings := postings d @ [p, q]\<rparr>"
    "p_id p \<notin> p_id ` set (postings d)" "p_id q \<notin> p_id ` set (postings d)" "p_id p \<noteq> p_id q"
    "p_account_id p \<in> a_id ` set (accounts d)" "p_account_id q \<in> a_id ` set (accounts d)"
    "numeric78 (p_amount q)"
  using assms by (auto simp: post_batch_def m_success insert_posting_def elim!: effect_bindmE)

lemma effect_post_entryE:
  assumes "effect (post_entry dup ct cid debit credit amount now) t d je d'"
  obtains p1 p2 where "d' = posted d je p1 p2 ct cid debit credit amount now"
    "fresh_entry d je p1 p2 ct cid debit credit amount"
proof -
  from assms obtain p1 p2 where
    j: "insert_journal_entry \<lparr>j_id = je, j_cause_type = ct, j_cause_id = cid, j_created_at = now\<rparr> d =
      Inr ((), d\<lparr>journal_entries := journal_entries d @
        [\<lparr>j_id = je, j_cause_type = ct, j_cause_id = cid, j_created_at = now\<rparr>]\<rparr>)"
    and p: "effect (post_batch
       \<lparr>p_id = p1, p_journal_entry_id = je, p_account_id = debit, p_amount = - amount,
        p_created_at = now\<rparr>
       \<lparr>p_id = p2, p_journal_entry_id = je, p_account_id = credit, p_amount = amount,
        p_created_at = now\<rparr>) t (d\<lparr>journal_entries := journal_entries d @
        [\<lparr>j_id = je, j_cause_type = ct, j_cause_id = cid, j_created_at = now\<rparr>]\<rparr>) () d'"
    by (auto simp: post_entry_def m_success insert_journal_entry_def elim!: effect_bindmE)
  show thesis
  proof (rule that [of p1 p2])
    show "d' = posted d je p1 p2 ct cid debit credit amount now"
      using effect_post_batch(1) [OF p] by (simp add: posted_def)
    show "fresh_entry d je p1 p2 ct cid debit credit amount"
      using j effect_post_batch(2-) [OF p]
      by (simp add: insert_journal_entry_def constrained_Inr fresh_entry_def cause_def)
  qed
qed

lemma effect_emitE:
  assumes "effect (emit ty pl now) t d u d'"
  obtains i where "i \<notin> o_id ` set (outbox_events d)"
    "d' = d\<lparr>outbox_events := outbox_events d @
       [\<lparr>o_id = i, o_event_type = ty, o_payload = pl, o_created_at = now\<rparr>]\<rparr>"
  using assms by (auto simp: emit_def m_success insert_defs elim!: effect_bindmE)

lemma fresh_entry_cause:
  "fresh_entry d je p1 p2 ct cid debit credit amount \<Longrightarrow> (ct, cid) \<notin> cause ` set (journal_entries d)"
  by (simp add: fresh_entry_def)

lemma posts_posted:
  "fresh_entry d je p1 p2 ct cid debit credit amount \<Longrightarrow>
     posts d debit credit amount (posted d je p1 p2 ct cid debit credit amount now)"
  unfolding posts_def by blast

subsection \<open>Looking accounts up\<close>

lemma account_by_Some:
  "account_by k rs x = Some i \<Longrightarrow> \<exists>r\<in>set rs. k r = x \<and> a_id r = i"
  by (induction rs) (auto split: option.splits if_splits)

lemma account_by_None: "account_by k rs x = None \<longleftrightarrow> (\<forall>r\<in>set rs. k r \<noteq> x)"
  by (induction rs) (auto split: option.splits)

lemma accounts_same_id:
  "accounts_ok d \<Longrightarrow> r \<in> set (accounts d) \<Longrightarrow> s \<in> set (accounts d) \<Longrightarrow> a_id r = a_id s \<longleftrightarrow> r = s"
  by (auto simp: accounts_ok_def distinct_map dest: inj_onD)

lemma accounts_same_key:
  "accounts_ok d \<Longrightarrow> r \<in> set (accounts d) \<Longrightarrow> s \<in> set (accounts d) \<Longrightarrow>
     account_key r = account_key s \<longleftrightarrow> r = s"
  by (auto simp: accounts_ok_def distinct_map dest: inj_onD)

lemma account_of_Some:
  assumes "accounts_ok d"
  shows "account_of d c ch a ty = Some i \<longleftrightarrow>
     (\<exists>r\<in>set (accounts d). account_key r = (c, ch, a, ty) \<and> a_id r = i)"
proof
  assume "account_of d c ch a ty = Some i"
  then show "\<exists>r\<in>set (accounts d). account_key r = (c, ch, a, ty) \<and> a_id r = i"
    by (auto simp: account_of_def dest: select_first_Some)
next
  assume "\<exists>r\<in>set (accounts d). account_key r = (c, ch, a, ty) \<and> a_id r = i"
  then obtain r where r: "r \<in> set (accounts d)" "account_key r = (c, ch, a, ty)" "a_id r = i"
    by blast
  then obtain s where s: "select_first (\<lambda>r. account_key r = (c, ch, a, ty)) (accounts d) = Some s"
    by (cases "select_first (\<lambda>r. account_key r = (c, ch, a, ty)) (accounts d)")
      (auto simp: select_first_None)
  with r have "s = r"
    using accounts_same_key [OF assms, of s r] select_first_Some [OF s] by simp
  with s r show "account_of d c ch a ty = Some i"
    by (simp add: account_of_def)
qed

text \<open>A scan of the selected rows finds the account of the key, whatever the order of the scan.\<close>

lemma account_by_account_of:
  assumes "accounts_ok d"
    and "\<And>r. r \<in> set (accounts d) \<Longrightarrow> p r \<Longrightarrow> k r = x \<longleftrightarrow> account_key r = (c, ch, a, ty)"
    and "\<And>r. r \<in> set (accounts d) \<Longrightarrow> account_key r = (c, ch, a, ty) \<Longrightarrow> p r"
  shows "account_by k (sort_key a_id (filter p (accounts d))) x = account_of d c ch a ty"
proof (cases "account_by k (sort_key a_id (filter p (accounts d))) x")
  case None
  then have "account_of d c ch a ty \<noteq> Some i" for i
    using assms by (auto simp: account_by_None account_of_Some [OF assms(1)])
  with None show ?thesis by (cases "account_of d c ch a ty") auto
next
  case (Some i)
  then obtain r where "r \<in> set (accounts d)" "p r" "k r = x" "a_id r = i"
    using account_by_Some [of k _ x i] by fastforce
  with assms have "account_of d c ch a ty = Some i"
    by (auto simp: account_of_Some [OF assms(1)])
  with Some show ?thesis by simp
qed

subsection \<open>What an entry does to the invariants\<close>

lemma total_of_cong:
  "(\<And>r. r \<in> set rs \<Longrightarrow> p r = q r) \<Longrightarrow> (\<And>r. r \<in> set rs \<Longrightarrow> p r \<Longrightarrow> f r = g r) \<Longrightarrow>
     total_of p f rs = total_of q g rs"
  by (induction rs) (auto simp: total_of_def)

lemma total_of_append [simp]: "total_of p f (rs @ ss) = total_of p f rs + total_of p f ss"
  by (simp add: total_of_def)

lemma total_of_Nil [simp]: "total_of p f [] = 0"
  by (simp add: total_of_def)

lemma total_of_Cons [simp]: "total_of p f (r # rs) = (if p r then f r else 0) + total_of p f rs"
  by (simp add: total_of_def)

lemma total_of_0: "(\<And>r. r \<in> set rs \<Longrightarrow> \<not> p r) \<Longrightarrow> total_of p f rs = 0"
  by (induction rs) auto

lemma total_of_sum:
  "distinct (map k rs) \<Longrightarrow>
     total_of p (\<lambda>r. f (k r)) rs = (\<Sum>i\<in>k ` {r \<in> set rs. p r}. f i)"
proof (induction rs)
  case (Cons r rs)
  have "k ` {x \<in> set (r # rs). p x} = (if p r then insert (k r) (k ` {x \<in> set rs. p x})
      else k ` {x \<in> set rs. p x})"
    by auto
  moreover have "k r \<notin> k ` {x \<in> set rs. p x}"
    using Cons.prems by auto
  ultimately show ?case using Cons by simp
qed (simp add: total_of_def)

lemma total_of_modify_same:
  assumes "\<And>r. r \<in> set rs \<Longrightarrow> q r \<Longrightarrow> p (g r) = p r \<and> f (g r) = f r"
  shows "total_of p f (modify q g rs) = total_of p f rs"
  using assms by (induction rs) auto

text \<open>Rewriting the one row with a given key moves its amount out of one total into another.\<close>

lemma total_of_modify:
  assumes "distinct (map k rs)" "r \<in> set rs" "\<And>s. s \<in> set rs \<Longrightarrow> q s \<longleftrightarrow> k s = k r"
  shows "total_of p f (modify q g rs) =
    total_of p f rs - (if p r then f r else 0) + (if p (g r) then f (g r) else 0)"
  using assms
proof (induction rs)
  case (Cons x xs)
  show ?case
  proof (cases "x = r")
    case True
    then have "modify q g xs = xs"
      using Cons.prems by (intro modify_id) (auto simp: image_iff)
    then show ?thesis using True Cons.prems(3) [of x] by simp
  next
    case False
    then have "r \<in> set xs" "\<not> q x"
      using Cons.prems by (auto simp: image_iff)
    then show ?thesis using Cons by simp
  qed
qed simp

lemma schema_posted:
  assumes "schema_ok d" "fresh_entry d je p1 p2 ct cid debit credit amount"
  shows "schema_ok (posted d je p1 p2 ct cid debit credit amount now)"
  using assms by (auto simp: posted_def fresh_entry_def schema_ok_def journal_ok_def
      withdrawals_ok_def withdrawal_checks_def cause_def)

lemma entries_balanced_posted:
  assumes "journal_ok d" "entries_balanced d" "0 < amount"
    and "fresh_entry d je p1 p2 ct cid debit credit amount"
  shows "entries_balanced (posted d je p1 p2 ct cid debit credit amount now)"
proof -
  have "filter (\<lambda>p. p_journal_entry_id p = je) (postings d) = []"
    using assms(1,4) by (auto simp: filter_empty_conv journal_ok_def fresh_entry_def)
  moreover have "j_id j \<noteq> je" if "j \<in> set (journal_entries d)" for j
    using that assms(4) by (auto simp: fresh_entry_def)
  ultimately show ?thesis
    using assms(2,3) by (auto simp: entries_balanced_def entry_balanced_def posted_def)
qed

lemma pairs_balanced_posted:
  assumes "accounts_ok d" "pairs_balanced d"
    and "fresh_entry d je p1 p2 ct cid (a_id r) (a_id s) amount"
    and "r \<in> set (accounts d)" "s \<in> set (accounts d)" "a_chain r = a_chain s" "a_asset r = a_asset s"
  shows "pairs_balanced (posted d je p1 p2 ct cid (a_id r) (a_id s) amount now)"
proof -
  let ?d = "posted d je p1 p2 ct cid (a_id r) (a_id s) amount now"
  have "pair_total ?d ch a = pair_total d ch a" for ch a
  proof -
    let ?A = "a_id ` {x \<in> set (accounts d). a_chain x = ch \<and> a_asset x = a}"
    have "distinct (map a_id (accounts d))" "accounts ?d = accounts d"
      using assms(1) by (auto simp: accounts_ok_def posted_def)
    moreover have "a_id r \<in> ?A \<longleftrightarrow> a_id s \<in> ?A"
      using assms(4-7) accounts_same_id [OF assms(1)] by auto
    ultimately show ?thesis
      using entries.conserved [OF posts_posted [OF assms(3)], of ?A]
      by (simp add: pair_total_def total_of_sum)
  qed
  with assms(2) show ?thesis by (simp add: pairs_balanced_def)
qed

lemma posted_fields [simp]:
  "accounts (posted d je p1 p2 ct cid x y n t) = accounts d"
  "withdrawals (posted d je p1 p2 ct cid x y n t) = withdrawals d"
  "deposits (posted d je p1 p2 ct cid x y n t) = deposits d"
  "broadcast_attempts (posted d je p1 p2 ct cid x y n t) = broadcast_attempts d"
  "chain_nonce_state (posted d je p1 p2 ct cid x y n t) = chain_nonce_state d"
  "outbox_events (posted d je p1 p2 ct cid x y n t) = outbox_events d"
  "customers (posted d je p1 p2 ct cid x y n t) = customers d"
  "deposit_addresses (posted d je p1 p2 ct cid x y n t) = deposit_addresses d"
  "held (posted d je p1 p2 ct cid x y n t) = held d"
  "settled (posted d je p1 p2 ct cid x y n t) = settled d"
  "credited (posted d je p1 p2 ct cid x y n t) = credited d"
  by (simp_all add: posted_def)

lemma account_matches_posted_other:
  "a_id x \<noteq> debit \<Longrightarrow> a_id x \<noteq> credit \<Longrightarrow>
     account_matches (posted d je p1 p2 ct cid debit credit amount now) x = account_matches d x"
  by (simp add: account_matches_def balance_posted split: option.split account_type.split)

text \<open>An entry between two accounts of one pair keeps the books when it keeps the two accounts it
  touches.\<close>

lemma ledger_posted:
  assumes "ledger_ok d" "fresh_entry d je p1 p2 ct cid (a_id r) (a_id s) amount" "0 < amount"
    and "r \<in> set (accounts d)" "s \<in> set (accounts d)" "a_chain r = a_chain s" "a_asset r = a_asset s"
    and "account_matches (posted d je p1 p2 ct cid (a_id r) (a_id s) amount now) r"
    and "account_matches (posted d je p1 p2 ct cid (a_id r) (a_id s) amount now) s"
  shows "ledger_ok (posted d je p1 p2 ct cid (a_id r) (a_id s) amount now)"
proof -
  let ?d = "posted d je p1 p2 ct cid (a_id r) (a_id s) amount now"
  have ok: "schema_ok d" "books d" "accounts_ok d" "journal_ok d"
    using assms(1) by (auto simp: ledger_ok_def schema_ok_def)
  have "account_matches ?d x" if "x \<in> set (accounts d)" for x
  proof (cases "x = r \<or> x = s")
    case False
    then show ?thesis
      using that ok assms(4,5) accounts_same_id [OF ok(3) that]
      by (simp add: account_matches_posted_other books_def)
  qed (use assms in auto)
  then have "books ?d"
    by (simp add: books_def)
  then show ?thesis
    using assms ok schema_posted [OF ok(1) assms(2)] entries_balanced_posted [OF ok(4) _ assms(3,2)]
      pairs_balanced_posted [OF ok(3) _ assms(2,4-7)]
    by (auto simp: ledger_ok_def)
qed

text \<open>The three parts of the ledger invariant that an entry alone decides.\<close>

lemma entry_invariants:
  assumes "ledger_ok d" "fresh_entry d je p1 p2 ct cid (a_id r) (a_id s) amount" "0 < amount"
    and "r \<in> set (accounts d)" "s \<in> set (accounts d)" "a_chain r = a_chain s" "a_asset r = a_asset s"
  shows "schema_ok (posted d je p1 p2 ct cid (a_id r) (a_id s) amount now)"
    "entries_balanced (posted d je p1 p2 ct cid (a_id r) (a_id s) amount now)"
    "pairs_balanced (posted d je p1 p2 ct cid (a_id r) (a_id s) amount now)"
  using assms schema_posted entries_balanced_posted pairs_balanced_posted
  by (auto simp: ledger_ok_def schema_ok_def)

lemma ledger_emit:
  assumes "effect (emit ty pl now) t d u d'" "ledger_ok d"
  shows "ledger_ok d'"
  using assms by (auto simp: ledger_ok_def schema_ok_def elim!: effect_emitE)

lemma available_nonneg:
  assumes "books d" "r \<in> set (accounts d)" "account_key r = (Some c, ch, a, AccountTypeAvailable)"
  shows "0 \<le> balance d (a_id r)"
  using assms by (auto simp: books_def account_matches_def account_key_def dest!: bspec)

text \<open>The platform's own identity: what customers own, available or held, is what was credited
  minus what was paid out.\<close>

lemma total_of_split:
  "total_of p f rs = total_of (\<lambda>r. p r \<and> q r) f rs + total_of (\<lambda>r. p r \<and> \<not> q r) f rs"
  by (induction rs) auto

lemma total_of_unique:
  assumes "distinct (map k rs)" "r \<in> set rs" "\<And>s. s \<in> set rs \<Longrightarrow> p s \<longleftrightarrow> k s = k r"
  shows "total_of p f rs = f r"
  using assms
proof (induction rs)
  case (Cons x xs)
  show ?case
  proof (cases "x = r")
    case True
    then have "total_of p f xs = 0"
      using Cons.prems by (intro total_of_0) (auto simp: image_iff)
    then show ?thesis using True Cons.prems(3) [of x] by simp
  next
    case False
    then have "r \<in> set xs" "\<not> p x"
      using Cons.prems by (auto simp: image_iff)
    then show ?thesis using Cons by simp
  qed
qed simp

text \<open>Only the pairs some account has need a look.\<close>

lemma pairs_balanced_code [code]:
  "pairs_balanced d \<longleftrightarrow> (\<forall>r\<in>set (accounts d). pair_total d (a_chain r) (a_asset r) = 0)"
proof
  assume *: "\<forall>r\<in>set (accounts d). pair_total d (a_chain r) (a_asset r) = 0"
  have "pair_total d ch a = 0" for ch a
  proof (cases "\<exists>r\<in>set (accounts d). a_chain r = ch \<and> a_asset r = a")
    case False
    then show ?thesis
      unfolding pair_total_def by (intro total_of_0) blast
  qed (use * in auto)
  then show "pairs_balanced d"
    by (simp add: pairs_balanced_def)
qed (simp add: pairs_balanced_def)

end
