(* ===== verification/Samples.thy ===== *)
theory Samples
  imports Ledger
begin

text \<open>
  Concrete databases the witnesses of the properties run on: two customers on the seeded platform,
  the first with one credited deposit of 1000 units of ETH on Base.
\<close>

definition alice :: uuid where "alice = ''alice''"
definition bob :: uuid where "bob = ''bob''"

definition alice_address :: address where
  "alice_address = ''0x'' @ replicate 40 (CHR ''a'')"

definition bob_address :: address where
  "bob_address = ''0x'' @ replicate 40 (CHR ''b'')"

definition sample_accounts :: "string \<Rightarrow> uuid \<Rightarrow> account_row list" where
  "sample_accounts tag c =
     concat (map (\<lambda>(ch, a).
       [\<lparr>a_id = tag @ ''-av-'' @ ch @ a, a_customer_id = Some c, a_chain = ch, a_asset = a,
         a_type = AccountTypeAvailable, a_created_at = 1\<rparr>,
        \<lparr>a_id = tag @ ''-ho-'' @ ch @ a, a_customer_id = Some c, a_chain = ch, a_asset = a,
         a_type = AccountTypeHold, a_created_at = 1\<rparr>]) SupportedChainAssetPairs)"

definition sample_deposit :: deposit_row where
  "sample_deposit =
     \<lparr>d_id = ''dep1'', d_chain = ChainBase, d_asset = AssetETH, d_address = alice_address,
      d_tx_hash = ''0x01'', d_log_index = -1, d_amount = 1000, d_block_number = 7,
      d_block_hash = None, d_state = DepositCredited, d_observed_at = 2, d_updated_at = 3\<rparr>"

definition sample_customers :: database where
  "sample_customers =
     (seeded seed_ids 0)\<lparr>
       customers := [\<lparr>c_id = alice, c_created_at = 1\<rparr>, \<lparr>c_id = bob, c_created_at = 1\<rparr>],
       accounts := accounts (seeded seed_ids 0) @ sample_accounts ''A'' alice @ sample_accounts ''B'' bob,
       deposit_addresses :=
         [\<lparr>da_customer_id = alice, da_address = alice_address, da_created_at = 1\<rparr>,
          \<lparr>da_customer_id = bob, da_address = bob_address, da_created_at = 1\<rparr>]\<rparr>"

definition sample :: database where
  "sample =
     (posted sample_customers ''je1'' ''p1'' ''p2'' ''deposit_credit'' ''dep1'' ''f1'' ''A-av-baseeth''
        1000 3)\<lparr>deposits := [sample_deposit]\<rparr>"

definition sample_world :: "database \<Rightarrow> database world" where
  "sample_world d =
     \<lparr>db = d, uuids = [''u1'', ''u2'', ''u3'', ''u4'', ''u5'', ''u6'', ''u7'', ''u8'', ''u9'', ''u10'',
        ''u11'', ''u12''], clock = 10, outcomes = [], wire = []\<rparr>"

lemma schema_sample: "schema_ok sample"
  by code_simp

lemma ledger_sample: "ledger_ok sample"
  by code_simp

end
