(* ===== verification/Withdrawals.thy ===== *)
theory Withdrawals
  imports Samples
begin

text \<open>
  Withdrawals up to and after the chain: \<^verbatim>\<open>core/create_withdrawal.go\<close>,
  \<^verbatim>\<open>core/approve_withdrawal.go\<close>, \<^verbatim>\<open>core/estimate_fee.go\<close> and the methods \<^verbatim>\<open>CreateWithdrawal\<close>,
  \<^verbatim>\<open>ApproveWithdrawal\<close> and \<^verbatim>\<open>settleWithdrawal\<close> of \<^verbatim>\<open>postgres/withdrawal_repo.go\<close>, with the threshold
  lookup of \<^verbatim>\<open>postgres/withdrawal_threshold_lister.go\<close>.  The port \<^verbatim>\<open>FeeEstimator\<close> is the
  parameter \<open>estimate\<close>.
\<close>

subsection \<open>Vocabulary of the repository\<close>

definition withdrawalHoldCauseType :: string where
  "withdrawalHoldCauseType = ''withdrawal_hold''"
definition approvalRequiredEventType :: string where
  "approvalRequiredEventType = ''approval.required''"
definition withdrawalApprovedEventType :: string where
  "withdrawalApprovedEventType = ''withdrawal.approved''"
definition withdrawalSettlementCauseType :: string where
  "withdrawalSettlementCauseType = ''withdrawal_settlement''"
definition withdrawalFailureCauseType :: string where
  "withdrawalFailureCauseType = ''withdrawal_failure''"
definition withdrawalConfirmedEventType :: string where
  "withdrawalConfirmedEventType = ''withdrawal.confirmed''"
definition withdrawalFailedEventType :: string where
  "withdrawalFailedEventType = ''withdrawal.failed''"

text \<open>\<^verbatim>\<open>omitempty\<close> drops the two approval fields when they are empty.\<close>

definition omit_empty :: "string \<Rightarrow> string \<Rightarrow> payload" where
  "omit_empty k v = (if v = [] then [] else [(k, JString v)])"

definition withdrawalRoutedPayload ::
    "uuid \<Rightarrow> uuid \<Rightarrow> chain \<Rightarrow> asset \<Rightarrow> int \<Rightarrow> address \<Rightarrow> string \<Rightarrow> string \<Rightarrow> payload" where
  "withdrawalRoutedPayload i cust ch a amount dest approvedBy approvalReason =
     [(''withdrawalId'', JString i), (''customerId'', JString cust), (''chain'', JString ch),
      (''asset'', JString a), (''amount'', JMoney amount), (''destinationAddress'', JString dest)]
     @ omit_empty ''approvedBy'' approvedBy @ omit_empty ''approvalReason'' approvalReason"

definition withdrawalSettledPayload ::
    "uuid \<Rightarrow> uuid \<Rightarrow> uuid \<Rightarrow> chain \<Rightarrow> asset \<Rightarrow> int \<Rightarrow> payload" where
  "withdrawalSettledPayload i je cust ch a amount =
     [(''withdrawalId'', JString i), (''journalEntryId'', JString je), (''customerId'', JString cust),
      (''chain'', JString ch), (''asset'', JString a), (''amount'', JMoney amount)]"

subsection \<open>CreateWithdrawal\<close>

definition withdrawal_accounts :: "withdrawal_request \<Rightarrow> account_row \<Rightarrow> bool" where
  "withdrawal_accounts req r \<longleftrightarrow>
     a_customer_id r = Some (wr_customer_id req) \<and> a_chain r = wr_chain req \<and>
     a_asset r = wr_asset req \<and> (a_type r = AccountTypeAvailable \<or> a_type r = AccountTypeHold)"

definition lock_withdrawal_accounts :: "withdrawal_request \<Rightarrow> (uuid \<times> uuid) db_m" where
  "lock_withdrawal_accounts req =
     bindm (locked_accounts (withdrawal_accounts req)) (\<lambda>rows.
     if length rows \<noteq> length (remdups (map a_type rows))
     then raise (ErrText ''expected at most one account per account_type'') else
     (case account_by a_type rows AccountTypeAvailable of
        None \<Rightarrow> raise ErrCustomerNotFound
      | Some availableAccountID \<Rightarrow>
     (case account_by a_type rows AccountTypeHold of
        None \<Rightarrow> raise ErrCustomerNotFound
      | Some holdAccountID \<Rightarrow> ret (availableAccountID, holdAccountID))))"

definition check_withdrawal_balance :: "uuid \<Rightarrow> int \<Rightarrow> int \<Rightarrow> unit db_m" where
  "check_withdrawal_balance availableAccountID amount feeEstimate =
     bindm (query (\<lambda>d. balance d availableAccountID)) (\<lambda>bal.
     if bal < amount then raise ErrInsufficientBalance else
     let postHoldAvailable = bal - amount in
     if postHoldAvailable < feeEstimate then raise ErrInsufficientBalanceForFee else ret ())"

definition new_withdrawal_row ::
    "uuid \<Rightarrow> withdrawal_request \<Rightarrow> int \<Rightarrow> withdrawal_status \<Rightarrow> uuid \<Rightarrow> time \<Rightarrow> withdrawal_row" where
  "new_withdrawal_row i req amount targetStatus je now =
     \<lparr>w_id = i, w_customer_id = wr_customer_id req, w_chain = wr_chain req, w_asset = wr_asset req,
      w_amount = amount, w_destination_address = wr_destination_address req,
      w_status = targetStatus, w_hold_journal_entry_id = je, w_created_at = now,
      w_updated_at = now, w_approved_at = None, w_approved_by = None, w_approval_reason = None,
      w_tx_hash = None, w_nonce = None, w_stuck_alerted_at = None\<rparr>"

definition routed_event_type :: "withdrawal_status \<Rightarrow> string db_m" where
  "routed_event_type targetStatus =
     (case targetStatus of
        WithdrawalStatusAwaitingApproval \<Rightarrow> ret approvalRequiredEventType
      | WithdrawalStatusApproved \<Rightarrow> ret withdrawalApprovedEventType
      | _ \<Rightarrow> raise (ErrText ''unrecognized withdrawal target status''))"

definition empty_withdrawal :: withdrawal where
  "empty_withdrawal =
     \<lparr>wi_id = [], wi_customer_id = [], wi_chain = [], wi_asset = [], wi_amount = 0,
      wi_destination_address = [], wi_status = WithdrawalStatusCreated, wi_created_at = 0,
      wi_approved_at = None, wi_approved_by = [], wi_approval_reason = [], wi_tx_hash = [],
      wi_nonce = None, wi_signed_tx = [], wi_stuck_alerted_at = None\<rparr>"

definition record_withdrawal ::
    "withdrawal_request \<Rightarrow> int \<Rightarrow> withdrawal_status \<Rightarrow> uuid \<Rightarrow> time \<Rightarrow> withdrawal db_m" where
  "record_withdrawal req amount targetStatus je now =
     bindm newUUIDv7 (\<lambda>withdrawalID.
     bindm (stmt (insert_withdrawal (new_withdrawal_row withdrawalID req amount targetStatus je now))) (\<lambda>_.
     bindm (routed_event_type targetStatus) (\<lambda>eventType.
     bindm (emit eventType
       (withdrawalRoutedPayload withdrawalID (wr_customer_id req) (wr_chain req) (wr_asset req) amount
          (wr_destination_address req) [] []) now) (\<lambda>_.
     ret (empty_withdrawal\<lparr>wi_id := withdrawalID, wi_customer_id := wr_customer_id req,
       wi_chain := wr_chain req, wi_asset := wr_asset req, wi_amount := amount,
       wi_destination_address := wr_destination_address req, wi_status := targetStatus,
       wi_created_at := now\<rparr>)))))"

definition CreateWithdrawal ::
    "withdrawal_request \<Rightarrow> int \<Rightarrow> withdrawal_status \<Rightarrow> withdrawal db_m" where
  "CreateWithdrawal req feeEstimate targetStatus =
     bindm (lock_withdrawal_accounts req) (\<lambda>(availableAccountID, holdAccountID).
     bindm (deref (wr_amount req)) (\<lambda>amount.
     bindm (check_withdrawal_balance availableAccountID amount feeEstimate) (\<lambda>_.
     bindm time_now (\<lambda>now.
     bindm (post_entry (dup_as ErrDuplicateWithdrawalCause) withdrawalHoldCauseType
              (wr_idempotency_key req) availableAccountID holdAccountID amount now) (\<lambda>je.
     record_withdrawal req amount targetStatus je now)))))"

text \<open>\<^verbatim>\<open>WithdrawalThresholdLister.GetApprovalThreshold\<close>.\<close>

definition GetApprovalThreshold :: "chain \<Rightarrow> asset \<Rightarrow> int db_m" where
  "GetApprovalThreshold ch a =
     bindm (query (\<lambda>d. select_first (\<lambda>r. th_chain r = ch \<and> th_asset r = a)
       (withdrawal_approval_thresholds d))) (\<lambda>row.
     (case row of None \<Rightarrow> raise ErrNoWithdrawalApprovalThreshold | Some r \<Rightarrow> ret (th_amount r)))"

definition threshold_of :: "database \<Rightarrow> chain \<Rightarrow> asset \<Rightarrow> int option" where
  "threshold_of d ch a =
     map_option th_amount (select_first (\<lambda>r. th_chain r = ch \<and> th_asset r = a)
       (withdrawal_approval_thresholds d))"

type_synonym fee_estimator = "chain \<Rightarrow> asset \<Rightarrow> int \<Rightarrow> error + fee_estimate"

definition EstimateFee_Execute :: "fee_estimator \<Rightarrow> chain \<Rightarrow> asset \<Rightarrow> int option \<Rightarrow> error + fee_estimate" where
  "EstimateFee_Execute estimate ch a amount =
     (case amount of
        None \<Rightarrow> Inl ErrNonPositiveAmount
      | Some x \<Rightarrow>
          if x \<le> 0 then Inl ErrNonPositiveAmount
          else if 256 < bit_len x then Inl ErrAmountTooLarge
          else estimate ch a x)"

text \<open>The checks of the request that precede every port call, in order.\<close>

definition validate_withdrawal :: "withdrawal_request \<Rightarrow> error + int" where
  "validate_withdrawal req =
     (case wr_amount req of
        None \<Rightarrow> Inl ErrNonPositiveAmount
      | Some x \<Rightarrow>
          if x \<le> 0 then Inl ErrNonPositiveAmount
          else if 256 < bit_len x then Inl ErrAmountTooLarge
          else if \<not> destinationAddressPattern (wr_destination_address req)
          then Inl ErrMalformedDestinationAddress
          else if equal_fold (wr_destination_address req) zeroDestinationAddress
          then Inl ErrInvalidDestinationAddress
          else Inr x)"

definition CreateWithdrawal_Execute :: "fee_estimator \<Rightarrow> withdrawal_request \<Rightarrow> withdrawal db_m" where
  "CreateWithdrawal_Execute estimate req =
     bindm (lift_result (validate_withdrawal req)) (\<lambda>amount.
     bindm (lift_result (estimate (wr_chain req) (wr_asset req) amount)) (\<lambda>fe.
     (case fe_total fe of
        None \<Rightarrow> raise (ErrText ''fee estimator returned no TotalFee'')
      | Some totalFee \<Rightarrow>
     bindm (GetApprovalThreshold (wr_chain req) (wr_asset req)) (\<lambda>threshold.
     let targetStatus = (if amount \<le> threshold then WithdrawalStatusApproved
                         else WithdrawalStatusAwaitingApproval) in
     CreateWithdrawal req totalFee targetStatus))))"

subsection \<open>ApproveWithdrawal\<close>

definition lock_withdrawal :: "uuid \<Rightarrow> withdrawal_row db_m" where
  "lock_withdrawal i =
     bindm (query (\<lambda>d. select_first (\<lambda>r. w_id r = i) (withdrawals d))) (\<lambda>row.
     (case row of None \<Rightarrow> raise ErrWithdrawalNotFound | Some r \<Rightarrow> ret r))"

text \<open>\<^verbatim>\<open>UPDATE withdrawals SET ... WHERE id = $i AND status = $s\<close>, and the check that a row
  was affected.\<close>

definition transition ::
    "uuid \<Rightarrow> withdrawal_status \<Rightarrow> (withdrawal_row \<Rightarrow> withdrawal_row) \<Rightarrow> error \<Rightarrow> unit db_m" where
  "transition i from f e =
     bindm (stmt (update_withdrawals (\<lambda>r. w_id r = i \<and> w_status r = from) f)) (\<lambda>n.
     guardm (n \<noteq> 0) e)"

definition ApproveWithdrawal :: "uuid \<Rightarrow> string \<Rightarrow> string \<Rightarrow> withdrawal db_m" where
  "ApproveWithdrawal i actor reason =
     bindm (lock_withdrawal i) (\<lambda>r.
     if w_status r \<noteq> WithdrawalStatusAwaitingApproval then raise ErrWithdrawalNotAwaitingApproval else
     bindm time_now (\<lambda>now.
     bindm (transition i WithdrawalStatusAwaitingApproval
       (\<lambda>x. x\<lparr>w_status := WithdrawalStatusApproved, w_approved_at := Some now,
              w_approved_by := Some actor, w_approval_reason := Some reason, w_updated_at := now\<rparr>)
       ErrWithdrawalNotAwaitingApproval) (\<lambda>_.
     bindm (emit withdrawalApprovedEventType
       (withdrawalRoutedPayload i (w_customer_id r) (w_chain r) (w_asset r) (w_amount r)
          (w_destination_address r) actor reason) now) (\<lambda>_.
     ret (empty_withdrawal\<lparr>wi_id := i, wi_customer_id := w_customer_id r, wi_chain := w_chain r,
       wi_asset := w_asset r, wi_amount := w_amount r,
       wi_destination_address := w_destination_address r, wi_status := WithdrawalStatusApproved,
       wi_created_at := w_created_at r, wi_approved_at := Some now, wi_approved_by := actor,
       wi_approval_reason := reason\<rparr>)))))"

definition ApproveWithdrawal_Execute :: "uuid \<Rightarrow> string \<Rightarrow> string \<Rightarrow> withdrawal db_m" where
  "ApproveWithdrawal_Execute i actor0 reason0 =
     (let actor = trim_space actor0; reason = trim_space reason0 in
      if actor = [] then raise ErrMissingApprovalActor
      else if reason = [] then raise ErrMissingApprovalReason
      else ApproveWithdrawal i actor reason)"

subsection \<open>settleWithdrawal\<close>

definition settlement_accounts ::
    "withdrawal_row \<Rightarrow> account_type \<Rightarrow> bool \<Rightarrow> account_row \<Rightarrow> bool" where
  "settlement_accounts x counterpartAccountType counterpartIsPlatform r \<longleftrightarrow>
     a_chain r = w_chain x \<and> a_asset r = w_asset x \<and>
     (if counterpartIsPlatform
      then (a_customer_id r = Some (w_customer_id x) \<and> a_type r = AccountTypeHold) \<or>
           (a_customer_id r = None \<and> a_type r = counterpartAccountType)
      else a_customer_id r = Some (w_customer_id x) \<and>
           (a_type r = AccountTypeHold \<or> a_type r = counterpartAccountType))"

definition lock_settlement_accounts ::
    "withdrawal_row \<Rightarrow> account_type \<Rightarrow> bool \<Rightarrow> (uuid \<times> uuid) db_m" where
  "lock_settlement_accounts x counterpartAccountType counterpartIsPlatform =
     bindm (locked_accounts (settlement_accounts x counterpartAccountType counterpartIsPlatform)) (\<lambda>rows.
     (case account_by a_type rows AccountTypeHold of
        None \<Rightarrow> raise ErrNoHoldAccount
      | Some holdAccountID \<Rightarrow>
     (case account_by a_type rows counterpartAccountType of
        None \<Rightarrow> raise (if counterpartIsPlatform then ErrNoTreasuryAccount else ErrNoAvailableAccount)
      | Some counterpartAccountID \<Rightarrow> ret (holdAccountID, counterpartAccountID))))"

definition settleWithdrawal ::
    "uuid \<Rightarrow> withdrawal_status \<Rightarrow> string \<Rightarrow> string \<Rightarrow> account_type \<Rightarrow> bool \<Rightarrow> unit db_m" where
  "settleWithdrawal i targetStatus causeType eventType counterpartAccountType counterpartIsPlatform =
     bindm (lock_withdrawal i) (\<lambda>x.
     if w_status x \<noteq> WithdrawalStatusBroadcast then raise ErrWithdrawalNotBroadcast else
     bindm (lock_settlement_accounts x counterpartAccountType counterpartIsPlatform) (\<lambda>(hold, counterpart).
     bindm time_now (\<lambda>now.
     bindm (post_entry (dup_as (ErrText ''already settled'')) causeType i hold counterpart
              (w_amount x) now) (\<lambda>je.
     bindm (transition i WithdrawalStatusBroadcast
       (\<lambda>r. r\<lparr>w_status := targetStatus, w_updated_at := now\<rparr>)
       (ErrText ''status changed concurrently'')) (\<lambda>_.
     emit eventType
       (withdrawalSettledPayload i je (w_customer_id x) (w_chain x) (w_asset x) (w_amount x)) now)))))"

definition SettleConfirmedWithdrawal :: "uuid \<Rightarrow> unit db_m" where
  "SettleConfirmedWithdrawal i =
     settleWithdrawal i WithdrawalStatusConfirmed withdrawalSettlementCauseType
       withdrawalConfirmedEventType AccountTypeTreasury True"

definition SettleFailedWithdrawal :: "uuid \<Rightarrow> unit db_m" where
  "SettleFailedWithdrawal i =
     settleWithdrawal i WithdrawalStatusFailed withdrawalFailureCauseType
       withdrawalFailedEventType AccountTypeAvailable False"

subsection \<open>What a withdrawal request promises\<close>

definition withdrawal_result ::
    "uuid \<Rightarrow> withdrawal_request \<Rightarrow> int \<Rightarrow> withdrawal_status \<Rightarrow> time \<Rightarrow> withdrawal" where
  "withdrawal_result i req amount st now =
     empty_withdrawal\<lparr>wi_id := i, wi_customer_id := wr_customer_id req, wi_chain := wr_chain req,
       wi_asset := wr_asset req, wi_amount := amount,
       wi_destination_address := wr_destination_address req, wi_status := st, wi_created_at := now\<rparr>"

text \<open>The outcome of a valid request of \<open>amount\<close> with the estimated \<open>fee\<close> and the approval
  threshold \<open>th\<close>, with no fault of the connection: what the customer must have is the amount and
  the fee together.\<close>

definition hold_outcome ::
    "database \<Rightarrow> time \<Rightarrow> uuid \<Rightarrow> withdrawal_request \<Rightarrow> int \<Rightarrow> int \<Rightarrow> int \<Rightarrow> error + withdrawal" where
  "hold_outcome d now i req amount fee th =
     (case (account_of d (Some (wr_customer_id req)) (wr_chain req) (wr_asset req) AccountTypeAvailable,
            account_of d (Some (wr_customer_id req)) (wr_chain req) (wr_asset req) AccountTypeHold) of
        (Some av, Some ho) \<Rightarrow>
          if balance d av < amount then Inl ErrInsufficientBalance
          else if balance d av < amount + fee then Inl ErrInsufficientBalanceForFee
          else if (withdrawalHoldCauseType, wr_idempotency_key req) \<in> cause ` set (journal_entries d)
          then Inl ErrDuplicateWithdrawalCause
          else if \<not> (chain_check (wr_chain req) \<and> asset_check (wr_asset req))
          then Inl (PgError ''constraint'')
          else Inr (withdrawal_result i req amount
                      (if amount \<le> th then WithdrawalStatusApproved
                       else WithdrawalStatusAwaitingApproval) now)
      | _ \<Rightarrow> Inl ErrCustomerNotFound)"

definition withdrawal_outcome ::
    "database \<Rightarrow> time \<Rightarrow> uuid \<Rightarrow> fee_estimator \<Rightarrow> withdrawal_request \<Rightarrow> error + withdrawal" where
  "withdrawal_outcome d now i estimate req =
     (case validate_withdrawal req of
        Inl e \<Rightarrow> Inl e
      | Inr amount \<Rightarrow>
     (case estimate (wr_chain req) (wr_asset req) amount of
        Inl e \<Rightarrow> Inl e
      | Inr fe \<Rightarrow>
     (case fe_total fe of
        None \<Rightarrow> Inl (ErrText ''fee estimator returned no TotalFee'')
      | Some fee \<Rightarrow>
     (case threshold_of d (wr_chain req) (wr_asset req) of
        None \<Rightarrow> Inl ErrNoWithdrawalApprovalThreshold
      | Some th \<Rightarrow> hold_outcome d now i req amount fee th))))"

subsection \<open>Effects\<close>

lemma quiet_lock_withdrawal [simp]: "quiet (lock_withdrawal i)"
  by (auto simp: lock_withdrawal_def split: option.split intro!: quiet_bindm)

lemma quiet_transition [simp]: "quiet (transition i s f e)"
  by (simp add: transition_def)

lemma quiet_lock_withdrawal_accounts [simp]: "quiet (lock_withdrawal_accounts req)"
  by (auto simp: lock_withdrawal_accounts_def split: option.split intro!: quiet_bindm)

lemma quiet_check_withdrawal_balance [simp]: "quiet (check_withdrawal_balance a x f)"
  by (auto simp: check_withdrawal_balance_def Let_def intro!: quiet_bindm)

lemma quiet_routed_event_type [simp]: "quiet (routed_event_type s)"
  by (simp add: routed_event_type_def split: withdrawal_status.split)

lemma quiet_record_withdrawal [simp]: "quiet (record_withdrawal req x s je t)"
  by (simp add: record_withdrawal_def)

lemma quiet_CreateWithdrawal [simp]: "quiet (CreateWithdrawal req fee s)"
  by (auto simp: CreateWithdrawal_def split: prod.split intro!: quiet_bindm)

lemma quiet_GetApprovalThreshold [simp]: "quiet (GetApprovalThreshold ch a)"
  by (auto simp: GetApprovalThreshold_def split: option.split intro!: quiet_bindm)

lemma quiet_CreateWithdrawal_Execute [simp]: "quiet (CreateWithdrawal_Execute est req)"
  by (auto simp: CreateWithdrawal_Execute_def Let_def split: option.split intro!: quiet_bindm)

lemma quiet_ApproveWithdrawal_Execute [simp]: "quiet (ApproveWithdrawal_Execute i a r)"
  by (auto simp: ApproveWithdrawal_Execute_def ApproveWithdrawal_def Let_def intro!: quiet_bindm)

lemma quiet_lock_settlement_accounts [simp]: "quiet (lock_settlement_accounts x ty p)"
  by (auto simp: lock_settlement_accounts_def split: option.split intro!: quiet_bindm)

lemma quiet_settleWithdrawal [simp]: "quiet (settleWithdrawal i s ct et ty p)"
  by (auto simp: settleWithdrawal_def split: prod.split intro!: quiet_bindm)

lemma effect_lock_withdrawal [m_success]:
  "effect (lock_withdrawal i) t d r d' \<Longrightarrow> r \<in> set (withdrawals d) \<and> w_id r = i \<and> d' = d"
  by (auto simp: lock_withdrawal_def m_success split: option.splits elim!: effect_bindmE
      dest: select_first_Some)

lemma effect_transition:
  assumes "effect (transition i s f e) t d u d'"
  shows "d' = d\<lparr>withdrawals := modify (\<lambda>r. w_id r = i \<and> w_status r = s) f (withdrawals d)\<rparr>"
  using assms by (auto simp: transition_def m_success elim!: effect_bindmE)

lemma schema_transition:
  assumes "effect (transition i s f e) t d u d'" "schema_ok d"
    and "\<And>r. w_id (f r) = w_id r" "\<And>r. withdrawal_checks d (f r) = withdrawal_checks d r"
  shows "schema_ok d'"
  using assms by (auto simp: transition_def m_success elim!: effect_bindmE
      intro!: schema_update_withdrawals [of "\<lambda>r. w_id r = i \<and> w_status r = s" f d])

lemma effect_lock_withdrawal_accounts:
  assumes "effect (lock_withdrawal_accounts req) t d (av, ho) d'" "accounts_ok d"
  shows "d' = d"
    "account_of d (Some (wr_customer_id req)) (wr_chain req) (wr_asset req) AccountTypeAvailable = Some av"
    "account_of d (Some (wr_customer_id req)) (wr_chain req) (wr_asset req) AccountTypeHold = Some ho"
proof -
  have *: "account_by a_type (sort_key a_id (filter (withdrawal_accounts req) (accounts d))) ty =
      account_of d (Some (wr_customer_id req)) (wr_chain req) (wr_asset req) ty"
    if "ty = AccountTypeAvailable \<or> ty = AccountTypeHold" for ty
    using that
    by (intro account_by_account_of [OF assms(2)]) (auto simp: withdrawal_accounts_def account_key_def)
  show "d' = d"
    "account_of d (Some (wr_customer_id req)) (wr_chain req) (wr_asset req) AccountTypeAvailable = Some av"
    "account_of d (Some (wr_customer_id req)) (wr_chain req) (wr_asset req) AccountTypeHold = Some ho"
    using assms(1)
    by (auto simp: lock_withdrawal_accounts_def m_success * split: if_splits option.splits
        elim!: effect_bindmE)
qed

lemma effect_check_withdrawal_balance [m_success]:
  "effect (check_withdrawal_balance av amount fee) t d u d' \<Longrightarrow>
     d' = d \<and> amount \<le> balance d av \<and> amount + fee \<le> balance d av"
  by (auto simp: check_withdrawal_balance_def Let_def m_success split: if_splits elim!: effect_bindmE)

lemma effect_routed_event_type [m_success]:
  "effect (routed_event_type s) t d ty d' \<longleftrightarrow> d' = d \<and>
     (s = WithdrawalStatusAwaitingApproval \<and> ty = approvalRequiredEventType \<or>
      s = WithdrawalStatusApproved \<and> ty = withdrawalApprovedEventType)"
  by (cases s) (auto simp: routed_event_type_def m_success)

lemma effect_record_withdrawalE:
  assumes "effect (record_withdrawal req amount s je now) t d wi d'"
  obtains d1 ty where
    "insert_withdrawal (new_withdrawal_row (wi_id wi) req amount s je now) d = Inr ((), d1)"
    "effect (emit ty (withdrawalRoutedPayload (wi_id wi) (wr_customer_id req) (wr_chain req)
        (wr_asset req) amount (wr_destination_address req) [] []) now) t d1 () d'"
    "s = WithdrawalStatusAwaitingApproval \<and> ty = approvalRequiredEventType \<or>
     s = WithdrawalStatusApproved \<and> ty = withdrawalApprovedEventType"
    "wi_status wi = s"
proof -
  from assms obtain wid d1 ty where
    "insert_withdrawal (new_withdrawal_row wid req amount s je now) d = Inr ((), d1)"
    "effect (routed_event_type s) t d1 ty d1"
    "effect (emit ty (withdrawalRoutedPayload wid (wr_customer_id req) (wr_chain req)
        (wr_asset req) amount (wr_destination_address req) [] []) now) t d1 () d'"
    "wi_id wi = wid" "wi_status wi = s"
    unfolding record_withdrawal_def by (auto simp: m_success elim!: effect_bindmE)
  then show thesis
    using that by (auto simp: effect_routed_event_type)
qed

text \<open>A completed request: the hold is one entry from the available to the hold account, and the
  row it adds is open.\<close>

lemma effect_CreateWithdrawalE:
  assumes "effect (CreateWithdrawal req fee s) t d wi d'" "accounts_ok d"
  obtains av ho amount je p1 p2 ty d1 where
    "account_of d (Some (wr_customer_id req)) (wr_chain req) (wr_asset req) AccountTypeAvailable = Some av"
    "account_of d (Some (wr_customer_id req)) (wr_chain req) (wr_asset req) AccountTypeHold = Some ho"
    "wr_amount req = Some amount" "amount \<le> balance d av" "amount + fee \<le> balance d av"
    "fresh_entry d je p1 p2 withdrawalHoldCauseType (wr_idempotency_key req) av ho amount"
    "insert_withdrawal (new_withdrawal_row (wi_id wi) req amount s je t)
       (posted d je p1 p2 withdrawalHoldCauseType (wr_idempotency_key req) av ho amount t) = Inr ((), d1)"
    "effect (emit ty (withdrawalRoutedPayload (wi_id wi) (wr_customer_id req) (wr_chain req)
        (wr_asset req) amount (wr_destination_address req) [] []) t) t d1 () d'"
    "s = WithdrawalStatusAwaitingApproval \<and> ty = approvalRequiredEventType \<or>
     s = WithdrawalStatusApproved \<and> ty = withdrawalApprovedEventType"
    "wi_status wi = s"
proof -
  from assms(1) obtain av ho d0 amount d1 je d2 where
    l: "effect (lock_withdrawal_accounts req) t d (av, ho) d0"
    and a: "wr_amount req = Some amount"
    and b: "effect (check_withdrawal_balance av amount fee) t d0 () d1"
    and p: "effect (post_entry (dup_as ErrDuplicateWithdrawalCause) withdrawalHoldCauseType
      (wr_idempotency_key req) av ho amount t) t d1 je d2"
    and r: "effect (record_withdrawal req amount s je t) t d2 wi d'"
    unfolding CreateWithdrawal_def by (auto simp: m_success split: prod.splits elim!: effect_bindmE)
  note lD = effect_lock_withdrawal_accounts [OF l assms(2)]
  have bD: "d1 = d" "amount \<le> balance d av" "amount + fee \<le> balance d av"
    using effect_check_withdrawal_balance [OF b] lD(1) by auto
  from p obtain p1 p2 where
    "d2 = posted d je p1 p2 withdrawalHoldCauseType (wr_idempotency_key req) av ho amount t"
    "fresh_entry d je p1 p2 withdrawalHoldCauseType (wr_idempotency_key req) av ho amount"
    by (rule effect_post_entryE) (use bD in auto)
  with r show thesis
    by (elim effect_record_withdrawalE) (rule that; use lD bD a in simp)
qed

lemma validate_withdrawal_Inr:
  "validate_withdrawal req = Inr x \<longleftrightarrow>
     wr_amount req = Some x \<and> 0 < x \<and> x < 2 ^ 256 \<and>
     destinationAddressPattern (wr_destination_address req) \<and>
     \<not> equal_fold (wr_destination_address req) zeroDestinationAddress"
  by (auto simp: validate_withdrawal_def bit_len_gt not_le split: option.splits if_splits)

lemma effect_GetApprovalThreshold [m_success]:
  "effect (GetApprovalThreshold ch a) t d x d' \<Longrightarrow> d' = d \<and> threshold_of d ch a = Some x"
  by (auto simp: GetApprovalThreshold_def threshold_of_def m_success split: option.splits
      elim!: effect_bindmE)

lemma effect_CreateWithdrawal_ExecuteE:
  assumes "effect (CreateWithdrawal_Execute est req) t d wi d'"
  obtains amount fe fee threshold where
    "validate_withdrawal req = Inr amount"
    "est (wr_chain req) (wr_asset req) amount = Inr fe" "fe_total fe = Some fee"
    "threshold_of d (wr_chain req) (wr_asset req) = Some threshold"
    "effect (CreateWithdrawal req fee
       (if amount \<le> threshold then WithdrawalStatusApproved else WithdrawalStatusAwaitingApproval))
       t d wi d'"
proof -
  from assms obtain amount fe fee threshold d1 where
    "validate_withdrawal req = Inr amount"
    "est (wr_chain req) (wr_asset req) amount = Inr fe" "fe_total fe = Some fee"
    "effect (GetApprovalThreshold (wr_chain req) (wr_asset req)) t d threshold d1"
    "effect (CreateWithdrawal req fee
       (if amount \<le> threshold then WithdrawalStatusApproved else WithdrawalStatusAwaitingApproval))
       t d1 wi d'"
    unfolding CreateWithdrawal_Execute_def Let_def
    by (auto simp: effect_lift_result effect_raise split: option.splits elim!: effect_bindmE)
  moreover from this(4) have "d1 = d" "threshold_of d (wr_chain req) (wr_asset req) = Some threshold"
    using effect_GetApprovalThreshold by blast+
  ultimately show thesis using that by blast
qed

subsection \<open>The ledger\<close>

lemma held_insert:
  "held (d\<lparr>withdrawals := withdrawals d @ [r]\<rparr>) c ch a = held d c ch a +
     (if w_customer_id r = c \<and> w_chain r = ch \<and> w_asset r = a \<and> open_status (w_status r)
      then w_amount r else 0)"
  by (simp add: held_def)

lemma settled_insert:
  "settled (d\<lparr>withdrawals := withdrawals d @ [r]\<rparr>) ch a = settled d ch a +
     (if w_chain r = ch \<and> w_asset r = a \<and> w_status r = WithdrawalStatusConfirmed
      then w_amount r else 0)"
  by (simp add: settled_def)

lemma books_insert_withdrawal:
  assumes "ledger_ok d" "r \<in> set (accounts d)" "s \<in> set (accounts d)"
    and "account_key r = (Some c, ch, a, AccountTypeAvailable)"
    and "account_key s = (Some c, ch, a, AccountTypeHold)"
    and "w_customer_id row = c" "w_chain row = ch" "w_asset row = a" "w_amount row = amount"
    and "open_status (w_status row)" "0 < amount" "amount \<le> balance d (a_id r)"
    and "fresh_entry d je p1 p2 ct cid (a_id r) (a_id s) amount"
    and D: "D = posted d je p1 p2 ct cid (a_id r) (a_id s) amount now"
  shows "books (D\<lparr>withdrawals := withdrawals D @ [row]\<rparr>)"
proof -
  have ok: "accounts_ok d" "books d"
    using assms(1) by (auto simp: ledger_ok_def schema_ok_def)
  have rs: "a_id r \<noteq> a_id s"
    using accounts_same_id [OF ok(1) assms(2,3)] assms(4,5) by (auto simp: account_key_def)
  have nc: "w_status row \<noteq> WithdrawalStatusConfirmed"
    using assms(10) by (auto simp: open_status_def)
  have DD: "held D = held d" "settled D = settled d" "credited D = credited d"
    "\<And>z. balance D z = balance d z - (if z = a_id r then amount else 0) + (if z = a_id s then amount else 0)"
    by (simp_all add: D balance_posted)
  have "account_matches (D\<lparr>withdrawals := withdrawals D @ [row]\<rparr>) x" if x: "x \<in> set (accounts d)" for x
  proof -
    have m: "account_matches d x"
      using ok(2) x by (simp add: books_def)
    have xr: "a_id x = a_id r \<longleftrightarrow> x = r" and xs: "a_id x = a_id s \<longleftrightarrow> x = s"
      using accounts_same_id [OF ok(1) x] assms(2,3) by auto
    have ks: "account_key x = account_key s \<longleftrightarrow> x = s"
      using accounts_same_key [OF ok(1) x assms(3)] .
    consider "x = r" | "x = s" | "x \<noteq> r" "x \<noteq> s" by blast
    then show ?thesis
    proof cases
      case 1
      then show ?thesis
        using rs assms(4,11,12) by (simp add: account_matches_def DD account_key_def)
    next
      case 2
      then show ?thesis
        using m rs assms(5-10) by (simp add: account_matches_def DD held_insert account_key_def)
    next
      case 3
      then have "balance D (a_id x) = balance d (a_id x)" "account_key x \<noteq> account_key s"
        using xr xs ks by (auto simp: DD)
      then show ?thesis
        using m nc assms(5-8)
        by (auto simp: account_matches_def DD(1-3) held_insert settled_insert account_key_def
            split: option.splits account_type.splits)
    qed
  qed
  then show ?thesis
    by (simp add: books_def D)
qed

lemma ledger_create_withdrawal:
  assumes "effect (CreateWithdrawal_Execute est req) t d wi d'" "ledger_ok d"
  shows "ledger_ok d'"
proof -
  have ok: "accounts_ok d"
    using assms(2) by (auto simp: ledger_ok_def schema_ok_def)
  from assms(1) obtain amount fee st where
    v: "validate_withdrawal req = Inr amount" and e: "effect (CreateWithdrawal req fee st) t d wi d'"
    by (rule effect_CreateWithdrawal_ExecuteE)
  from e ok obtain av ho am je p1 p2 ty d1 where
    acc: "account_of d (Some (wr_customer_id req)) (wr_chain req) (wr_asset req) AccountTypeAvailable = Some av"
    "account_of d (Some (wr_customer_id req)) (wr_chain req) (wr_asset req) AccountTypeHold = Some ho"
    and am: "wr_amount req = Some am" "am \<le> balance d av"
    and f: "fresh_entry d je p1 p2 withdrawalHoldCauseType (wr_idempotency_key req) av ho am"
    and i: "insert_withdrawal (new_withdrawal_row (wi_id wi) req am st je t)
       (posted d je p1 p2 withdrawalHoldCauseType (wr_idempotency_key req) av ho am t) = Inr ((), d1)"
    and em: "effect (emit ty (withdrawalRoutedPayload (wi_id wi) (wr_customer_id req) (wr_chain req)
        (wr_asset req) am (wr_destination_address req) [] []) t) t d1 () d'"
    and st: "st = WithdrawalStatusAwaitingApproval \<and> ty = approvalRequiredEventType \<or>
     st = WithdrawalStatusApproved \<and> ty = withdrawalApprovedEventType"
    by (rule effect_CreateWithdrawalE)
  have am': "am = amount" "0 < am"
    using v am by (auto simp: validate_withdrawal_Inr)
  from acc obtain r s where rs: "r \<in> set (accounts d)" "s \<in> set (accounts d)"
    "account_key r = (Some (wr_customer_id req), wr_chain req, wr_asset req, AccountTypeAvailable)"
    "account_key s = (Some (wr_customer_id req), wr_chain req, wr_asset req, AccountTypeHold)"
    and ids: "av = a_id r" "ho = a_id s"
    by (auto simp: account_of_Some [OF ok])
  have pair: "a_chain r = a_chain s" "a_asset r = a_asset s"
    using rs(3,4) by (auto simp: account_key_def)
  define D where "D = posted d je p1 p2 withdrawalHoldCauseType (wr_idempotency_key req) (a_id r) (a_id s) am t"
  note inv = entry_invariants [OF assms(2) f [unfolded ids] am'(2) rs(1,2) pair, of t, folded D_def]
  have d1: "d1 = D\<lparr>withdrawals := withdrawals D @ [new_withdrawal_row (wi_id wi) req am st je t]\<rparr>"
    using i by (simp add: insert_withdrawal_def m_success D_def ids)
  have "books d1"
    unfolding d1
    by (rule books_insert_withdrawal [OF assms(2) rs(1-4) _ _ _ _ _ am'(2) _ f [unfolded ids] D_def])
      (use am(2) ids st in \<open>auto simp: new_withdrawal_row_def open_status_def\<close>)
  moreover have "schema_ok d1"
    using schema_insert_withdrawal [OF i [unfolded ids, folded D_def]] inv(1) .
  ultimately have "ledger_ok d1"
    using inv(2,3) by (simp add: ledger_ok_def d1)
  then show ?thesis
    by (rule ledger_emit [OF em])
qed

text \<open>A rewriting of withdrawal rows that keeps every row open or closed keeps the books.\<close>

lemma ledger_modify_withdrawals:
  assumes "update_withdrawals p f d = Inr (n, d')" "ledger_ok d"
    and "\<And>r. p r \<Longrightarrow> w_id (f r) = w_id r \<and> w_customer_id (f r) = w_customer_id r \<and>
      w_chain (f r) = w_chain r \<and> w_asset (f r) = w_asset r \<and> w_amount (f r) = w_amount r \<and>
      w_destination_address (f r) = w_destination_address r \<and>
      w_hold_journal_entry_id (f r) = w_hold_journal_entry_id r"
    and "\<And>r. p r \<Longrightarrow> open_status (w_status r) \<and> open_status (w_status (f r)) \<or>
      w_status (f r) = w_status r"
  shows "ledger_ok d'"
proof -
  have d': "d' = d\<lparr>withdrawals := modify p f (withdrawals d)\<rparr>"
    using assms(1) by (simp add: m_success)
  have "held d' c ch a = held d c ch a" for c ch a
    using assms(3,4) unfolding held_def d' by (simp add: total_of_modify_same) (fastforce intro: total_of_modify_same)
  moreover have "settled d' ch a = settled d ch a" for ch a
    using assms(3,4) unfolding settled_def d'
    by (simp add: total_of_modify_same) (fastforce simp: open_status_def intro: total_of_modify_same)
  ultimately have "account_matches d' r = account_matches d r" for r
    by (simp add: account_matches_def d' split: option.split account_type.split)
  moreover have "schema_ok d'"
    by (rule schema_update_withdrawals [OF assms(1)])
      (use assms(2,3) in \<open>auto simp: ledger_ok_def withdrawal_checks_def\<close>)
  ultimately show ?thesis
    using assms(2) by (simp add: ledger_ok_def books_def d')
qed

lemma effect_transition_update:
  assumes "effect (transition i s f e) t d u d'"
  obtains n where "update_withdrawals (\<lambda>r. w_id r = i \<and> w_status r = s) f d = Inr (n, d')" "n \<noteq> 0"
  using assms by (auto simp: transition_def m_success elim!: effect_bindmE)

lemma effect_ApproveWithdrawalE:
  assumes "effect (ApproveWithdrawal_Execute i actor reason) t d wi d'"
  obtains r d1 where "r \<in> set (withdrawals d)" "w_id r = i"
    "w_status r = WithdrawalStatusAwaitingApproval"
    "trim_space actor \<noteq> []" "trim_space reason \<noteq> []"
    "effect (transition i WithdrawalStatusAwaitingApproval
       (\<lambda>x. x\<lparr>w_status := WithdrawalStatusApproved, w_approved_at := Some t,
              w_approved_by := Some (trim_space actor), w_approval_reason := Some (trim_space reason),
              w_updated_at := t\<rparr>)
       ErrWithdrawalNotAwaitingApproval) t d () d1"
    "effect (emit withdrawalApprovedEventType
       (withdrawalRoutedPayload i (w_customer_id r) (w_chain r) (w_asset r) (w_amount r)
          (w_destination_address r) (trim_space actor) (trim_space reason)) t) t d1 () d'"
    "wi_approved_by wi = trim_space actor" "wi_approval_reason wi = trim_space reason"
    "wi_status wi = WithdrawalStatusApproved"
  using assms
  by (auto simp: ApproveWithdrawal_Execute_def ApproveWithdrawal_def Let_def effect_ret effect_raise
      effect_time_now split: if_splits dest!: effect_lock_withdrawal elim!: effect_bindmE intro: that)

lemma ledger_approve:
  assumes "effect (ApproveWithdrawal_Execute i actor reason) t d wi d'" "ledger_ok d"
  shows "ledger_ok d'"
  using assms
proof (elim effect_ApproveWithdrawalE)
  fix r d1
  assume tr: "effect (transition i WithdrawalStatusAwaitingApproval
       (\<lambda>x. x\<lparr>w_status := WithdrawalStatusApproved, w_approved_at := Some t,
              w_approved_by := Some (trim_space actor), w_approval_reason := Some (trim_space reason),
              w_updated_at := t\<rparr>)
       ErrWithdrawalNotAwaitingApproval) t d () d1"
    and em: "effect (emit withdrawalApprovedEventType
       (withdrawalRoutedPayload i (w_customer_id r) (w_chain r) (w_asset r) (w_amount r)
          (w_destination_address r) (trim_space actor) (trim_space reason)) t) t d1 () d'"
  from tr have "ledger_ok d1"
    by (rule effect_transition_update, elim ledger_modify_withdrawals)
      (use assms(2) in \<open>auto simp: open_status_def\<close>)
  then show ?thesis
    by (rule ledger_emit [OF em])
qed

subsection \<open>Settlement\<close>

lemma effect_lock_settlement_accounts:
  assumes "effect (lock_settlement_accounts x ty pf) t d (ho, co) d'" "accounts_ok d"
    and "ty \<noteq> AccountTypeHold"
  shows "d' = d"
    "account_of d (Some (w_customer_id x)) (w_chain x) (w_asset x) AccountTypeHold = Some ho"
    "account_of d (if pf then None else Some (w_customer_id x)) (w_chain x) (w_asset x) ty = Some co"
proof -
  let ?rows = "sort_key a_id (filter (settlement_accounts x ty pf) (accounts d))"
  have 1: "account_by a_type ?rows AccountTypeHold =
      account_of d (Some (w_customer_id x)) (w_chain x) (w_asset x) AccountTypeHold"
    using assms(3) by (intro account_by_account_of [OF assms(2)])
      (auto simp: settlement_accounts_def account_key_def split: if_splits)
  have 2: "account_by a_type ?rows ty =
      account_of d (if pf then None else Some (w_customer_id x)) (w_chain x) (w_asset x) ty"
    using assms(3) by (intro account_by_account_of [OF assms(2)])
      (auto simp: settlement_accounts_def account_key_def split: if_splits)
  have "d' = d \<and> account_by a_type ?rows AccountTypeHold = Some ho \<and> account_by a_type ?rows ty = Some co"
    using assms(1) unfolding lock_settlement_accounts_def
    by (auto simp: m_success split: option.splits elim!: effect_bindmE)
  then show "d' = d"
    "account_of d (Some (w_customer_id x)) (w_chain x) (w_asset x) AccountTypeHold = Some ho"
    "account_of d (if pf then None else Some (w_customer_id x)) (w_chain x) (w_asset x) ty = Some co"
    using 1 2 by simp_all
qed

lemma effect_settleE:
  assumes "effect (settleWithdrawal i st ct et ty pf) t d u d'" "accounts_ok d" "ty \<noteq> AccountTypeHold"
  obtains x ho co je p1 p2 d1 where
    "x \<in> set (withdrawals d)" "w_id x = i" "w_status x = WithdrawalStatusBroadcast"
    "account_of d (Some (w_customer_id x)) (w_chain x) (w_asset x) AccountTypeHold = Some ho"
    "account_of d (if pf then None else Some (w_customer_id x)) (w_chain x) (w_asset x) ty = Some co"
    "fresh_entry d je p1 p2 ct i ho co (w_amount x)"
    "effect (transition i WithdrawalStatusBroadcast (\<lambda>r. r\<lparr>w_status := st, w_updated_at := t\<rparr>)
       (ErrText ''status changed concurrently'')) t
       (posted d je p1 p2 ct i ho co (w_amount x) t) () d1"
    "effect (emit et (withdrawalSettledPayload i je (w_customer_id x) (w_chain x) (w_asset x)
       (w_amount x)) t) t d1 () d'"
proof -
  from assms(1) obtain x d0 ho co d2 je d3 d1 where
    l: "effect (lock_withdrawal i) t d x d0" and b: "w_status x = WithdrawalStatusBroadcast"
    and a: "effect (lock_settlement_accounts x ty pf) t d0 (ho, co) d2"
    and p: "effect (post_entry (dup_as (ErrText ''already settled'')) ct i ho co (w_amount x) t) t d2 je d3"
    and tr: "effect (transition i WithdrawalStatusBroadcast (\<lambda>r. r\<lparr>w_status := st, w_updated_at := t\<rparr>)
       (ErrText ''status changed concurrently'')) t d3 () d1"
    and em: "effect (emit et (withdrawalSettledPayload i je (w_customer_id x) (w_chain x) (w_asset x)
       (w_amount x)) t) t d1 () d'"
    unfolding settleWithdrawal_def
    by (auto simp: effect_raise effect_time_now split: if_splits prod.splits elim!: effect_bindmE)
  note lD = effect_lock_withdrawal [OF l]
  with a assms(2) have a': "effect (lock_settlement_accounts x ty pf) t d (ho, co) d2"
    by simp
  note aD = effect_lock_settlement_accounts [OF a' assms(2,3)]
  from p obtain p1 p2 where "d3 = posted d je p1 p2 ct i ho co (w_amount x) t"
    "fresh_entry d je p1 p2 ct i ho co (w_amount x)"
    by (rule effect_post_entryE) (use aD in auto)
  with tr em lD b aD show thesis
    by (intro that [of x ho co je p1 p2 d1]) auto
qed

text \<open>Closing the one broadcast row takes its amount out of the holds of its customer, and into the
  settled total exactly when it is confirmed.\<close>

lemma transition_totals:
  assumes "withdrawals_ok d" "x \<in> set (withdrawals d)" "w_id x = i" "w_status x = WithdrawalStatusBroadcast"
    and "st = WithdrawalStatusConfirmed \<or> st = WithdrawalStatusFailed"
    and d': "withdrawals d' = modify (\<lambda>r. w_id r = i \<and> w_status r = WithdrawalStatusBroadcast)
      (\<lambda>r. r\<lparr>w_status := st, w_updated_at := t\<rparr>) (withdrawals d)"
  shows "held d' c ch a = held d c ch a -
      (if w_customer_id x = c \<and> w_chain x = ch \<and> w_asset x = a then w_amount x else 0)"
    "settled d' ch a = settled d ch a +
      (if w_chain x = ch \<and> w_asset x = a \<and> st = WithdrawalStatusConfirmed then w_amount x else 0)"
proof -
  have u: "distinct (map w_id (withdrawals d))"
    using assms(1) by (simp add: withdrawals_ok_def)
  have q: "w_id r = i \<and> w_status r = WithdrawalStatusBroadcast \<longleftrightarrow> w_id r = w_id x"
    if "r \<in> set (withdrawals d)" for r
    using that u assms(2-4) by (auto simp: distinct_map dest: inj_onD)
  show "held d' c ch a = held d c ch a -
      (if w_customer_id x = c \<and> w_chain x = ch \<and> w_asset x = a then w_amount x else 0)"
    unfolding held_def d' using assms(4,5)
    by (subst total_of_modify [OF u assms(2) q]) (auto simp: open_status_def)
  show "settled d' ch a = settled d ch a +
      (if w_chain x = ch \<and> w_asset x = a \<and> st = WithdrawalStatusConfirmed then w_amount x else 0)"
    unfolding settled_def d' using assms(4,5)
    by (subst total_of_modify [OF u assms(2) q]) auto
qed

lemma books_settle:
  assumes "ledger_ok d" "x \<in> set (withdrawals d)" "w_id x = i" "w_status x = WithdrawalStatusBroadcast"
    and s: "s \<in> set (accounts d)"
      "account_key s = (Some (w_customer_id x), w_chain x, w_asset x, AccountTypeHold)"
    and r: "r \<in> set (accounts d)"
      "st = WithdrawalStatusConfirmed \<and> account_key r = (None, w_chain x, w_asset x, AccountTypeTreasury) \<or>
       st = WithdrawalStatusFailed \<and>
         account_key r = (Some (w_customer_id x), w_chain x, w_asset x, AccountTypeAvailable)"
    and D: "D = posted d je p1 p2 ct cid (a_id s) (a_id r) (w_amount x) now"
    and d1: "d1 = D\<lparr>withdrawals := modify (\<lambda>r. w_id r = i \<and> w_status r = WithdrawalStatusBroadcast)
      (\<lambda>r. r\<lparr>w_status := st, w_updated_at := t\<rparr>) (withdrawals D)\<rparr>"
  shows "books d1"
proof -
  have ok: "accounts_ok d" "books d" "withdrawals_ok d"
    using assms(1) by (auto simp: ledger_ok_def schema_ok_def)
  have st: "st = WithdrawalStatusConfirmed \<or> st = WithdrawalStatusFailed"
    using r(2) by blast
  have pos: "0 < w_amount x"
    using ok(3) assms(2) by (auto simp: withdrawals_ok_def withdrawal_checks_def)
  have rs: "a_id s \<noteq> a_id r"
    using accounts_same_id [OF ok(1) s(1) r(1)] s(2) r(2) by auto
  have W: "withdrawals d1 = modify (\<lambda>r. w_id r = i \<and> w_status r = WithdrawalStatusBroadcast)
      (\<lambda>r. r\<lparr>w_status := st, w_updated_at := t\<rparr>) (withdrawals d)"
    by (simp add: d1 D)
  note tot = transition_totals [OF ok(3) assms(2-4) st W]
  have DD: "credited d1 = credited d" "\<And>z. balance d1 z = balance d z -
      (if z = a_id s then w_amount x else 0) + (if z = a_id r then w_amount x else 0)"
    by (simp_all add: d1 D balance_posted)
  have "account_matches d1 y" if y: "y \<in> set (accounts d)" for y
  proof -
    have m: "account_matches d y"
      using ok(2) y by (simp add: books_def)
    have ks: "account_key y = account_key s \<longleftrightarrow> y = s" and kr: "account_key y = account_key r \<longleftrightarrow> y = r"
      using accounts_same_key [OF ok(1) y] s(1) r(1) by auto
    consider "y = s" | "y = r" | "y \<noteq> s" "y \<noteq> r" by blast
    then show ?thesis
    proof cases
      case 1
      then show ?thesis
        using m rs s(2) by (simp add: account_matches_def DD tot account_key_def)
    next
      case 2
      then show ?thesis
        using m rs r(2) pos by (auto simp: account_matches_def DD tot account_key_def)
    next
      case 3
      then have "balance d1 (a_id y) = balance d (a_id y)"
        using accounts_same_id [OF ok(1) y] s(1) r(1) by (simp add: DD)
      then show ?thesis
        using m 3 ks kr s(2) r(2)
        by (auto simp: account_matches_def DD(1) tot account_key_def
            split: option.splits account_type.splits)
    qed
  qed
  then show ?thesis
    by (simp add: books_def d1 D)
qed

lemma ledger_settle:
  assumes "effect (settleWithdrawal i st ct et ty pf) t d u d'" "ledger_ok d"
    and "st = WithdrawalStatusConfirmed \<and> ty = AccountTypeTreasury \<and> pf \<or>
      st = WithdrawalStatusFailed \<and> ty = AccountTypeAvailable \<and> \<not> pf"
  shows "ledger_ok d'"
proof -
  have ok: "accounts_ok d" "withdrawals_ok d"
    using assms(2) by (auto simp: ledger_ok_def schema_ok_def)
  from assms(1) ok(1) obtain x ho co je p1 p2 d1 where x:
    "x \<in> set (withdrawals d)" "w_id x = i" "w_status x = WithdrawalStatusBroadcast"
    and acc: "account_of d (Some (w_customer_id x)) (w_chain x) (w_asset x) AccountTypeHold = Some ho"
    "account_of d (if pf then None else Some (w_customer_id x)) (w_chain x) (w_asset x) ty = Some co"
    and f: "fresh_entry d je p1 p2 ct i ho co (w_amount x)"
    and tr: "effect (transition i WithdrawalStatusBroadcast (\<lambda>r. r\<lparr>w_status := st, w_updated_at := t\<rparr>)
       (ErrText ''status changed concurrently'')) t
       (posted d je p1 p2 ct i ho co (w_amount x) t) () d1"
    and em: "effect (emit et (withdrawalSettledPayload i je (w_customer_id x) (w_chain x) (w_asset x)
       (w_amount x)) t) t d1 () d'"
    by (rule effect_settleE) (use assms(3) in auto)
  from acc obtain s r where s: "s \<in> set (accounts d)"
    "account_key s = (Some (w_customer_id x), w_chain x, w_asset x, AccountTypeHold)"
    and r: "r \<in> set (accounts d)"
    "account_key r = (if pf then None else Some (w_customer_id x), w_chain x, w_asset x, ty)"
    and ids: "ho = a_id s" "co = a_id r"
    by (auto simp: account_of_Some [OF ok(1)])
  have pair: "a_chain s = a_chain r" "a_asset s = a_asset r"
    using s(2) r(2) by (auto simp: account_key_def)
  have pos: "0 < w_amount x"
    using ok(2) x(1) by (auto simp: withdrawals_ok_def withdrawal_checks_def)
  define D where "D = posted d je p1 p2 ct i (a_id s) (a_id r) (w_amount x) t"
  note inv = entry_invariants [OF assms(2) f [unfolded ids] pos s(1) r(1) pair, of t, folded D_def]
  note tr' = tr [unfolded ids, folded D_def]
  have "books d1"
    using assms(3) r(2)
    by (intro books_settle [OF assms(2) x s r(1) _ D_def effect_transition [OF tr']]) auto
  moreover have "schema_ok d1"
    by (rule schema_transition [OF tr' inv(1)]) (auto simp: withdrawal_checks_def)
  ultimately have "ledger_ok d1"
    using inv(2,3) by (simp add: ledger_ok_def effect_transition [OF tr'])
  then show ?thesis
    by (rule ledger_emit [OF em])
qed

lemma ledger_settle_confirmed:
  "effect (SettleConfirmedWithdrawal i) t d u d' \<Longrightarrow> ledger_ok d \<Longrightarrow> ledger_ok d'"
  unfolding SettleConfirmedWithdrawal_def by (erule ledger_settle) auto

lemma ledger_settle_failed:
  "effect (SettleFailedWithdrawal i) t d u d' \<Longrightarrow> ledger_ok d \<Longrightarrow> ledger_ok d'"
  unfolding SettleFailedWithdrawal_def by (erule ledger_settle) auto

lemma settle_balances:
  assumes "effect (settleWithdrawal i st ct et ty pf) t d u d'" "accounts_ok d" "ty \<noteq> AccountTypeHold"
  shows "\<exists>x ho co. x \<in> set (withdrawals d) \<and> w_id x = i \<and> w_status x = WithdrawalStatusBroadcast \<and>
    account_of d (Some (w_customer_id x)) (w_chain x) (w_asset x) AccountTypeHold = Some ho \<and>
    account_of d (if pf then None else Some (w_customer_id x)) (w_chain x) (w_asset x) ty = Some co \<and>
    balance d' ho = balance d ho - w_amount x \<and> balance d' co = balance d co + w_amount x \<and>
    (\<forall>z. z \<noteq> ho \<and> z \<noteq> co \<longrightarrow> balance d' z = balance d z) \<and>
    withdrawals d' = modify (\<lambda>r. w_id r = i \<and> w_status r = WithdrawalStatusBroadcast)
      (\<lambda>r. r\<lparr>w_status := st, w_updated_at := t\<rparr>) (withdrawals d)"
proof -
  from assms obtain x ho co je p1 p2 d1 where x:
    "x \<in> set (withdrawals d)" "w_id x = i" "w_status x = WithdrawalStatusBroadcast"
    and acc: "account_of d (Some (w_customer_id x)) (w_chain x) (w_asset x) AccountTypeHold = Some ho"
    "account_of d (if pf then None else Some (w_customer_id x)) (w_chain x) (w_asset x) ty = Some co"
    and f: "fresh_entry d je p1 p2 ct i ho co (w_amount x)"
    and tr: "effect (transition i WithdrawalStatusBroadcast (\<lambda>r. r\<lparr>w_status := st, w_updated_at := t\<rparr>)
       (ErrText ''status changed concurrently'')) t
       (posted d je p1 p2 ct i ho co (w_amount x) t) () d1"
    and em: "effect (emit et (withdrawalSettledPayload i je (w_customer_id x) (w_chain x) (w_asset x)
       (w_amount x)) t) t d1 () d'"
    by (rule effect_settleE)
  let ?D = "posted d je p1 p2 ct i ho co (w_amount x) t"
  have p: "posts d ho co (w_amount x) ?D"
    by (rule posts_posted [OF f])
  have "ho \<noteq> co"
  proof
    assume "ho = co"
    then obtain r s where "r \<in> set (accounts d)" "s \<in> set (accounts d)" "a_id r = a_id s"
      "account_key r \<noteq> account_key s"
      using acc assms(3) unfolding account_of_Some [OF assms(2)] by fastforce
    then show False using accounts_same_id [OF assms(2)] by blast
  qed
  moreover have "balance d' z = balance ?D z" for z
    using em by (auto simp: effect_transition [OF tr] elim!: effect_emitE)
  moreover have "withdrawals d' = modify (\<lambda>r. w_id r = i \<and> w_status r = WithdrawalStatusBroadcast)
      (\<lambda>r. r\<lparr>w_status := st, w_updated_at := t\<rparr>) (withdrawals d)"
    using em by (auto simp: effect_transition [OF tr] elim!: effect_emitE)
  ultimately show ?thesis
    using x acc entries.debit_side [OF p] entries.credit_side [OF p] entries.other_accounts [OF p]
    by (intro exI [of _ x] exI [of _ ho] exI [of _ co]) auto
qed

subsection \<open>Forward execution\<close>

lemma withdrawal_rows_distinct:
  assumes "accounts_ok d"
  shows "distinct (map a_type (sort_key a_id (filter (withdrawal_accounts req) (accounts d))))"
proof -
  have "inj_on a_type {r \<in> set (accounts d). withdrawal_accounts req r}"
  proof (rule inj_onI)
    fix x y
    assume *: "x \<in> {r \<in> set (accounts d). withdrawal_accounts req r}"
      "y \<in> {r \<in> set (accounts d). withdrawal_accounts req r}" "a_type x = a_type y"
    then have "account_key x = account_key y"
      by (auto simp: withdrawal_accounts_def account_key_def)
    with * show "x = y"
      using accounts_same_key [OF assms] by blast
  qed
  moreover have "distinct (accounts d)"
    using assms by (auto simp: accounts_ok_def distinct_map)
  ultimately show ?thesis
    by (simp add: distinct_map)
qed

lemma lock_withdrawal_accounts_run:
  assumes "outcomes w = []" "accounts_ok (db w)"
  shows "lock_withdrawal_accounts req w =
    (case (account_of (db w) (Some (wr_customer_id req)) (wr_chain req) (wr_asset req) AccountTypeAvailable,
           account_of (db w) (Some (wr_customer_id req)) (wr_chain req) (wr_asset req) AccountTypeHold) of
       (Some av, Some ho) \<Rightarrow> (Inr (av, ho), w)
     | _ \<Rightarrow> (Inl ErrCustomerNotFound, w))"
proof -
  have *: "account_by a_type (sort_key a_id (filter (withdrawal_accounts req) (accounts (db w)))) ty =
      account_of (db w) (Some (wr_customer_id req)) (wr_chain req) (wr_asset req) ty"
    if "ty = AccountTypeAvailable \<or> ty = AccountTypeHold" for ty
    using that
    by (intro account_by_account_of [OF assms(2)]) (auto simp: withdrawal_accounts_def account_key_def)
  show ?thesis
    using assms(1) withdrawal_rows_distinct [OF assms(2), of req]
    by (simp add: lock_withdrawal_accounts_def locked_accounts_def bindm_def m_simps * distinct_remdups_id
        split: option.split)
qed

lemma two_256_numeric78: "\<bar>x\<bar> < 2 ^ 256 \<Longrightarrow> numeric78 (x :: int)"
  by (simp add: numeric78_def)

lemma CreateWithdrawal_run:
  assumes "outcomes w = []" "accounts_ok (db w)" "wr_amount req = Some amount" "0 < amount"
    and "amount < 2 ^ 256" "destinationAddressPattern (wr_destination_address req)"
    and u: "uuids w = je # p1 # p2 # i # ev # us"
    and "je \<notin> j_id ` set (journal_entries (db w))"
    and "p1 \<noteq> p2" "p1 \<notin> p_id ` set (postings (db w))" "p2 \<notin> p_id ` set (postings (db w))"
    and "i \<notin> w_id ` set (withdrawals (db w))" "ev \<notin> o_id ` set (outbox_events (db w))"
  shows "fst (CreateWithdrawal req fee (if amount \<le> th then WithdrawalStatusApproved
      else WithdrawalStatusAwaitingApproval) w) = hold_outcome (db w) (clock w) i req amount fee th"
proof (cases "account_of (db w) (Some (wr_customer_id req)) (wr_chain req) (wr_asset req) AccountTypeAvailable = None
    \<or> account_of (db w) (Some (wr_customer_id req)) (wr_chain req) (wr_asset req) AccountTypeHold = None")
  case True
  then show ?thesis
    using assms(1,2)
    by (auto simp: CreateWithdrawal_def bindm_def lock_withdrawal_accounts_run hold_outcome_def
        split: option.splits)
next
  case False
  then obtain av ho where acc:
    "account_of (db w) (Some (wr_customer_id req)) (wr_chain req) (wr_asset req) AccountTypeAvailable = Some av"
    "account_of (db w) (Some (wr_customer_id req)) (wr_chain req) (wr_asset req) AccountTypeHold = Some ho"
    by auto
  have c: "wr_customer_id req \<in> c_id ` set (customers (db w))"
    using acc(1) assms(2) by (fastforce simp: account_of_Some [OF assms(2)] accounts_ok_def account_key_def)
  have ids: "av \<in> a_id ` set (accounts (db w))" "ho \<in> a_id ` set (accounts (db w))"
    using acc by (auto simp: account_of_Some [OF assms(2)])
  have n: "numeric78 amount" "numeric78 (- amount)"
    using assms(4,5) by (auto intro: two_256_numeric78)
  show ?thesis
    using assms acc c ids n
    by (auto simp: CreateWithdrawal_def check_withdrawal_balance_def record_withdrawal_def
        routed_event_type_def emit_def bindm_def map_error_def m_simps lock_withdrawal_accounts_run
        post_entry_def post_batch_def insert_defs constrained_def dup_as_def cause_def Let_def
        hold_outcome_def withdrawal_checks_def new_withdrawal_row_def destinationAddressPattern_def
        withdrawal_result_def)
qed

subsection \<open>Properties\<close>

text \<open>C4: a completed withdrawal request holds exactly its amount.  The destination is well formed
  and not the zero address, the customer had the amount and the fee, the amount moves from the
  available to the hold account of the same customer and pair and no other balance changes, and the
  withdrawal is stored approved when the amount is within the threshold and awaiting approval
  otherwise, never in another status.\<close>

theorem withdrawal_hold_exact:
  assumes "in_tx (CreateWithdrawal_Execute est req) w = (Inr wi, w')" "accounts_ok (db w)"
  shows "\<exists>av ho amount fee th je.
    account_of (db w) (Some (wr_customer_id req)) (wr_chain req) (wr_asset req)
      AccountTypeAvailable = Some av \<and>
    account_of (db w) (Some (wr_customer_id req)) (wr_chain req) (wr_asset req)
      AccountTypeHold = Some ho \<and>
    validate_withdrawal req = Inr amount \<and>
    threshold_of (db w) (wr_chain req) (wr_asset req) = Some th \<and>
    (\<exists>fe. est (wr_chain req) (wr_asset req) amount = Inr fe \<and> fe_total fe = Some fee) \<and>
    amount \<le> balance (db w) av \<and> amount + fee \<le> balance (db w) av \<and>
    balance (db w') av = balance (db w) av - amount \<and>
    balance (db w') ho = balance (db w) ho + amount \<and>
    (\<forall>z. z \<noteq> av \<and> z \<noteq> ho \<longrightarrow> balance (db w') z = balance (db w) z) \<and>
    withdrawals (db w') = withdrawals (db w) @ [new_withdrawal_row (wi_id wi) req amount
      (if amount \<le> th then WithdrawalStatusApproved else WithdrawalStatusAwaitingApproval)
      je (clock w)]"
proof -
  from in_tx_Inr [OF assms(1)] obtain amount fe fee th where v:
    "validate_withdrawal req = Inr amount" "est (wr_chain req) (wr_asset req) amount = Inr fe"
    "fe_total fe = Some fee" "threshold_of (db w) (wr_chain req) (wr_asset req) = Some th"
    and e: "effect (CreateWithdrawal req fee
       (if amount \<le> th then WithdrawalStatusApproved else WithdrawalStatusAwaitingApproval))
       (clock w) (db w) wi (db w')"
    by (rule effect_CreateWithdrawal_ExecuteE)
  let ?st = "if amount \<le> th then WithdrawalStatusApproved else WithdrawalStatusAwaitingApproval"
  from e assms(2) obtain av ho am je p1 p2 ty d1 where
    acc: "account_of (db w) (Some (wr_customer_id req)) (wr_chain req) (wr_asset req)
      AccountTypeAvailable = Some av"
    "account_of (db w) (Some (wr_customer_id req)) (wr_chain req) (wr_asset req)
      AccountTypeHold = Some ho"
    and am: "wr_amount req = Some am" "am \<le> balance (db w) av" "am + fee \<le> balance (db w) av"
    and f: "fresh_entry (db w) je p1 p2 withdrawalHoldCauseType (wr_idempotency_key req) av ho am"
    and i: "insert_withdrawal (new_withdrawal_row (wi_id wi) req am ?st je (clock w))
       (posted (db w) je p1 p2 withdrawalHoldCauseType (wr_idempotency_key req) av ho am (clock w)) =
       Inr ((), d1)"
    and em: "effect (emit ty (withdrawalRoutedPayload (wi_id wi) (wr_customer_id req) (wr_chain req)
        (wr_asset req) am (wr_destination_address req) [] []) (clock w)) (clock w) d1 () (db w')"
    by (rule effect_CreateWithdrawalE)
  have am': "am = amount"
    using v(1) am(1) by (simp add: validate_withdrawal_Inr)
  let ?D = "posted (db w) je p1 p2 withdrawalHoldCauseType (wr_idempotency_key req) av ho am (clock w)"
  have p: "posts (db w) av ho am ?D"
    by (rule posts_posted [OF f])
  have "av \<noteq> ho"
  proof
    assume "av = ho"
    then obtain r s where "r \<in> set (accounts (db w))" "s \<in> set (accounts (db w))" "a_id r = a_id s"
      "account_key r \<noteq> account_key s"
      using acc unfolding account_of_Some [OF assms(2)] by fastforce
    then show False using accounts_same_id [OF assms(2)] by blast
  qed
  moreover have "balance (db w') z = balance ?D z" for z
    using em i by (auto simp: insert_withdrawal_def m_success elim!: effect_emitE)
  moreover have "withdrawals (db w') = withdrawals (db w) @
      [new_withdrawal_row (wi_id wi) req amount ?st je (clock w)]"
    using em i am' by (auto simp: insert_withdrawal_def m_success elim!: effect_emitE)
  ultimately show ?thesis
    using v acc am am' entries.debit_side [OF p] entries.credit_side [OF p] entries.other_accounts [OF p]
    by auto
qed

definition sample_estimator :: fee_estimator where
  "sample_estimator ch a x = Inr \<lparr>fe_l2 = Some 30, fe_l1 = Some 20, fe_total = Some 50\<rparr>"

definition sample_withdrawal :: withdrawal_request where
  "sample_withdrawal = \<lparr>wr_customer_id = alice, wr_chain = ChainBase, wr_asset = AssetETH,
     wr_amount = Some 700, wr_destination_address = bob_address, wr_idempotency_key = ''k2''\<rparr>"

lemma sample_withdrawal_fst:
  "fst (in_tx (CreateWithdrawal_Execute sample_estimator sample_withdrawal) (sample_world sample)) =
     Inr (withdrawal_result ''u4'' sample_withdrawal 700 WithdrawalStatusApproved 10)"
  by code_simp

lemma sample_withdrawal_runs:
  "in_tx (CreateWithdrawal_Execute sample_estimator sample_withdrawal) (sample_world sample) =
     (Inr (withdrawal_result ''u4'' sample_withdrawal 700 WithdrawalStatusApproved 10),
      snd (in_tx (CreateWithdrawal_Execute sample_estimator sample_withdrawal) (sample_world sample)))"
  by (simp add: prod_eq_iff sample_withdrawal_fst)

lemma sample_accounts_ok: "accounts_ok sample"
  using schema_sample by (simp add: schema_ok_def)

theorem withdrawal_hold_exact_witness:
  "\<exists>av ho. account_of sample (Some alice) ChainBase AssetETH AccountTypeAvailable = Some av \<and>
     account_of sample (Some alice) ChainBase AssetETH AccountTypeHold = Some ho \<and>
     balance (db (snd (in_tx (CreateWithdrawal_Execute sample_estimator sample_withdrawal)
       (sample_world sample)))) av = balance sample av - 700 \<and>
     balance (db (snd (in_tx (CreateWithdrawal_Execute sample_estimator sample_withdrawal)
       (sample_world sample)))) ho = balance sample ho + 700"
  using withdrawal_hold_exact [OF sample_withdrawal_runs] sample_accounts_ok
  by (simp add: sample_world_def validate_withdrawal_Inr) (auto simp: sample_withdrawal_def)

text \<open>C5: every branch of a withdrawal request.  Without a fault of the connection, and with fresh
  identifiers, the use case returns what \<open>withdrawal_outcome\<close> says: the checks of the request in
  order, the estimate, the threshold, then the balance, which must cover amount and fee together.\<close>

theorem withdrawal_refines_outcome:
  assumes "outcomes w = []" "accounts_ok (db w)"
    and "uuids w = je # p1 # p2 # i # ev # us" "je \<notin> j_id ` set (journal_entries (db w))"
    and "p1 \<noteq> p2" "p1 \<notin> p_id ` set (postings (db w))" "p2 \<notin> p_id ` set (postings (db w))"
    and "i \<notin> w_id ` set (withdrawals (db w))" "ev \<notin> o_id ` set (outbox_events (db w))"
  shows "fst (CreateWithdrawal_Execute est req w) =
    withdrawal_outcome (db w) (clock w) i est req"
proof (cases "validate_withdrawal req")
  case (Inr amount)
  then have v: "wr_amount req = Some amount" "0 < amount" "amount < 2 ^ 256"
    "destinationAddressPattern (wr_destination_address req)"
    by (auto simp: validate_withdrawal_Inr)
  note run = CreateWithdrawal_run [OF assms(1,2) v assms(3-)]
  have th: "GetApprovalThreshold ch a w = (case threshold_of (db w) ch a of
      None \<Rightarrow> (Inl ErrNoWithdrawalApprovalThreshold, w) | Some x \<Rightarrow> (Inr x, w))" for ch a
    using assms(1) by (simp add: GetApprovalThreshold_def threshold_of_def bindm_def m_simps
        split: option.split)
  show ?thesis
    using Inr run
    by (auto simp: CreateWithdrawal_Execute_def withdrawal_outcome_def bindm_def lift_result_run th Let_def
        split: sum.split option.split)
qed (simp add: CreateWithdrawal_Execute_def withdrawal_outcome_def bindm_def lift_result_run)

theorem withdrawal_refines_outcome_witness:
  "fst (CreateWithdrawal_Execute sample_estimator sample_withdrawal (sample_world sample)) =
     withdrawal_outcome sample 10 ''u4'' sample_estimator sample_withdrawal \<and>
   withdrawal_outcome sample 10 ''u4'' sample_estimator (sample_withdrawal\<lparr>wr_amount := Some 951\<rparr>) =
     Inl ErrInsufficientBalanceForFee"
proof
  show "fst (CreateWithdrawal_Execute sample_estimator sample_withdrawal (sample_world sample)) =
     withdrawal_outcome sample 10 ''u4'' sample_estimator sample_withdrawal"
    using withdrawal_refines_outcome [of "sample_world sample" "''u1''" "''u2''" "''u3''" "''u4''" "''u5''" _
        sample_estimator sample_withdrawal] sample_accounts_ok
    by (simp add: sample_world_def sample_def posted_def sample_customers_def seeded_def)
qed code_simp

text \<open>C6: an approval needs a non-blank actor and a non-blank reason and a withdrawal that awaits
  approval; it rewrites that one row, with the trimmed values, and moves no money.\<close>

theorem approval_exact:
  assumes "in_tx (ApproveWithdrawal_Execute i actor reason) w = (Inr wi, w')"
  shows "trim_space actor \<noteq> [] \<and> trim_space reason \<noteq> [] \<and>
    (\<exists>x\<in>set (withdrawals (db w)). w_id x = i \<and> w_status x = WithdrawalStatusAwaitingApproval) \<and>
    withdrawals (db w') = modify (\<lambda>r. w_id r = i \<and> w_status r = WithdrawalStatusAwaitingApproval)
      (\<lambda>r. r\<lparr>w_status := WithdrawalStatusApproved, w_approved_at := Some (clock w),
             w_approved_by := Some (trim_space actor), w_approval_reason := Some (trim_space reason),
             w_updated_at := clock w\<rparr>) (withdrawals (db w)) \<and>
    postings (db w') = postings (db w)"
  using in_tx_Inr [OF assms]
  by (auto elim!: effect_ApproveWithdrawalE effect_emitE dest!: effect_transition)

definition sample_awaiting :: database where
  "sample_awaiting =
     (posted sample ''u1'' ''u2'' ''u3'' withdrawalHoldCauseType ''k2'' ''A-av-baseeth'' ''A-ho-baseeth'' 700 10)
     \<lparr>withdrawals := [(new_withdrawal_row ''w1'' sample_withdrawal 700
        WithdrawalStatusAwaitingApproval ''u1'' 10)]\<rparr>"

definition sample_broadcast :: database where
  "sample_broadcast = sample_awaiting
     \<lparr>withdrawals := [(new_withdrawal_row ''w1'' sample_withdrawal 700
        WithdrawalStatusBroadcast ''u1'' 10)\<lparr>w_tx_hash := Some ''0xaa'', w_nonce := Some 0\<rparr>]\<rparr>"

definition later_world :: "database \<Rightarrow> database world" where
  "later_world d = \<lparr>db = d, uuids = [''v1'', ''v2'', ''v3'', ''v4'', ''v5''], clock = 20, outcomes = [],
     wire = []\<rparr>"

lemma sample_approval_fst:
  "isl (fst (in_tx (ApproveWithdrawal_Execute ''w1'' '' eve '' ''ok'') (later_world sample_awaiting))) =
     False"
  by code_simp

theorem approval_exact_witness:
  "trim_space '' eve '' \<noteq> [] \<and>
   (\<exists>x\<in>set (withdrawals sample_awaiting). w_id x = ''w1'' \<and> w_status x = WithdrawalStatusAwaitingApproval) \<and>
   postings (db (snd (in_tx (ApproveWithdrawal_Execute ''w1'' '' eve '' ''ok'') (later_world sample_awaiting))))
     = postings sample_awaiting"
proof -
  from succeeded_pair [OF sample_approval_fst] obtain wi where
    "in_tx (ApproveWithdrawal_Execute ''w1'' '' eve '' ''ok'') (later_world sample_awaiting) =
      (Inr wi, snd (in_tx (ApproveWithdrawal_Execute ''w1'' '' eve '' ''ok'') (later_world sample_awaiting)))"
    by blast
  from approval_exact [OF this] show ?thesis
    by (simp add: later_world_def)
qed

text \<open>C7: confirming a broadcast withdrawal pays it out: its amount leaves the customer's hold
  account for the treasury of the pair, no other balance changes, and the row becomes confirmed.\<close>

theorem settle_confirmed_exact:
  assumes "in_tx (SettleConfirmedWithdrawal i) w = (Inr u, w')" "accounts_ok (db w)"
  shows "\<exists>x ho tr. x \<in> set (withdrawals (db w)) \<and> w_id x = i \<and>
    w_status x = WithdrawalStatusBroadcast \<and>
    account_of (db w) (Some (w_customer_id x)) (w_chain x) (w_asset x) AccountTypeHold = Some ho \<and>
    account_of (db w) None (w_chain x) (w_asset x) AccountTypeTreasury = Some tr \<and>
    balance (db w') ho = balance (db w) ho - w_amount x \<and>
    balance (db w') tr = balance (db w) tr + w_amount x \<and>
    (\<forall>z. z \<noteq> ho \<and> z \<noteq> tr \<longrightarrow> balance (db w') z = balance (db w) z) \<and>
    withdrawals (db w') = modify (\<lambda>r. w_id r = i \<and> w_status r = WithdrawalStatusBroadcast)
      (\<lambda>r. r\<lparr>w_status := WithdrawalStatusConfirmed, w_updated_at := clock w\<rparr>) (withdrawals (db w))"
  using settle_balances [OF in_tx_Inr [OF assms(1), unfolded SettleConfirmedWithdrawal_def] assms(2)]
  by simp

lemma sample_confirmed_fst:
  "isl (fst (in_tx (SettleConfirmedWithdrawal ''w1'') (later_world sample_broadcast))) = False"
  by code_simp

lemma sample_failed_fst:
  "isl (fst (in_tx (SettleFailedWithdrawal ''w1'') (later_world sample_broadcast))) = False"
  by code_simp

lemma sample_broadcast_accounts_ok: "accounts_ok sample_broadcast"
  by code_simp

theorem settle_confirmed_exact_witness:
  "\<exists>x ho tr. x \<in> set (withdrawals sample_broadcast) \<and> w_id x = ''w1'' \<and>
    account_of sample_broadcast (Some (w_customer_id x)) (w_chain x) (w_asset x) AccountTypeHold =
      Some ho \<and>
    account_of sample_broadcast None (w_chain x) (w_asset x) AccountTypeTreasury = Some tr \<and>
    balance (db (snd (in_tx (SettleConfirmedWithdrawal ''w1'') (later_world sample_broadcast)))) tr =
      balance sample_broadcast tr + w_amount x"
proof -
  from succeeded_pair [OF sample_confirmed_fst] obtain u where
    "in_tx (SettleConfirmedWithdrawal ''w1'') (later_world sample_broadcast) =
      (Inr u, snd (in_tx (SettleConfirmedWithdrawal ''w1'') (later_world sample_broadcast)))"
    by blast
  from settle_confirmed_exact [OF this] sample_broadcast_accounts_ok show ?thesis
    by (auto simp: later_world_def)
qed

text \<open>C8: failing a broadcast withdrawal releases its hold: its amount returns to the customer's
  available account, no other balance changes, and the row becomes failed.\<close>

theorem settle_failed_exact:
  assumes "in_tx (SettleFailedWithdrawal i) w = (Inr u, w')" "accounts_ok (db w)"
  shows "\<exists>x ho av. x \<in> set (withdrawals (db w)) \<and> w_id x = i \<and>
    w_status x = WithdrawalStatusBroadcast \<and>
    account_of (db w) (Some (w_customer_id x)) (w_chain x) (w_asset x) AccountTypeHold = Some ho \<and>
    account_of (db w) (Some (w_customer_id x)) (w_chain x) (w_asset x) AccountTypeAvailable = Some av \<and>
    balance (db w') ho = balance (db w) ho - w_amount x \<and>
    balance (db w') av = balance (db w) av + w_amount x \<and>
    (\<forall>z. z \<noteq> ho \<and> z \<noteq> av \<longrightarrow> balance (db w') z = balance (db w) z) \<and>
    withdrawals (db w') = modify (\<lambda>r. w_id r = i \<and> w_status r = WithdrawalStatusBroadcast)
      (\<lambda>r. r\<lparr>w_status := WithdrawalStatusFailed, w_updated_at := clock w\<rparr>) (withdrawals (db w))"
  using settle_balances [OF in_tx_Inr [OF assms(1), unfolded SettleFailedWithdrawal_def] assms(2)]
  by simp

theorem settle_failed_exact_witness:
  "\<exists>x ho av. x \<in> set (withdrawals sample_broadcast) \<and> w_id x = ''w1'' \<and>
    account_of sample_broadcast (Some (w_customer_id x)) (w_chain x) (w_asset x) AccountTypeHold =
      Some ho \<and>
    account_of sample_broadcast (Some (w_customer_id x)) (w_chain x) (w_asset x) AccountTypeAvailable =
      Some av \<and>
    balance (db (snd (in_tx (SettleFailedWithdrawal ''w1'') (later_world sample_broadcast)))) av =
      balance sample_broadcast av + w_amount x"
proof -
  from succeeded_pair [OF sample_failed_fst] obtain u where
    "in_tx (SettleFailedWithdrawal ''w1'') (later_world sample_broadcast) =
      (Inr u, snd (in_tx (SettleFailedWithdrawal ''w1'') (later_world sample_broadcast)))"
    by blast
  from settle_failed_exact [OF this] sample_broadcast_accounts_ok show ?thesis
    by (auto simp: later_world_def)
qed

end
