(* ===== verification/Broadcast.thy ===== *)
theory Broadcast
  imports Withdrawals
begin

text \<open>
  The broadcaster: nonce allocation, signing, sending, receipts and the stuck alert.  Repository
  methods of \<^verbatim>\<open>postgres/withdrawal_repo.go\<close> first, then the use cases
  \<^verbatim>\<open>core/sign_and_broadcast_withdrawal.go\<close>, \<^verbatim>\<open>core/poll_withdrawal_receipts.go\<close> and
  \<^verbatim>\<open>core/detect_stuck_withdrawals.go\<close>, then one tick of \<^verbatim>\<open>runBroadcaster\<close> in
  \<^verbatim>\<open>cmd/walletd/main.go\<close>.

  The ports \<^verbatim>\<open>Signer\<close> and \<^verbatim>\<open>TransactionBroadcaster\<close> (go-ethereum, AWS KMS, the RPC node) are the
  record \<open>ports\<close>.  One call of a use case asks each port at most once per argument, so a call gets
  one record; two calls may get different ones, which is how a node, or a non-deterministic signer,
  changes its answers.  Every raw transaction handed to a node is appended to \<open>wire\<close>.
\<close>

subsection \<open>Ports\<close>

record ports =
  BuildUnsignedWithdrawal ::
    "chain \<Rightarrow> asset \<Rightarrow> int \<Rightarrow> address \<Rightarrow> int \<Rightarrow> error + byte list \<times> byte list"
  Sign :: "chain \<Rightarrow> byte list \<Rightarrow> error + byte list"
  AssembleSignedTx :: "byte list \<Rightarrow> byte list \<Rightarrow> error + byte list \<times> string"
  SendRawTransaction :: "chain \<Rightarrow> byte list \<Rightarrow> string option"
  GetFinalizedReceipt :: "chain \<Rightarrow> string \<Rightarrow> error + bool \<times> bool"

subsection \<open>ClaimApprovedWithdrawal\<close>

definition next_approved :: "database \<Rightarrow> chain \<Rightarrow> withdrawal_row option" where
  "next_approved d ch =
     (case sort_key (\<lambda>r. (w_created_at r, w_id r))
             (filter (\<lambda>r. w_chain r = ch \<and> w_status r = WithdrawalStatusApproved) (withdrawals d)) of
        [] \<Rightarrow> None | r # _ \<Rightarrow> Some r)"

definition allocate_nonce :: "chain \<Rightarrow> time \<Rightarrow> int db_m" where
  "allocate_nonce ch now =
     bindm (query (\<lambda>d. select_first (\<lambda>r. n_chain r = ch) (chain_nonce_state d))) (\<lambda>row.
     (case row of
        None \<Rightarrow> raise ErrNoChainNonceState
      | Some r \<Rightarrow>
     bindm (stmt (update_nonces (\<lambda>x. n_chain x = ch)
       (\<lambda>x. x\<lparr>n_next_nonce := n_next_nonce x + 1, n_updated_at := now\<rparr>))) (\<lambda>n.
     bindm (guardm (n \<noteq> 0) (ErrText ''advance chain nonce state: no row updated'')) (\<lambda>_.
     ret (n_next_nonce r)))))"

definition ClaimApprovedWithdrawal :: "chain \<Rightarrow> withdrawal option db_m" where
  "ClaimApprovedWithdrawal ch =
     bindm (query (\<lambda>d. next_approved d ch)) (\<lambda>row.
     (case row of
        None \<Rightarrow> ret None
      | Some r \<Rightarrow>
     bindm time_now (\<lambda>now.
     bindm (allocate_nonce ch now) (\<lambda>nextNonce.
     bindm newUUIDv7 (\<lambda>attemptID.
     bindm (stmt (insert_broadcast_attempt
       \<lparr>b_id = attemptID, b_withdrawal_id = w_id r, b_chain = ch, b_nonce = nextNonce,
        b_tx_hash = None, b_signed_tx = None, b_created_at = now\<rparr>)) (\<lambda>_.
     bindm (transition (w_id r) WithdrawalStatusApproved
       (\<lambda>x. x\<lparr>w_status := WithdrawalStatusSigned, w_nonce := Some nextNonce, w_updated_at := now\<rparr>)
       (ErrText ''status changed concurrently while claiming'')) (\<lambda>_.
     ret (Some (empty_withdrawal\<lparr>wi_id := w_id r, wi_customer_id := w_customer_id r, wi_chain := ch,
       wi_asset := w_asset r, wi_amount := w_amount r,
       wi_destination_address := w_destination_address r, wi_status := WithdrawalStatusSigned,
       wi_created_at := w_created_at r, wi_nonce := Some nextNonce\<rparr>)))))))))"

subsection \<open>RecordSignedTx and MarkBroadcast\<close>

definition RecordSignedTx :: "uuid \<Rightarrow> string \<Rightarrow> string \<Rightarrow> unit db_m" where
  "RecordSignedTx i txHash signedTxHex =
     bindm (lock_withdrawal i) (\<lambda>r.
     if w_status r \<noteq> WithdrawalStatusSigned then raise ErrWithdrawalNotSigned else
     bindm (stmt (update_attempts (\<lambda>b. b_withdrawal_id b = i)
       (\<lambda>b. b\<lparr>b_tx_hash := Some txHash, b_signed_tx := Some signedTxHex\<rparr>))) (\<lambda>n.
     guardm (n \<noteq> 0) (ErrText ''no broadcast_attempts row found'')))"

definition MarkBroadcast :: "uuid \<Rightarrow> unit db_m" where
  "MarkBroadcast i =
     bindm (lock_withdrawal i) (\<lambda>r.
     if w_status r \<noteq> WithdrawalStatusSigned then raise ErrWithdrawalNotSigned else
     bindm (query (\<lambda>d. select_first (\<lambda>b. b_withdrawal_id b = i) (broadcast_attempts d))) (\<lambda>row.
     (case row of
        None \<Rightarrow> raise (ErrText ''no broadcast_attempts row found'')
      | Some b \<Rightarrow>
     (case b_tx_hash b of
        None \<Rightarrow> raise (ErrText ''tx_hash not yet recorded'')
      | Some txHash \<Rightarrow>
     if txHash = [] then raise (ErrText ''tx_hash not yet recorded'') else
     bindm time_now (\<lambda>now.
     transition i WithdrawalStatusSigned
       (\<lambda>x. x\<lparr>w_status := WithdrawalStatusBroadcast, w_tx_hash := Some txHash, w_updated_at := now\<rparr>)
       ErrWithdrawalNotSigned)))))"

subsection \<open>Listings\<close>

definition listSignedWithdrawalsBatchLimit :: nat where
  "listSignedWithdrawalsBatchLimit = 50"

text \<open>The join of withdrawals and attempts, oldest withdrawal first.\<close>

definition joined_attempts ::
    "(withdrawal_row \<Rightarrow> attempt_row \<Rightarrow> bool) \<Rightarrow> database \<Rightarrow> (withdrawal_row \<times> attempt_row) list" where
  "joined_attempts p d =
     sort_key (\<lambda>(w, b). (w_created_at w, w_id w))
       [(w, b). w \<leftarrow> withdrawals d, b \<leftarrow> broadcast_attempts d, b_withdrawal_id b = w_id w \<and> p w b]"

definition decode_signed_tx :: "string option \<Rightarrow> byte list option" where
  "decode_signed_tx s =
     (case s of
        None \<Rightarrow> Some []
      | Some h \<Rightarrow> if h = [] then Some [] else hex_decode (trim_prefix ''0x'' h))"

text \<open>One row of the listing; a row whose bytes do not decode is skipped.\<close>

definition signed_withdrawal :: "chain \<Rightarrow> withdrawal_row \<times> attempt_row \<Rightarrow> withdrawal option" where
  "signed_withdrawal ch wb =
     (case wb of (w, b) \<Rightarrow>
       (case decode_signed_tx (b_signed_tx b) of
          None \<Rightarrow> None
        | Some signedTx \<Rightarrow>
            Some (empty_withdrawal\<lparr>wi_id := w_id w, wi_customer_id := w_customer_id w, wi_chain := ch,
              wi_asset := w_asset w, wi_amount := w_amount w,
              wi_destination_address := w_destination_address w,
              wi_status := WithdrawalStatusSigned, wi_created_at := w_created_at w,
              wi_nonce := Some (b_nonce b),
              wi_tx_hash := (case b_tx_hash b of None \<Rightarrow> [] | Some h \<Rightarrow> h),
              wi_signed_tx := signedTx\<rparr>)))"

definition ListSignedWithdrawals :: "chain \<Rightarrow> withdrawal list db_m" where
  "ListSignedWithdrawals ch =
     query (\<lambda>d. List.map_filter (signed_withdrawal ch)
       (take listSignedWithdrawalsBatchLimit
         (joined_attempts (\<lambda>w b. w_chain w = ch \<and> w_status w = WithdrawalStatusSigned) d)))"

definition broadcast_rows :: "database \<Rightarrow> chain \<Rightarrow> withdrawal_row list" where
  "broadcast_rows d ch =
     sort_key w_created_at
       (filter (\<lambda>w. w_chain w = ch \<and> w_status w = WithdrawalStatusBroadcast \<and> w_tx_hash w \<noteq> None)
         (withdrawals d))"

text \<open>Scanning a NULL nonce into an \<^verbatim>\<open>int64\<close> is an error.\<close>

definition ListBroadcastWithdrawals :: "chain \<Rightarrow> withdrawal list db_m" where
  "ListBroadcastWithdrawals ch =
     bindm (query (\<lambda>d. broadcast_rows d ch)) (\<lambda>rows.
     mapm (\<lambda>w. (case w_nonce w of
         None \<Rightarrow> raise (ErrText ''scan broadcast withdrawal'')
       | Some n \<Rightarrow>
           ret (empty_withdrawal\<lparr>wi_id := w_id w, wi_customer_id := w_customer_id w, wi_chain := ch,
             wi_asset := w_asset w, wi_amount := w_amount w,
             wi_destination_address := w_destination_address w,
             wi_status := WithdrawalStatusBroadcast, wi_created_at := w_created_at w,
             wi_tx_hash := (case w_tx_hash w of None \<Rightarrow> [] | Some h \<Rightarrow> h), wi_nonce := Some n\<rparr>)))
       rows)"

subsection \<open>Stuck withdrawals\<close>

definition withdrawalStuckEventType :: string where
  "withdrawalStuckEventType = ''withdrawal.stuck''"

definition status_text :: "withdrawal_status \<Rightarrow> string" where
  "status_text s =
     (case s of
        WithdrawalStatusCreated \<Rightarrow> ''created''
      | WithdrawalStatusAwaitingApproval \<Rightarrow> ''awaiting-approval''
      | WithdrawalStatusApproved \<Rightarrow> ''approved''
      | WithdrawalStatusSigned \<Rightarrow> ''signed''
      | WithdrawalStatusBroadcast \<Rightarrow> ''broadcast''
      | WithdrawalStatusConfirmed \<Rightarrow> ''confirmed''
      | WithdrawalStatusFailed \<Rightarrow> ''failed'')"

definition withdrawalStuckPayload :: "uuid \<Rightarrow> withdrawal_row \<Rightarrow> string \<Rightarrow> payload" where
  "withdrawalStuckPayload i r txHash =
     [(''withdrawalId'', JString i), (''customerId'', JString (w_customer_id r)),
      (''chain'', JString (w_chain r)), (''asset'', JString (w_asset r)),
      (''amount'', JMoney (w_amount r)), (''destinationAddress'', JString (w_destination_address r)),
      (''status'', JString (status_text (w_status r))), (''txHash'', JString txHash)]"

definition stuck_candidate :: "chain \<Rightarrow> time \<Rightarrow> withdrawal_row \<Rightarrow> attempt_row \<Rightarrow> bool" where
  "stuck_candidate ch cutoff w b \<longleftrightarrow>
     w_chain w = ch \<and> w_stuck_alerted_at w = None \<and>
     ((w_status w = WithdrawalStatusSigned \<and> b_created_at b < cutoff) \<or>
      (w_status w = WithdrawalStatusBroadcast \<and> w_updated_at w < cutoff))"

definition ListStuckCandidates :: "chain \<Rightarrow> time \<Rightarrow> withdrawal list db_m" where
  "ListStuckCandidates ch olderThan =
     bindm time_now (\<lambda>now.
     query (\<lambda>d. map (\<lambda>(w, b).
       empty_withdrawal\<lparr>wi_id := w_id w, wi_customer_id := w_customer_id w, wi_chain := ch,
         wi_asset := w_asset w, wi_amount := w_amount w,
         wi_destination_address := w_destination_address w, wi_status := w_status w,
         wi_created_at := w_created_at w,
         wi_tx_hash := (case w_tx_hash w of None \<Rightarrow> [] | Some h \<Rightarrow> h),
         wi_nonce := Some (b_nonce b)\<rparr>)
       (joined_attempts (stuck_candidate ch (now - olderThan)) d)))"

definition MarkStuckAlerted :: "uuid \<Rightarrow> unit db_m" where
  "MarkStuckAlerted i =
     bindm (lock_withdrawal i) (\<lambda>r.
     if w_stuck_alerted_at r \<noteq> None then raise (ErrText ''already marked stuck-alerted'') else
     bindm time_now (\<lambda>now.
     bindm (stmt (update_withdrawals (\<lambda>x. w_id x = i \<and> w_stuck_alerted_at x = None)
       (\<lambda>x. x\<lparr>w_stuck_alerted_at := Some now\<rparr>))) (\<lambda>n.
     bindm (guardm (n \<noteq> 0) (ErrText ''already marked stuck-alerted'')) (\<lambda>_.
     emit withdrawalStuckEventType
       (withdrawalStuckPayload i r (case w_tx_hash r of None \<Rightarrow> [] | Some h \<Rightarrow> h)) now))))"

subsection \<open>SignAndBroadcastWithdrawal\<close>

definition isAlreadyKnownError :: "string \<Rightarrow> bool" where
  "isAlreadyKnownError msg =
     (let m = to_lower msg in str_contains m ''already known'' \<or> str_contains m ''nonce too low'')"

text \<open>Handing the bytes to a node: they may be on the network whatever the answer is.\<close>

definition send_raw :: "ports \<Rightarrow> chain \<Rightarrow> byte list \<Rightarrow> string option db_m" where
  "send_raw ps ch bs = (\<lambda>w. (Inr (SendRawTransaction ps ch bs), w\<lparr>wire := wire w @ [(ch, bs)]\<rparr>))"

definition sendAndFinalize :: "ports \<Rightarrow> chain \<Rightarrow> withdrawal \<Rightarrow> unit db_m" where
  "sendAndFinalize ps ch wi =
     bindm (send_raw ps ch (wi_signed_tx wi)) (\<lambda>sendErr.
     (case sendErr of
        None \<Rightarrow> in_tx (MarkBroadcast (wi_id wi))
      | Some msg \<Rightarrow>
          if isAlreadyKnownError msg then in_tx (MarkBroadcast (wi_id wi))
          else raise (ErrText msg)))"

definition signAndSend :: "ports \<Rightarrow> chain \<Rightarrow> withdrawal \<Rightarrow> unit db_m" where
  "signAndSend ps ch wi =
     bindm (deref (wi_nonce wi)) (\<lambda>nonce.
     bindm (lift_result (BuildUnsignedWithdrawal ps ch (wi_asset wi) nonce
              (wi_destination_address wi) (wi_amount wi))) (\<lambda>(digest, unsignedTx).
     bindm (lift_result (Sign ps ch digest)) (\<lambda>signature.
     bindm (lift_result (AssembleSignedTx ps unsignedTx signature)) (\<lambda>(signedTx, txHash).
     bindm (in_tx (RecordSignedTx (wi_id wi) txHash (hex_encode signedTx))) (\<lambda>_.
     sendAndFinalize ps ch (wi\<lparr>wi_signed_tx := signedTx, wi_tx_hash := txHash\<rparr>))))))"

text \<open>The result is \<^verbatim>\<open>(claimed, err)\<close>.\<close>

definition as_claimed :: "(error + unit) \<times> database world \<Rightarrow> (bool \<times> error option) \<times> database world" where
  "as_claimed r = (case r of (Inl e, w) \<Rightarrow> ((True, Some e), w) | (Inr _, w) \<Rightarrow> ((True, None), w))"

definition resume_signed ::
    "ports \<Rightarrow> chain \<Rightarrow> withdrawal \<Rightarrow> database world \<Rightarrow> (bool \<times> error option) \<times> database world" where
  "resume_signed ps ch wi w =
     (if wi_nonce wi = None
      then ((False, Some (ErrText ''listed signed withdrawal with no nonce allocated'')), w)
      else if wi_signed_tx wi \<noteq> [] then as_claimed (sendAndFinalize ps ch wi w)
      else as_claimed (signAndSend ps ch wi w))"

definition claim_checked :: "chain \<Rightarrow> withdrawal option db_m" where
  "claim_checked ch =
     in_tx_when (\<lambda>c. c \<noteq> None)
       (bindm (ClaimApprovedWithdrawal ch) (\<lambda>c.
        (case c of
           None \<Rightarrow> ret None
         | Some wi \<Rightarrow>
             if wi_nonce wi = None
             then raise (ErrText ''claimed withdrawal with no nonce allocated'')
             else ret (Some wi))))"

definition claim_fresh ::
    "ports \<Rightarrow> chain \<Rightarrow> database world \<Rightarrow> (bool \<times> error option) \<times> database world" where
  "claim_fresh ps ch w =
     (case claim_checked ch w of
        (Inl e, w') \<Rightarrow> ((False, Some e), w')
      | (Inr None, w') \<Rightarrow> ((False, None), w')
      | (Inr (Some wi), w') \<Rightarrow> as_claimed (signAndSend ps ch wi w'))"

definition SignAndBroadcast_Execute ::
    "ports \<Rightarrow> chain \<Rightarrow> bool \<Rightarrow> database world \<Rightarrow> (bool \<times> error option) \<times> database world" where
  "SignAndBroadcast_Execute ps ch allowClaim w =
     (case read_tx (ListSignedWithdrawals ch) w of
        (Inl e, w') \<Rightarrow> ((False, Some e), w')
      | (Inr (wi # _), w') \<Rightarrow> resume_signed ps ch wi w'
      | (Inr [], w') \<Rightarrow> if \<not> allowClaim then ((False, None), w') else claim_fresh ps ch w')"

subsection \<open>PollWithdrawalReceipts\<close>

record poll_result =
  pr_checked :: nat
  pr_confirmed :: nat
  pr_failed :: nat
  pr_errs :: "error list"

definition settle_one ::
    "ports \<Rightarrow> chain \<Rightarrow> withdrawal \<Rightarrow> poll_result \<Rightarrow> database world \<Rightarrow> poll_result \<times> database world" where
  "settle_one ps ch wi r w =
     (case GetFinalizedReceipt ps ch (wi_tx_hash wi) of
        Inl e \<Rightarrow> (r\<lparr>pr_errs := pr_errs r @ [e]\<rparr>, w)
      | Inr (found, success) \<Rightarrow>
          if \<not> found then (r, w)
          else if success then
            (case in_tx (SettleConfirmedWithdrawal (wi_id wi)) w of
               (Inl e, w') \<Rightarrow> (r\<lparr>pr_errs := pr_errs r @ [e]\<rparr>, w')
             | (Inr _, w') \<Rightarrow> (r\<lparr>pr_confirmed := pr_confirmed r + 1\<rparr>, w'))
          else
            (case in_tx (SettleFailedWithdrawal (wi_id wi)) w of
               (Inl e, w') \<Rightarrow> (r\<lparr>pr_errs := pr_errs r @ [e]\<rparr>, w')
             | (Inr _, w') \<Rightarrow> (r\<lparr>pr_failed := pr_failed r + 1\<rparr>, w')))"

fun settle_all ::
    "ports \<Rightarrow> chain \<Rightarrow> withdrawal list \<Rightarrow> poll_result \<Rightarrow> database world \<Rightarrow> poll_result \<times> database world" where
  "settle_all ps ch [] r w = (r, w)"
| "settle_all ps ch (wi # wis) r w =
     (case settle_one ps ch wi (r\<lparr>pr_checked := pr_checked r + 1\<rparr>) w of
        (r', w') \<Rightarrow> settle_all ps ch wis r' w')"

definition PollReceipts_Execute ::
    "ports \<Rightarrow> chain \<Rightarrow> database world \<Rightarrow> poll_result \<times> database world" where
  "PollReceipts_Execute ps ch w =
     (case read_tx (ListBroadcastWithdrawals ch) w of
        (Inl e, w') \<Rightarrow> (\<lparr>pr_checked = 0, pr_confirmed = 0, pr_failed = 0, pr_errs = [e]\<rparr>, w')
      | (Inr wis, w') \<Rightarrow>
          settle_all ps ch wis \<lparr>pr_checked = 0, pr_confirmed = 0, pr_failed = 0, pr_errs = []\<rparr> w')"

subsection \<open>DetectStuckWithdrawals\<close>

record stuck_result =
  sk_checked :: nat
  sk_alerted :: nat
  sk_errs :: "error list"

fun alert_all :: "withdrawal list \<Rightarrow> stuck_result \<Rightarrow> database world \<Rightarrow> stuck_result \<times> database world" where
  "alert_all [] r w = (r, w)"
| "alert_all (wi # wis) r w =
     (case in_tx (MarkStuckAlerted (wi_id wi)) w of
        (Inl e, w') \<Rightarrow> alert_all wis (r\<lparr>sk_checked := sk_checked r + 1, sk_errs := sk_errs r @ [e]\<rparr>) w'
      | (Inr _, w') \<Rightarrow>
          alert_all wis (r\<lparr>sk_checked := sk_checked r + 1, sk_alerted := sk_alerted r + 1\<rparr>) w')"

definition DetectStuck_Execute :: "chain \<Rightarrow> time \<Rightarrow> database world \<Rightarrow> stuck_result \<times> database world" where
  "DetectStuck_Execute ch olderThan w =
     (case read_tx (ListStuckCandidates ch olderThan) w of
        (Inl e, w') \<Rightarrow> (\<lparr>sk_checked = 0, sk_alerted = 0, sk_errs = [e]\<rparr>, w')
      | (Inr wis, w') \<Rightarrow> alert_all wis \<lparr>sk_checked = 0, sk_alerted = 0, sk_errs = []\<rparr> w')"

subsection \<open>A tick of the broadcaster process\<close>

text \<open>\<^verbatim>\<open>WatcherLiveness.IsLive\<close>.\<close>

definition IsLive :: "chain \<Rightarrow> time \<Rightarrow> bool db_m" where
  "IsLive ch staleAfter =
     bindm time_now (\<lambda>now.
     query (\<lambda>d.
       (case map wc_updated_at (filter (\<lambda>r. wc_chain r = ch \<and> wc_tier r = CursorTierObserved)
               (watcher_cursors d)) of
          [] \<Rightarrow> False
        | t # ts \<Rightarrow> now - foldr max ts t \<le> staleAfter)))"

text \<open>The drain loop: until nothing is left to do or a call fails.  The fuel bounds the number of
  iterations; \<open>drain_returns\<close> shows how much is enough.\<close>

fun drain ::
    "nat \<Rightarrow> (nat \<Rightarrow> ports) \<Rightarrow> chain \<Rightarrow> bool \<Rightarrow> nat \<Rightarrow> database world \<Rightarrow>
     (nat \<times> error option \<times> database world) option" where
  "drain 0 pss ch live k w = None"
| "drain (Suc fuel) pss ch live k w =
     (case SignAndBroadcast_Execute (pss k) ch live w of
        ((claimed, err), w') \<Rightarrow>
          if err \<noteq> None then Some (k, err, w')
          else if \<not> claimed then Some (k, None, w')
          else drain fuel pss ch live (Suc k) w')"

definition broadcaster_tick ::
    "nat \<Rightarrow> (nat \<Rightarrow> ports) \<Rightarrow> chain \<Rightarrow> time \<Rightarrow> time \<Rightarrow> database world \<Rightarrow>
     (nat \<times> poll_result \<times> stuck_result \<times> database world) option" where
  "broadcaster_tick fuel pss ch staleAfter stuckThreshold w =
     (case IsLive ch staleAfter w of
        (r, w1) \<Rightarrow>
          let live = (case r of Inl _ \<Rightarrow> False | Inr l \<Rightarrow> l) in
          (case drain fuel pss ch live 0 w1 of
             None \<Rightarrow> None
           | Some (claimedCount, _, w2) \<Rightarrow>
               (case PollReceipts_Execute (pss (Suc claimedCount)) ch w2 of
                  (result, w3) \<Rightarrow>
                    (case DetectStuck_Execute ch stuckThreshold w3 of
                       (stuckResult, w4) \<Rightarrow> Some (claimedCount, result, stuckResult, w4)))))"

subsection \<open>The state of the pipeline\<close>

text \<open>A withdrawal past approval.\<close>

definition claimed_status :: "withdrawal_status \<Rightarrow> bool" where
  "claimed_status s \<longleftrightarrow> s = WithdrawalStatusSigned \<or> s = WithdrawalStatusBroadcast \<or>
     s = WithdrawalStatusConfirmed \<or> s = WithdrawalStatusFailed"

text \<open>The attempts of a chain carry the nonces 0, 1, ... in order, without a gap, up to the next
  nonce of the chain.\<close>

definition nonces_ok :: "database \<Rightarrow> bool" where
  "nonces_ok d \<longleftrightarrow>
     (\<forall>n\<in>set (chain_nonce_state d). 0 \<le> n_next_nonce n \<and>
        map b_nonce (filter (\<lambda>b. b_chain b = n_chain n) (broadcast_attempts d)) =
          map int [0..<nat (n_next_nonce n)]) \<and>
     (\<forall>b\<in>set (broadcast_attempts d). b_chain b \<in> n_chain ` set (chain_nonce_state d))"

text \<open>A withdrawal past approval has an attempt, on its chain and with its nonce, and once it is
  past signing with its transaction hash; one before has none.\<close>

definition attempt_of :: "database \<Rightarrow> withdrawal_row \<Rightarrow> attempt_row \<Rightarrow> bool" where
  "attempt_of d w b \<longleftrightarrow> b \<in> set (broadcast_attempts d) \<and> b_withdrawal_id b = w_id w \<and>
     b_chain b = w_chain w \<and> w_nonce w = Some (b_nonce b) \<and>
     (w_status w \<noteq> WithdrawalStatusSigned \<longrightarrow> b_tx_hash b \<noteq> None \<and> w_tx_hash w = b_tx_hash b)"

definition attempts_match :: "database \<Rightarrow> bool" where
  "attempts_match d \<longleftrightarrow>
     (\<forall>w\<in>set (withdrawals d).
        if claimed_status (w_status w) then \<exists>b\<in>set (broadcast_attempts d). attempt_of d w b
        else w_id w \<notin> b_withdrawal_id ` set (broadcast_attempts d))"

definition pipeline_ok :: "database \<Rightarrow> bool" where
  "pipeline_ok d \<longleftrightarrow> nonces_ok d \<and> attempts_match d"

lemma attempt_of_frame [simp]:
  "attempt_of (d\<lparr>customers := x1\<rparr>) = attempt_of d"
  "attempt_of (d\<lparr>accounts := x2\<rparr>) = attempt_of d"
  "attempt_of (d\<lparr>idempotency_keys := x3\<rparr>) = attempt_of d"
  "attempt_of (d\<lparr>journal_entries := x4\<rparr>) = attempt_of d"
  "attempt_of (d\<lparr>postings := x5\<rparr>) = attempt_of d"
  "attempt_of (d\<lparr>deposit_addresses := x6\<rparr>) = attempt_of d"
  "attempt_of (d\<lparr>deposits := x7\<rparr>) = attempt_of d"
  "attempt_of (d\<lparr>watcher_cursors := x8\<rparr>) = attempt_of d"
  "attempt_of (d\<lparr>outbox_events := x9\<rparr>) = attempt_of d"
  "attempt_of (d\<lparr>crediting_policy := x10\<rparr>) = attempt_of d"
  "attempt_of (d\<lparr>token_registry := x11\<rparr>) = attempt_of d"
  "attempt_of (d\<lparr>unsupported_token_observations := x12\<rparr>) = attempt_of d"
  "attempt_of (d\<lparr>withdrawals := x13\<rparr>) = attempt_of d"
  "attempt_of (d\<lparr>withdrawal_approval_thresholds := x14\<rparr>) = attempt_of d"
  "attempt_of (d\<lparr>chain_nonce_state := x15\<rparr>) = attempt_of d"
  by (simp_all add: fun_eq_iff attempt_of_def)

lemma nonces_ok_frame [simp]:
  "nonces_ok (d\<lparr>customers := x1\<rparr>) = nonces_ok d"
  "nonces_ok (d\<lparr>accounts := x2\<rparr>) = nonces_ok d"
  "nonces_ok (d\<lparr>idempotency_keys := x3\<rparr>) = nonces_ok d"
  "nonces_ok (d\<lparr>journal_entries := x4\<rparr>) = nonces_ok d"
  "nonces_ok (d\<lparr>postings := x5\<rparr>) = nonces_ok d"
  "nonces_ok (d\<lparr>deposit_addresses := x6\<rparr>) = nonces_ok d"
  "nonces_ok (d\<lparr>deposits := x7\<rparr>) = nonces_ok d"
  "nonces_ok (d\<lparr>watcher_cursors := x8\<rparr>) = nonces_ok d"
  "nonces_ok (d\<lparr>outbox_events := x9\<rparr>) = nonces_ok d"
  "nonces_ok (d\<lparr>crediting_policy := x10\<rparr>) = nonces_ok d"
  "nonces_ok (d\<lparr>token_registry := x11\<rparr>) = nonces_ok d"
  "nonces_ok (d\<lparr>unsupported_token_observations := x12\<rparr>) = nonces_ok d"
  "nonces_ok (d\<lparr>withdrawals := x13\<rparr>) = nonces_ok d"
  "nonces_ok (d\<lparr>withdrawal_approval_thresholds := x14\<rparr>) = nonces_ok d"
  by (simp_all add: nonces_ok_def)

lemma attempts_match_frame [simp]:
  "attempts_match (d\<lparr>customers := x1\<rparr>) = attempts_match d"
  "attempts_match (d\<lparr>accounts := x2\<rparr>) = attempts_match d"
  "attempts_match (d\<lparr>idempotency_keys := x3\<rparr>) = attempts_match d"
  "attempts_match (d\<lparr>journal_entries := x4\<rparr>) = attempts_match d"
  "attempts_match (d\<lparr>postings := x5\<rparr>) = attempts_match d"
  "attempts_match (d\<lparr>deposit_addresses := x6\<rparr>) = attempts_match d"
  "attempts_match (d\<lparr>deposits := x7\<rparr>) = attempts_match d"
  "attempts_match (d\<lparr>watcher_cursors := x8\<rparr>) = attempts_match d"
  "attempts_match (d\<lparr>outbox_events := x9\<rparr>) = attempts_match d"
  "attempts_match (d\<lparr>crediting_policy := x10\<rparr>) = attempts_match d"
  "attempts_match (d\<lparr>token_registry := x11\<rparr>) = attempts_match d"
  "attempts_match (d\<lparr>unsupported_token_observations := x12\<rparr>) = attempts_match d"
  "attempts_match (d\<lparr>withdrawal_approval_thresholds := x14\<rparr>) = attempts_match d"
  "attempts_match (d\<lparr>chain_nonce_state := x15\<rparr>) = attempts_match d"
  by (simp_all add: attempts_match_def)

lemma pipeline_ok_frame [simp]:
  "pipeline_ok (d\<lparr>customers := x1\<rparr>) = pipeline_ok d"
  "pipeline_ok (d\<lparr>accounts := x2\<rparr>) = pipeline_ok d"
  "pipeline_ok (d\<lparr>idempotency_keys := x3\<rparr>) = pipeline_ok d"
  "pipeline_ok (d\<lparr>journal_entries := x4\<rparr>) = pipeline_ok d"
  "pipeline_ok (d\<lparr>postings := x5\<rparr>) = pipeline_ok d"
  "pipeline_ok (d\<lparr>deposit_addresses := x6\<rparr>) = pipeline_ok d"
  "pipeline_ok (d\<lparr>deposits := x7\<rparr>) = pipeline_ok d"
  "pipeline_ok (d\<lparr>watcher_cursors := x8\<rparr>) = pipeline_ok d"
  "pipeline_ok (d\<lparr>outbox_events := x9\<rparr>) = pipeline_ok d"
  "pipeline_ok (d\<lparr>crediting_policy := x10\<rparr>) = pipeline_ok d"
  "pipeline_ok (d\<lparr>token_registry := x11\<rparr>) = pipeline_ok d"
  "pipeline_ok (d\<lparr>unsupported_token_observations := x12\<rparr>) = pipeline_ok d"
  "pipeline_ok (d\<lparr>withdrawal_approval_thresholds := x14\<rparr>) = pipeline_ok d"
  by (simp_all add: pipeline_ok_def)

subsection \<open>Effects of the repository\<close>

lemma quiet_allocate_nonce [simp]: "quiet (allocate_nonce ch now)"
  by (auto simp: allocate_nonce_def split: option.split intro!: quiet_bindm)

lemma quiet_ClaimApprovedWithdrawal [simp]: "quiet (ClaimApprovedWithdrawal ch)"
  by (auto simp: ClaimApprovedWithdrawal_def split: option.split intro!: quiet_bindm)

lemma quiet_RecordSignedTx [simp]: "quiet (RecordSignedTx i h s)"
  by (auto simp: RecordSignedTx_def intro!: quiet_bindm)

lemma quiet_MarkBroadcast [simp]: "quiet (MarkBroadcast i)"
  by (auto simp: MarkBroadcast_def split: option.split intro!: quiet_bindm)

lemma quiet_MarkStuckAlerted [simp]: "quiet (MarkStuckAlerted i)"
  by (auto simp: MarkStuckAlerted_def intro!: quiet_bindm)

lemma quiet_ListSignedWithdrawals [simp]: "quiet (ListSignedWithdrawals ch)"
  by (simp add: ListSignedWithdrawals_def)

lemma quiet_ListBroadcastWithdrawals [simp]: "quiet (ListBroadcastWithdrawals ch)"
  by (auto simp: ListBroadcastWithdrawals_def split: option.split intro!: quiet_bindm quiet_mapm)

lemma quiet_ListStuckCandidates [simp]: "quiet (ListStuckCandidates ch o')"
  by (auto simp: ListStuckCandidates_def intro!: quiet_bindm)

lemma next_approved_Some:
  assumes "next_approved d ch = Some r"
  shows "r \<in> set (withdrawals d)" "w_chain r = ch" "w_status r = WithdrawalStatusApproved"
    "\<forall>x\<in>set (withdrawals d). w_chain x = ch \<and> w_status x = WithdrawalStatusApproved \<longrightarrow>
       (w_created_at r, w_id r) \<le> (w_created_at x, w_id x)"
proof -
  let ?k = "\<lambda>r. (w_created_at r, w_id r)"
  let ?f = "filter (\<lambda>r. w_chain r = ch \<and> w_status r = WithdrawalStatusApproved) (withdrawals d)"
  from assms obtain rs where s: "sort_key ?k ?f = r # rs"
    by (auto simp: next_approved_def split: list.splits)
  then have "r \<in> set ?f"
    using set_sort [of ?k ?f] by (metis list.set_intros(1))
  then show "r \<in> set (withdrawals d)" "w_chain r = ch" "w_status r = WithdrawalStatusApproved"
    by auto
  have "sorted (map ?k (r # rs))"
    using sorted_sort_key [of ?k ?f] s by simp
  then have "?k r \<le> ?k x" if "x \<in> set ?f" for x
    using that set_sort [of ?k ?f] s by (auto simp: less_eq_prod_def)
  then show "\<forall>x\<in>set (withdrawals d). w_chain x = ch \<and> w_status x = WithdrawalStatusApproved \<longrightarrow>
       ?k r \<le> ?k x"
    by simp
qed

lemma effect_allocate_nonceE:
  assumes "effect (allocate_nonce ch now) t d k d'"
  obtains n m where "n \<in> set (chain_nonce_state d)" "n_chain n = ch" "k = n_next_nonce n"
    "update_nonces (\<lambda>x. n_chain x = ch)
       (\<lambda>x. x\<lparr>n_next_nonce := n_next_nonce x + 1, n_updated_at := now\<rparr>) d = Inr (m, d')"
  using assms
  by (auto simp: allocate_nonce_def effect_query effect_stmt effect_guardm effect_ret effect_raise
      split: option.splits elim!: effect_bindmE dest!: select_first_Some)

text \<open>A claim takes the oldest approved withdrawal of the chain and the next nonce.\<close>

lemma effect_ClaimE:
  assumes "effect (ClaimApprovedWithdrawal ch) t d (Some wi) d'"
  obtains r n m aid d1 d2 where
    "next_approved d ch = Some r" "n \<in> set (chain_nonce_state d)" "n_chain n = ch"
    "update_nonces (\<lambda>x. n_chain x = ch)
       (\<lambda>x. x\<lparr>n_next_nonce := n_next_nonce x + 1, n_updated_at := t\<rparr>) d = Inr (m, d1)"
    "insert_broadcast_attempt \<lparr>b_id = aid, b_withdrawal_id = w_id r, b_chain = ch,
       b_nonce = n_next_nonce n, b_tx_hash = None, b_signed_tx = None, b_created_at = t\<rparr> d1 =
       Inr ((), d2)"
    "effect (transition (w_id r) WithdrawalStatusApproved
       (\<lambda>x. x\<lparr>w_status := WithdrawalStatusSigned, w_nonce := Some (n_next_nonce n),
              w_updated_at := t\<rparr>)
       (ErrText ''status changed concurrently while claiming'')) t d2 () d'"
    "wi_id wi = w_id r" "wi_nonce wi = Some (n_next_nonce n)" "wi_signed_tx wi = []"
proof -
  from assms obtain r k aid d1 d2 where
    "next_approved d ch = Some r" and a: "effect (allocate_nonce ch t) t d k d1"
    and "insert_broadcast_attempt \<lparr>b_id = aid, b_withdrawal_id = w_id r, b_chain = ch,
       b_nonce = k, b_tx_hash = None, b_signed_tx = None, b_created_at = t\<rparr> d1 = Inr ((), d2)"
    "effect (transition (w_id r) WithdrawalStatusApproved
       (\<lambda>x. x\<lparr>w_status := WithdrawalStatusSigned, w_nonce := Some k, w_updated_at := t\<rparr>)
       (ErrText ''status changed concurrently while claiming'')) t d2 () d'"
    "wi_id wi = w_id r" "wi_nonce wi = Some k" "wi_signed_tx wi = []"
    by (auto simp: ClaimApprovedWithdrawal_def effect_query effect_stmt effect_ret effect_time_now
        effect_newUUIDv7 empty_withdrawal_def split: option.splits elim!: effect_bindmE)
  with that show thesis
    by (elim effect_allocate_nonceE) auto
qed

lemma effect_RecordSignedTxE:
  assumes "effect (RecordSignedTx i h s) t d u d'"
  obtains r where "r \<in> set (withdrawals d)" "w_id r = i" "w_status r = WithdrawalStatusSigned"
    "\<exists>b\<in>set (broadcast_attempts d). b_withdrawal_id b = i"
    "d' = d\<lparr>broadcast_attempts := modify (\<lambda>b. b_withdrawal_id b = i)
       (\<lambda>b. b\<lparr>b_tx_hash := Some h, b_signed_tx := Some s\<rparr>) (broadcast_attempts d)\<rparr>"
  using assms
  by (auto simp: RecordSignedTx_def effect_raise effect_stmt effect_guardm update_attempts_Inr
      filter_empty_conv split: if_splits elim!: effect_bindmE dest!: effect_lock_withdrawal)

lemma effect_MarkBroadcastE:
  assumes "effect (MarkBroadcast i) t d u d'"
  obtains r b h where "r \<in> set (withdrawals d)" "w_id r = i" "w_status r = WithdrawalStatusSigned"
    "b \<in> set (broadcast_attempts d)" "b_withdrawal_id b = i" "b_tx_hash b = Some h" "h \<noteq> []"
    "effect (transition i WithdrawalStatusSigned
       (\<lambda>x. x\<lparr>w_status := WithdrawalStatusBroadcast, w_tx_hash := Some h, w_updated_at := t\<rparr>)
       ErrWithdrawalNotSigned) t d () d'"
  using assms
  by (auto simp: MarkBroadcast_def effect_raise effect_query effect_time_now
      split: if_splits option.splits elim!: effect_bindmE
      dest!: effect_lock_withdrawal select_first_Some)

lemma effect_MarkStuckAlertedE:
  assumes "effect (MarkStuckAlerted i) t d u d'"
  obtains r n d1 where "r \<in> set (withdrawals d)" "w_id r = i" "w_stuck_alerted_at r = None"
    "update_withdrawals (\<lambda>x. w_id x = i \<and> w_stuck_alerted_at x = None)
       (\<lambda>x. x\<lparr>w_stuck_alerted_at := Some t\<rparr>) d = Inr (n, d1)" "n \<noteq> 0"
    "effect (emit withdrawalStuckEventType (withdrawalStuckPayload i r
       (case w_tx_hash r of None \<Rightarrow> [] | Some h \<Rightarrow> h)) t) t d1 () d'"
  using assms
  by (auto simp: MarkStuckAlerted_def effect_raise effect_stmt effect_guardm effect_time_now
      split: if_splits elim!: effect_bindmE dest!: effect_lock_withdrawal)

subsection \<open>The ledger along the pipeline\<close>

lemma ledger_claim:
  assumes "effect (ClaimApprovedWithdrawal ch) t d (Some wi) d'" "ledger_ok d"
  shows "ledger_ok d'"
  using assms(1)
proof (rule effect_ClaimE)
  fix r n m aid d1 d2
  assume 1: "update_nonces (\<lambda>x. n_chain x = ch)
       (\<lambda>x. x\<lparr>n_next_nonce := n_next_nonce x + 1, n_updated_at := t\<rparr>) d = Inr (m, d1)"
    and 2: "insert_broadcast_attempt \<lparr>b_id = aid, b_withdrawal_id = w_id r, b_chain = ch,
       b_nonce = n_next_nonce n, b_tx_hash = None, b_signed_tx = None, b_created_at = t\<rparr> d1 =
       Inr ((), d2)"
    and 3: "effect (transition (w_id r) WithdrawalStatusApproved
       (\<lambda>x. x\<lparr>w_status := WithdrawalStatusSigned, w_nonce := Some (n_next_nonce n),
              w_updated_at := t\<rparr>)
       (ErrText ''status changed concurrently while claiming'')) t d2 () d'"
  have "schema_ok d1"
    using schema_update_nonces [OF 1] assms(2) by (simp add: ledger_ok_def)
  then have "schema_ok d2"
    using schema_insert_broadcast_attempt [OF 2] by blast
  moreover have "d2 = d\<lparr>chain_nonce_state := chain_nonce_state d2,
      broadcast_attempts := broadcast_attempts d2\<rparr>"
    using 1 2 by (auto simp: m_success insert_broadcast_attempt_def)
  then have "books d2 \<and> entries_balanced d2 \<and> pairs_balanced d2"
    using assms(2) by (metis ledger_ok_def books_frame(11,12) entries_balanced_frame(13,14)
        pairs_balanced_frame(13,14))
  ultimately have "ledger_ok d2"
    by (simp add: ledger_ok_def)
  then show "ledger_ok d'"
    using 3 by (elim effect_transition_update ledger_modify_withdrawals) (auto simp: open_status_def)
qed

lemma ledger_record_signed:
  assumes "effect (RecordSignedTx i h s) t d u d'" "ledger_ok d"
  shows "ledger_ok d'"
  using assms(1)
proof (rule effect_RecordSignedTxE)
  assume d': "d' = d\<lparr>broadcast_attempts := modify (\<lambda>b. b_withdrawal_id b = i)
       (\<lambda>b. b\<lparr>b_tx_hash := Some h, b_signed_tx := Some s\<rparr>) (broadcast_attempts d)\<rparr>"
  then have "update_attempts (\<lambda>b. b_withdrawal_id b = i)
       (\<lambda>b. b\<lparr>b_tx_hash := Some h, b_signed_tx := Some s\<rparr>) d =
       Inr (length (filter (\<lambda>b. b_withdrawal_id b = i) (broadcast_attempts d)), d')"
    by (simp add: m_success)
  then have "schema_ok d'"
    by (rule schema_update_attempts) (use assms(2) in \<open>auto simp: ledger_ok_def\<close>)
  then show ?thesis
    using assms(2) by (simp add: ledger_ok_def d')
qed

lemma ledger_mark_broadcast:
  assumes "effect (MarkBroadcast i) t d u d'" "ledger_ok d"
  shows "ledger_ok d'"
  using assms by (elim effect_MarkBroadcastE effect_transition_update ledger_modify_withdrawals)
    (auto simp: open_status_def)

lemma ledger_mark_stuck:
  assumes "effect (MarkStuckAlerted i) t d u d'" "ledger_ok d"
  shows "ledger_ok d'"
  using assms(1)
proof (rule effect_MarkStuckAlertedE)
  fix r n d1
  assume 1: "update_withdrawals (\<lambda>x. w_id x = i \<and> w_stuck_alerted_at x = None)
       (\<lambda>x. x\<lparr>w_stuck_alerted_at := Some t\<rparr>) d = Inr (n, d1)"
    and 2: "effect (emit withdrawalStuckEventType (withdrawalStuckPayload i r
       (case w_tx_hash r of None \<Rightarrow> [] | Some h \<Rightarrow> h)) t) t d1 () d'"
  have "ledger_ok d1"
    by (rule ledger_modify_withdrawals [OF 1 assms(2)]) auto
  then show ?thesis
    by (rule ledger_emit [OF 2])
qed

subsection \<open>The pipeline invariant\<close>

lemma pipeline_emit:
  "effect (emit ty pl now) t d u d' \<Longrightarrow> pipeline_ok d \<Longrightarrow> pipeline_ok d'"
  by (auto elim!: effect_emitE)

lemma attempts_matchI:
  assumes "\<And>w. w \<in> set (withdrawals d) \<Longrightarrow> claimed_status (w_status w) \<Longrightarrow> \<exists>b. attempt_of d w b"
    and "\<And>w. w \<in> set (withdrawals d) \<Longrightarrow> \<not> claimed_status (w_status w) \<Longrightarrow>
      w_id w \<notin> b_withdrawal_id ` set (broadcast_attempts d)"
  shows "attempts_match d"
  unfolding attempts_match_def
proof
  fix w
  assume w: "w \<in> set (withdrawals d)"
  show "if claimed_status (w_status w) then \<exists>b\<in>set (broadcast_attempts d). attempt_of d w b
        else w_id w \<notin> b_withdrawal_id ` set (broadcast_attempts d)"
    using assms(1) [OF w] assms(2) [OF w] by (auto simp: attempt_of_def)
qed

lemma attempts_matchD:
  assumes "attempts_match d" "w \<in> set (withdrawals d)"
  shows "claimed_status (w_status w) \<Longrightarrow> \<exists>b. attempt_of d w b"
    "\<not> claimed_status (w_status w) \<Longrightarrow> w_id w \<notin> b_withdrawal_id ` set (broadcast_attempts d)"
  using bspec [OF assms(1) [unfolded attempts_match_def] assms(2)] by auto

text \<open>A rewriting of rows that keeps identity, chain, nonce and hash, and does not cross the claim.\<close>

lemma attempts_match_modify:
  assumes "attempts_match d" "withdrawals d' = modify p f (withdrawals d)"
    and "broadcast_attempts d' = broadcast_attempts d"
    and "\<And>r. p r \<Longrightarrow> w_id (f r) = w_id r \<and> w_chain (f r) = w_chain r \<and> w_nonce (f r) = w_nonce r \<and>
      w_tx_hash (f r) = w_tx_hash r \<and> claimed_status (w_status (f r)) = claimed_status (w_status r) \<and>
      (w_status r = WithdrawalStatusSigned \<longrightarrow> w_status (f r) = WithdrawalStatusSigned)"
  shows "attempts_match d'"
  unfolding attempts_match_def
proof
  fix w
  assume "w \<in> set (withdrawals d')"
  then obtain r where r: "r \<in> set (withdrawals d)" "w = (if p r then f r else r)"
    using assms(2) by (auto simp: set_modify)
  with assms(1) have "if claimed_status (w_status r) then \<exists>b\<in>set (broadcast_attempts d). attempt_of d r b
        else w_id r \<notin> b_withdrawal_id ` set (broadcast_attempts d)"
    by (auto simp: attempts_match_def)
  moreover have "w_id w = w_id r" "w_chain w = w_chain r" "w_nonce w = w_nonce r" "w_tx_hash w = w_tx_hash r"
    "claimed_status (w_status w) = claimed_status (w_status r)"
    "w_status r = WithdrawalStatusSigned \<Longrightarrow> w_status w = WithdrawalStatusSigned"
    using r(2) assms(4) [of r] by auto
  ultimately show "if claimed_status (w_status w) then \<exists>b\<in>set (broadcast_attempts d'). attempt_of d' w b
        else w_id w \<notin> b_withdrawal_id ` set (broadcast_attempts d')"
    using assms(3) by (auto simp: attempt_of_def split: if_splits)
qed

lemma pipeline_modify:
  assumes "update_withdrawals p f d = Inr (n, d')" "pipeline_ok d"
    and "\<And>r. p r \<Longrightarrow> w_id (f r) = w_id r \<and> w_chain (f r) = w_chain r \<and> w_nonce (f r) = w_nonce r \<and>
      w_tx_hash (f r) = w_tx_hash r \<and> claimed_status (w_status (f r)) = claimed_status (w_status r) \<and>
      (w_status r = WithdrawalStatusSigned \<longrightarrow> w_status (f r) = WithdrawalStatusSigned)"
  shows "pipeline_ok d'"
proof -
  have d': "d' = d\<lparr>withdrawals := modify p f (withdrawals d)\<rparr>"
    using assms(1) by (simp add: m_success)
  have "attempts_match d'"
    using assms(2,3) by (intro attempts_match_modify [of d d' p f]) (auto simp: d' pipeline_ok_def)
  then show ?thesis
    using assms(2) by (simp add: pipeline_ok_def d')
qed

lemma pipeline_create_withdrawal:
  assumes "effect (CreateWithdrawal_Execute est req) t d wi d'" "schema_ok d" "pipeline_ok d"
  shows "pipeline_ok d'"
proof -
  have ok: "accounts_ok d" "attempts_ok d"
    using assms(2) by (auto simp: schema_ok_def)
  from assms(1) obtain fee st where e: "effect (CreateWithdrawal req fee st) t d wi d'"
    by (rule effect_CreateWithdrawal_ExecuteE)
  from e ok(1) obtain av ho am je p1 p2 ty d1 where
    i: "insert_withdrawal (new_withdrawal_row (wi_id wi) req am st je t)
       (posted d je p1 p2 withdrawalHoldCauseType (wr_idempotency_key req) av ho am t) = Inr ((), d1)"
    and em: "effect (emit ty (withdrawalRoutedPayload (wi_id wi) (wr_customer_id req) (wr_chain req)
        (wr_asset req) am (wr_destination_address req) [] []) t) t d1 () d'"
    and st: "st = WithdrawalStatusAwaitingApproval \<and> ty = approvalRequiredEventType \<or>
     st = WithdrawalStatusApproved \<and> ty = withdrawalApprovedEventType"
    by (rule effect_CreateWithdrawalE)
  let ?D = "posted d je p1 p2 withdrawalHoldCauseType (wr_idempotency_key req) av ho am t"
  have D: "pipeline_ok ?D"
    using assms(3) by (simp add: posted_def)
  have d1: "d1 = ?D\<lparr>withdrawals := withdrawals d @ [new_withdrawal_row (wi_id wi) req am st je t]\<rparr>"
    and fresh: "wi_id wi \<notin> w_id ` set (withdrawals d)"
    using i by (auto simp: insert_withdrawal_def m_success new_withdrawal_row_def)
  have "wi_id wi \<notin> b_withdrawal_id ` set (broadcast_attempts d)"
    using ok(2) fresh by (auto simp: attempts_ok_def)
  then have "attempts_match d1"
    using D st by (auto simp: d1 attempts_match_def pipeline_ok_def claimed_status_def attempt_of_def
        new_withdrawal_row_def)
  then have "pipeline_ok d1"
    using D by (simp add: pipeline_ok_def d1)
  then show ?thesis
    by (rule pipeline_emit [OF em])
qed

lemma pipeline_approve:
  assumes "effect (ApproveWithdrawal_Execute i actor reason) t d wi d'" "pipeline_ok d"
  shows "pipeline_ok d'"
  using assms
  by (elim effect_ApproveWithdrawalE effect_transition_update pipeline_emit)
    (erule (1) pipeline_modify, auto simp: claimed_status_def)

lemma pipeline_settle:
  assumes "effect (settleWithdrawal i st ct et ty pf) t d u d'" "accounts_ok d" "ty \<noteq> AccountTypeHold"
    and "st = WithdrawalStatusConfirmed \<or> st = WithdrawalStatusFailed" "pipeline_ok d"
  shows "pipeline_ok d'"
  using assms(1-3)
proof (rule effect_settleE)
  fix x ho co je p1 p2 d1
  assume tr: "effect (transition i WithdrawalStatusBroadcast (\<lambda>r. r\<lparr>w_status := st, w_updated_at := t\<rparr>)
       (ErrText ''status changed concurrently'')) t (posted d je p1 p2 ct i ho co (w_amount x) t) () d1"
    and em: "effect (emit et (withdrawalSettledPayload i je (w_customer_id x) (w_chain x) (w_asset x)
       (w_amount x)) t) t d1 () d'"
  have "pipeline_ok (posted d je p1 p2 ct i ho co (w_amount x) t)"
    using assms(5) by (simp add: posted_def)
  with tr have "pipeline_ok d1"
    by (elim effect_transition_update pipeline_modify) (use assms(4) in \<open>auto simp: claimed_status_def\<close>)
  then show "pipeline_ok d'"
    by (rule pipeline_emit [OF em])
qed

lemma nonces_ok_allocate:
  assumes "nonces_ok d" "distinct (map n_chain (chain_nonce_state d))"
    and "n \<in> set (chain_nonce_state d)" "n_chain n = ch"
    and d': "chain_nonce_state d' = modify (\<lambda>x. n_chain x = ch)
       (\<lambda>x. x\<lparr>n_next_nonce := n_next_nonce x + 1, n_updated_at := t\<rparr>) (chain_nonce_state d)"
      "broadcast_attempts d' = broadcast_attempts d @ [b]"
      "b_chain b = ch" "b_nonce b = n_next_nonce n"
  shows "nonces_ok d'"
proof -
  have u: "x = n" if "x \<in> set (chain_nonce_state d)" "n_chain x = ch" for x
    using that assms(2-4) by (auto simp: distinct_map dest: inj_onD)
  have n: "0 \<le> n_next_nonce n" "map b_nonce (filter (\<lambda>b. b_chain b = ch) (broadcast_attempts d)) =
      map int [0..<nat (n_next_nonce n)]"
    using assms(1,3,4) by (auto simp: nonces_ok_def)
  have "map int [0..<nat (n_next_nonce n + 1)] = map int [0..<nat (n_next_nonce n)] @ [n_next_nonce n]"
    using n(1) by (simp add: nat_add_distrib)
  then have "0 \<le> n_next_nonce m \<and> map b_nonce (filter (\<lambda>b. b_chain b = n_chain m) (broadcast_attempts d')) =
      map int [0..<nat (n_next_nonce m)]" if "m \<in> set (chain_nonce_state d')" for m
    using that assms(1) n u unfolding d'(1)
    by (elim in_modifyE) (auto simp: nonces_ok_def d')
  moreover have "n_chain ` set (chain_nonce_state d') = n_chain ` set (chain_nonce_state d)"
    unfolding d'(1) by (rule image_modify) simp
  ultimately show ?thesis
    using assms(1,3,4) by (auto simp: nonces_ok_def d')
qed

lemma attempts_match_claim:
  assumes "attempts_match d" "distinct (map w_id (withdrawals d))" "r \<in> set (withdrawals d)"
    and "w_status r = WithdrawalStatusApproved" "w_chain r = b_chain b" "b_withdrawal_id b = w_id r"
    and d': "withdrawals d' = modify (\<lambda>x. w_id x = w_id r \<and> w_status x = WithdrawalStatusApproved)
        (\<lambda>x. x\<lparr>w_status := WithdrawalStatusSigned, w_nonce := Some (b_nonce b), w_updated_at := t\<rparr>)
        (withdrawals d)"
      "broadcast_attempts d' = broadcast_attempts d @ [b]"
  shows "attempts_match d'"
  unfolding attempts_match_def
proof
  fix w
  assume "w \<in> set (withdrawals d')"
  then show "if claimed_status (w_status w) then \<exists>b\<in>set (broadcast_attempts d'). attempt_of d' w b
        else w_id w \<notin> b_withdrawal_id ` set (broadcast_attempts d')"
    unfolding d'(1)
  proof (cases rule: in_modifyE)
    case (1 x)
    then have "x = r"
      using assms(2,3) by (auto simp: distinct_map dest: inj_onD)
    then show ?thesis
      using 1 assms(5,6) by (simp add: claimed_status_def attempt_of_def d')
  next
    case 2
    then have "w_id w \<noteq> w_id r"
      using assms(2-4) by (auto simp: distinct_map dest: inj_onD)
    then show ?thesis
      using 2(1) assms(1,6) by (auto simp: attempts_match_def attempt_of_def d')
  qed
qed

lemma pipeline_claim:
  assumes "effect (ClaimApprovedWithdrawal ch) t d (Some wi) d'" "schema_ok d" "pipeline_ok d"
  shows "pipeline_ok d'"
  using assms(1)
proof (rule effect_ClaimE)
  fix r :: withdrawal_row and n :: nonce_row and m aid d1 d2
  let ?b = "\<lparr>b_id = aid, b_withdrawal_id = w_id r, b_chain = ch, b_nonce = n_next_nonce n,
    b_tx_hash = None, b_signed_tx = None, b_created_at = t\<rparr>"
  assume r: "next_approved d ch = Some r" and n: "n \<in> set (chain_nonce_state d)" "n_chain n = ch"
    and 1: "update_nonces (\<lambda>x. n_chain x = ch)
       (\<lambda>x. x\<lparr>n_next_nonce := n_next_nonce x + 1, n_updated_at := t\<rparr>) d = Inr (m, d1)"
    and 2: "insert_broadcast_attempt ?b d1 = Inr ((), d2)"
    and 3: "effect (transition (w_id r) WithdrawalStatusApproved
       (\<lambda>x. x\<lparr>w_status := WithdrawalStatusSigned, w_nonce := Some (n_next_nonce n),
              w_updated_at := t\<rparr>)
       (ErrText ''status changed concurrently while claiming'')) t d2 () d'"
  note rD = next_approved_Some [OF r]
  have ok: "distinct (map n_chain (chain_nonce_state d))" "distinct (map w_id (withdrawals d))"
    "nonces_ok d" "attempts_match d"
    using assms(2,3) by (auto simp: schema_ok_def attempts_ok_def withdrawals_ok_def pipeline_ok_def)
  have f: "chain_nonce_state d' = modify (\<lambda>x. n_chain x = ch)
       (\<lambda>x. x\<lparr>n_next_nonce := n_next_nonce x + 1, n_updated_at := t\<rparr>) (chain_nonce_state d)"
    "broadcast_attempts d' = broadcast_attempts d @ [?b]"
    "withdrawals d' = modify (\<lambda>x. w_id x = w_id r \<and> w_status x = WithdrawalStatusApproved)
        (\<lambda>x. x\<lparr>w_status := WithdrawalStatusSigned, w_nonce := Some (b_nonce ?b), w_updated_at := t\<rparr>)
        (withdrawals d)"
    using 1 2 effect_transition [OF 3] by (auto simp: update_nonces_Inr insert_broadcast_attempt_def constrained_Inr)
  have "nonces_ok d'"
    by (rule nonces_ok_allocate [OF ok(3,1) n f(1,2)]) simp_all
  moreover have "attempts_match d'"
    by (rule attempts_match_claim [OF ok(4,2) rD(1,3) _ _ f(3,2)]) (simp_all add: rD(2))
  ultimately show "pipeline_ok d'"
    by (simp add: pipeline_ok_def)
qed

lemma nonces_ok_modify_attempts:
  assumes "nonces_ok d" "\<And>b. b_chain (f b) = b_chain b" "\<And>b. b_nonce (f b) = b_nonce b"
  shows "nonces_ok (d\<lparr>broadcast_attempts := modify p f (broadcast_attempts d)\<rparr>)"
proof -
  have "map b_nonce (filter (\<lambda>b. b_chain b = c) (modify p f bs)) =
      map b_nonce (filter (\<lambda>b. b_chain b = c) bs)" for c bs
    using assms(2,3) by (induction bs) auto
  moreover have "\<forall>b\<in>set (modify p f (broadcast_attempts d)). b_chain b \<in> n_chain ` set (chain_nonce_state d)"
    using assms(1,2) by (auto simp: nonces_ok_def elim!: in_modifyE)
  ultimately show ?thesis
    using assms(1) by (simp add: nonces_ok_def)
qed

lemma pipeline_record_signed:
  assumes "effect (RecordSignedTx i h s) t d u d'" "schema_ok d" "pipeline_ok d"
  shows "pipeline_ok d'"
  using assms(1)
proof (rule effect_RecordSignedTxE)
  fix r
  let ?f = "\<lambda>b. b\<lparr>b_tx_hash := Some h, b_signed_tx := Some s\<rparr>"
  assume r: "r \<in> set (withdrawals d)" "w_id r = i" "w_status r = WithdrawalStatusSigned"
    and d': "d' = d\<lparr>broadcast_attempts := modify (\<lambda>b. b_withdrawal_id b = i) ?f (broadcast_attempts d)\<rparr>"
  have ids: "b_withdrawal_id ` set (broadcast_attempts d') = b_withdrawal_id ` set (broadcast_attempts d)"
    unfolding d' by (simp add: image_modify)
  have att: "\<exists>b. attempt_of d' w b" if w: "w \<in> set (withdrawals d)" "attempt_of d w b" for w b
  proof (cases "b_withdrawal_id b = i")
    case True
    then have "w = r"
      using w r assms(2) by (auto simp: attempt_of_def schema_ok_def withdrawals_ok_def distinct_map
          dest: inj_onD)
    then have "attempt_of d' w (?f b)"
      using True w r by (auto simp: attempt_of_def d' set_modify image_iff)
    then show ?thesis by blast
  next
    case False
    then have "attempt_of d' w b"
      using w by (auto simp: attempt_of_def d' set_modify image_iff)
    then show ?thesis by blast
  qed
  have m: "attempts_match d" and W: "withdrawals d' = withdrawals d"
    using assms(3) by (simp_all add: pipeline_ok_def d')
  have "attempts_match d'"
  proof (rule attempts_matchI)
    show "\<exists>b. attempt_of d' w b" if "w \<in> set (withdrawals d')" "claimed_status (w_status w)" for w
      using that attempts_matchD(1) [OF m, of w] att W by auto
    show "w_id w \<notin> b_withdrawal_id ` set (broadcast_attempts d')"
      if "w \<in> set (withdrawals d')" "\<not> claimed_status (w_status w)" for w
      using that attempts_matchD(2) [OF m, of w] W by (simp add: ids)
  qed
  moreover have "nonces_ok d'"
    using assms(3) unfolding d' by (intro nonces_ok_modify_attempts) (auto simp: pipeline_ok_def)
  ultimately show "pipeline_ok d'"
    by (simp add: pipeline_ok_def)
qed

lemma pipeline_mark_broadcast:
  assumes "effect (MarkBroadcast i) t d u d'" "schema_ok d" "pipeline_ok d"
  shows "pipeline_ok d'"
  using assms(1)
proof (rule effect_MarkBroadcastE)
  fix r b h
  assume b: "b \<in> set (broadcast_attempts d)" "b_withdrawal_id b = i" "b_tx_hash b = Some h"
    and tr: "effect (transition i WithdrawalStatusSigned
       (\<lambda>x. x\<lparr>w_status := WithdrawalStatusBroadcast, w_tx_hash := Some h, w_updated_at := t\<rparr>)
       ErrWithdrawalNotSigned) t d () d'"
  note d' = effect_transition [OF tr]
  have ub: "c = b" if "c \<in> set (broadcast_attempts d)" "b_withdrawal_id c = i" for c
    using that b assms(2) by (auto simp: schema_ok_def attempts_ok_def distinct_map dest: inj_onD)
  have m: "attempts_match d" and B: "broadcast_attempts d' = broadcast_attempts d"
    using assms(3) by (simp_all add: pipeline_ok_def d')
  have W: "(\<exists>x\<in>set (withdrawals d). w_status x = WithdrawalStatusSigned \<and> w_id x = i \<and>
      w = x\<lparr>w_status := WithdrawalStatusBroadcast, w_tx_hash := Some h, w_updated_at := t\<rparr>) \<or>
      w \<in> set (withdrawals d)" if "w \<in> set (withdrawals d')" for w
    using that by (auto simp: d' elim!: in_modifyE)
  have "attempts_match d'"
  proof (rule attempts_matchI)
    show "\<exists>b. attempt_of d' w b" if w: "w \<in> set (withdrawals d')" "claimed_status (w_status w)" for w
      using W [OF w(1)]
    proof
      assume "\<exists>x\<in>set (withdrawals d). w_status x = WithdrawalStatusSigned \<and> w_id x = i \<and>
        w = x\<lparr>w_status := WithdrawalStatusBroadcast, w_tx_hash := Some h, w_updated_at := t\<rparr>"
      then obtain x where x: "x \<in> set (withdrawals d)" "w_status x = WithdrawalStatusSigned" "w_id x = i"
        "w = x\<lparr>w_status := WithdrawalStatusBroadcast, w_tx_hash := Some h, w_updated_at := t\<rparr>"
        by blast
      then obtain c where "attempt_of d x c"
        using attempts_matchD(1) [OF m x(1)] by (auto simp: claimed_status_def)
      moreover from this have "c = b"
        using ub x(3) by (auto simp: attempt_of_def)
      ultimately have "attempt_of d' w b"
        using x b by (simp add: attempt_of_def B)
      then show ?thesis by blast
    next
      assume "w \<in> set (withdrawals d)"
      then show ?thesis
        using attempts_matchD(1) [OF m] w(2) by (auto simp: attempt_of_def B)
    qed
    show "w_id w \<notin> b_withdrawal_id ` set (broadcast_attempts d')"
      if w: "w \<in> set (withdrawals d')" "\<not> claimed_status (w_status w)" for w
      using W [OF w(1)] attempts_matchD(2) [OF m] w(2) by (auto simp: B claimed_status_def)
  qed
  then show "pipeline_ok d'"
    using assms(3) by (simp add: pipeline_ok_def d')
qed

lemma pipeline_mark_stuck:
  assumes "effect (MarkStuckAlerted i) t d u d'" "pipeline_ok d"
  shows "pipeline_ok d'"
  using assms
  by (elim effect_MarkStuckAlertedE pipeline_emit) (erule (1) pipeline_modify, auto)

end
