(* ===== verification/Broadcaster.thy ===== *)
theory Broadcaster
  imports Broadcast
begin

text \<open>
  What the broadcaster process guarantees: both invariants survive every call whatever fails, every
  raw transaction sent is one that was persisted first and never replaced, the drain loop ends, a
  closed liveness gate allocates no nonce, a resumed withdrawal is never signed again, a failing
  receipt does not hold up the others, and a stuck withdrawal is alerted once.
\<close>

subsection \<open>The use cases keep both invariants\<close>

definition core_ok :: "database \<Rightarrow> bool" where
  "core_ok d \<longleftrightarrow> ledger_ok d \<and> pipeline_ok d"

lemma ledger_ok_schema: "ledger_ok d \<Longrightarrow> schema_ok d"
  by (simp add: ledger_ok_def)

lemma core_ok_schema: "core_ok d \<Longrightarrow> schema_ok d" "core_ok d \<Longrightarrow> accounts_ok d"
  by (auto simp: core_ok_def ledger_ok_def schema_ok_def)

lemma core_claim:
  "effect (ClaimApprovedWithdrawal ch) t d (Some wi) d' \<Longrightarrow> core_ok d \<Longrightarrow> core_ok d'"
  unfolding core_ok_def by (blast intro: ledger_claim pipeline_claim ledger_ok_schema)

lemma core_record_signed:
  "effect (RecordSignedTx i h s) t d u d' \<Longrightarrow> core_ok d \<Longrightarrow> core_ok d'"
  unfolding core_ok_def by (blast intro: ledger_record_signed pipeline_record_signed ledger_ok_schema)

lemma core_mark_broadcast:
  "effect (MarkBroadcast i) t d u d' \<Longrightarrow> core_ok d \<Longrightarrow> core_ok d'"
  unfolding core_ok_def by (blast intro: ledger_mark_broadcast pipeline_mark_broadcast ledger_ok_schema)

lemma core_mark_stuck:
  "effect (MarkStuckAlerted i) t d u d' \<Longrightarrow> core_ok d \<Longrightarrow> core_ok d'"
  by (auto simp: core_ok_def intro: ledger_mark_stuck pipeline_mark_stuck)

lemma core_settle_confirmed:
  assumes "effect (SettleConfirmedWithdrawal i) t d u d'" "core_ok d"
  shows "core_ok d'"
  using ledger_settle_confirmed [OF assms(1)] pipeline_settle
    [OF assms(1) [unfolded SettleConfirmedWithdrawal_def] core_ok_schema(2) [OF assms(2)]] assms(2)
  by (simp add: core_ok_def)

lemma core_settle_failed:
  assumes "effect (SettleFailedWithdrawal i) t d u d'" "core_ok d"
  shows "core_ok d'"
  using ledger_settle_failed [OF assms(1)] pipeline_settle
    [OF assms(1) [unfolded SettleFailedWithdrawal_def] core_ok_schema(2) [OF assms(2)]] assms(2)
  by (simp add: core_ok_def)

text \<open>The claim transaction commits exactly when a withdrawal was claimed.\<close>

lemma effect_claim_checkedE:
  assumes "effect (bindm (ClaimApprovedWithdrawal ch) (\<lambda>c. case c of None \<Rightarrow> ret None
         | Some wi \<Rightarrow> if wi_nonce wi = None
             then raise (ErrText ''claimed withdrawal with no nonce allocated'')
             else ret (Some wi))) t d r d'" "r \<noteq> None"
  obtains wi where "r = Some wi" "effect (ClaimApprovedWithdrawal ch) t d (Some wi) d'"
  using assms by (auto simp: effect_ret effect_raise split: option.splits if_splits elim!: effect_bindmE)

lemma claim_checked_keeps:
  assumes "claim_checked ch w = (r, w')" "P (db w)"
    and "\<And>t d wi d'. effect (ClaimApprovedWithdrawal ch) t d (Some wi) d' \<Longrightarrow> P d \<Longrightarrow> P d'"
  shows "P (db w')"
  using assms(1) unfolding claim_checked_def
  by (rule in_tx_when_keeps [where P = P]) (use assms(2,3) in \<open>auto elim!: effect_claim_checkedE\<close>)

lemma quiet_claim_checked [simp]: "quiet (claim_checked ch)"
  unfolding claim_checked_def
  by (intro quiet_in_tx_when quiet_bindm) (auto split: option.split)

subsection \<open>What is on the wire\<close>

text \<open>Every raw transaction handed to a node is non-empty and is what an attempt on that chain has
  stored: it was persisted before it was sent, and it has not been replaced since.\<close>

definition wire_ok :: "database \<Rightarrow> (chain \<times> byte list) list \<Rightarrow> bool" where
  "wire_ok d ws \<longleftrightarrow>
     (\<forall>(ch, bs)\<in>set ws. bs \<noteq> [] \<and>
        (\<exists>b\<in>set (broadcast_attempts d). b_chain b = ch \<and> decode_signed_tx (b_signed_tx b) = Some bs))"

definition assemble_nonempty :: "ports \<Rightarrow> bool" where
  "assemble_nonempty ps \<longleftrightarrow> (\<forall>u s bs h. AssembleSignedTx ps u s = Inr (bs, h) \<longrightarrow> bs \<noteq> [])"

lemma decode_signed_encode: "decode_signed_tx (Some (hex_encode bs)) = Some bs"
  by (simp add: decode_signed_tx_def trim_prefix_hex_encode hex_decode_encode)

lemma wire_ok_append:
  "wire_ok d (ws @ [(ch, bs)]) \<longleftrightarrow> wire_ok d ws \<and> bs \<noteq> [] \<and>
     (\<exists>b\<in>set (broadcast_attempts d). b_chain b = ch \<and> decode_signed_tx (b_signed_tx b) = Some bs)"
  by (auto simp: wire_ok_def)

lemma wire_ok_grow:
  assumes "wire_ok d ws" "set (broadcast_attempts d) \<subseteq> set (broadcast_attempts d')"
  shows "wire_ok d' ws"
  using assms by (fastforce simp: wire_ok_def)

lemma attempts_mark_broadcast:
  "effect (MarkBroadcast i) t d u d' \<Longrightarrow> broadcast_attempts d' = broadcast_attempts d"
  by (elim effect_MarkBroadcastE) (auto dest!: effect_transition)

lemma attempts_claim:
  "effect (ClaimApprovedWithdrawal ch) t d (Some wi) d' \<Longrightarrow>
     set (broadcast_attempts d) \<subseteq> set (broadcast_attempts d')"
  by (elim effect_ClaimE)
    (auto dest!: effect_transition simp: update_nonces_Inr insert_broadcast_attempt_def constrained_Inr)

text \<open>Recording the signed bytes of an attempt that has none yet keeps every sent transaction.\<close>

lemma wire_ok_record:
  assumes "effect (RecordSignedTx i h s) t d u d'" "wire_ok d ws"
    and "\<forall>b\<in>set (broadcast_attempts d). b_withdrawal_id b = i \<longrightarrow> decode_signed_tx (b_signed_tx b) = Some []"
  shows "wire_ok d' ws"
  using assms(1)
proof (rule effect_RecordSignedTxE)
  assume d': "d' = d\<lparr>broadcast_attempts := modify (\<lambda>b. b_withdrawal_id b = i)
       (\<lambda>b. b\<lparr>b_tx_hash := Some h, b_signed_tx := Some s\<rparr>) (broadcast_attempts d)\<rparr>"
  have "b \<in> set (broadcast_attempts d')"
    if "b \<in> set (broadcast_attempts d)" "decode_signed_tx (b_signed_tx b) = Some bs" "bs \<noteq> []" for b bs
    using that assms(3) by (auto simp: d' set_modify image_iff)
  then show ?thesis
    using assms(2) by (fastforce simp: wire_ok_def)
qed

lemma record_stores:
  assumes "effect (RecordSignedTx i h (hex_encode bs)) t d u d'"
    and "\<forall>b\<in>set (broadcast_attempts d). b_withdrawal_id b = i \<longrightarrow> b_chain b = ch"
  shows "\<exists>b\<in>set (broadcast_attempts d'). b_chain b = ch \<and> decode_signed_tx (b_signed_tx b) = Some bs"
  using assms(1)
proof (rule effect_RecordSignedTxE)
  assume d': "d' = d\<lparr>broadcast_attempts := modify (\<lambda>b. b_withdrawal_id b = i)
       (\<lambda>b. b\<lparr>b_tx_hash := Some h, b_signed_tx := Some (hex_encode bs)\<rparr>) (broadcast_attempts d)\<rparr>"
    and "\<exists>b\<in>set (broadcast_attempts d). b_withdrawal_id b = i"
  then obtain b where "b \<in> set (broadcast_attempts d)" "b_withdrawal_id b = i"
    by blast
  then show ?thesis
    using assms(2) by (intro bexI [of _ "b\<lparr>b_tx_hash := Some h, b_signed_tx := Some (hex_encode bs)\<rparr>"])
      (auto simp: d' set_modify image_iff decode_signed_encode)
qed

text \<open>\<open>safe w\<close>: the database keeps its invariants and the wire carries only persisted bytes.\<close>

definition safe :: "database world \<Rightarrow> bool" where
  "safe w \<longleftrightarrow> core_ok (db w) \<and> wire_ok (db w) (wire w)"

lemma safe_mark_broadcast:
  assumes "in_tx (MarkBroadcast i) w = (r, w')" "safe w"
  shows "safe w'"
proof -
  have "broadcast_attempts (db w') = broadcast_attempts (db w)"
    using in_tx_effect [OF assms(1)] attempts_mark_broadcast by auto
  moreover have "core_ok (db w')"
    using assms in_tx_keeps [where P = core_ok, OF assms(1)] core_mark_broadcast by (auto simp: safe_def)
  moreover have "wire w' = wire w"
    using quietD(2) [OF quiet_in_tx assms(1)] by simp
  ultimately show ?thesis
    using assms(2) by (simp add: safe_def wire_ok_def)
qed

lemma safe_send:
  assumes "sendAndFinalize ps ch wi w = (r, w')" "safe w" "wi_signed_tx wi \<noteq> []"
    and "\<exists>b\<in>set (broadcast_attempts (db w)). b_chain b = ch \<and>
      decode_signed_tx (b_signed_tx b) = Some (wi_signed_tx wi)"
  shows "safe w'"
proof -
  let ?w = "w\<lparr>wire := wire w @ [(ch, wi_signed_tx wi)]\<rparr>"
  have "safe ?w"
    using assms(2-4) by (simp add: safe_def wire_ok_append)
  moreover have "in_tx (MarkBroadcast (wi_id wi)) ?w = (r, w') \<or> w' = ?w"
    using assms(1) by (auto simp: sendAndFinalize_def bindm_def send_raw_def split: option.splits if_splits)
  ultimately show ?thesis
    using safe_mark_broadcast by auto
qed

lemma signAndSend_cases:
  assumes "signAndSend ps ch wi w = (r, w')"
  obtains "w' = w" "isl r"
  | u s bs h r1 w1 where "AssembleSignedTx ps u s = Inr (bs, h)"
    "in_tx (RecordSignedTx (wi_id wi) h (hex_encode bs)) w = (r1, w1)"
    "case r1 of Inl e \<Rightarrow> w' = w1 \<and> r = Inl e
     | Inr _ \<Rightarrow> sendAndFinalize ps ch (wi\<lparr>wi_signed_tx := bs, wi_tx_hash := h\<rparr>) w1 = (r, w')"
proof (cases "\<exists>nonce digest u sg bs h. wi_nonce wi = Some nonce \<and>
    BuildUnsignedWithdrawal ps ch (wi_asset wi) nonce (wi_destination_address wi) (wi_amount wi) =
      Inr (digest, u) \<and> Sign ps ch digest = Inr sg \<and> AssembleSignedTx ps u sg = Inr (bs, h)")
  case True
  then obtain nonce digest u sg bs h where p: "wi_nonce wi = Some nonce"
    "BuildUnsignedWithdrawal ps ch (wi_asset wi) nonce (wi_destination_address wi) (wi_amount wi) =
      Inr (digest, u)" "Sign ps ch digest = Inr sg" "AssembleSignedTx ps u sg = Inr (bs, h)"
    by blast
  obtain r1 w1 where r1: "in_tx (RecordSignedTx (wi_id wi) h (hex_encode bs)) w = (r1, w1)"
    by fastforce
  show thesis
    by (rule that(2) [OF p(4) r1])
      (use assms p r1 in \<open>auto simp: signAndSend_def bindm_def deref_run lift_result_run split: sum.splits\<close>)
next
  case False
  have "w' = w \<and> isl r"
    using assms False
    by (auto simp: signAndSend_def bindm_def deref_run lift_result_run
        split: option.splits sum.splits prod.splits)
  then show thesis using that(1) by blast
qed

lemma safe_sign_and_send:
  assumes "signAndSend ps ch wi w = (r, w')" "safe w" "assemble_nonempty ps"
    and "\<forall>b\<in>set (broadcast_attempts (db w)). b_withdrawal_id b = wi_id wi \<longrightarrow>
      b_chain b = ch \<and> decode_signed_tx (b_signed_tx b) = Some []"
  shows "safe w'"
  using assms(1)
proof (cases rule: signAndSend_cases)
  case (2 u s bs h r1 w1)
  have "core_ok (db w1)"
    using assms(2) in_tx_keeps [where P = core_ok, OF 2(2)] core_record_signed by (auto simp: safe_def)
  moreover have "wire_ok (db w1) (wire w)"
    using in_tx_effect [OF 2(2)] assms(2,4) wire_ok_record by (auto simp: safe_def)
  moreover have "wire w1 = wire w"
    using quietD(2) [OF quiet_in_tx 2(2)] by simp
  ultimately have s1: "safe w1"
    by (simp add: safe_def)
  show ?thesis
  proof (cases r1)
    case (Inr v)
    then have "effect (RecordSignedTx (wi_id wi) h (hex_encode bs)) (clock w) (db w) v (db w1)"
      using in_tx_Inr 2(2) by simp
    from record_stores [OF this, of ch] have
      "\<exists>b\<in>set (broadcast_attempts (db w1)). b_chain b = ch \<and> decode_signed_tx (b_signed_tx b) = Some bs"
      using assms(4) by blast
    moreover have "bs \<noteq> []"
      using 2(1) assms(3) unfolding assemble_nonempty_def by blast
    ultimately show ?thesis
      using 2(3) Inr by (intro safe_send [OF _ s1]) auto
  qed (use 2(3) s1 in auto)
qed (use assms(2) in simp)

subsection \<open>SignAndBroadcastWithdrawal keeps the system safe\<close>

lemma joined_attempts_set:
  "(x, b) \<in> set (joined_attempts p d) \<longleftrightarrow>
     x \<in> set (withdrawals d) \<and> b \<in> set (broadcast_attempts d) \<and> b_withdrawal_id b = w_id x \<and> p x b"
  by (auto simp: joined_attempts_def)

lemma listed_signed:
  assumes "read_tx (ListSignedWithdrawals ch) w = (Inr wis, w1)" "wi \<in> set wis"
  shows "\<exists>x b. x \<in> set (withdrawals (db w)) \<and> b \<in> set (broadcast_attempts (db w)) \<and>
    b_withdrawal_id b = w_id x \<and> w_chain x = ch \<and> w_status x = WithdrawalStatusSigned \<and>
    wi_id wi = w_id x \<and> wi_nonce wi = Some (b_nonce b) \<and>
    decode_signed_tx (b_signed_tx b) = Some (wi_signed_tx wi)"
proof -
  let ?j = "joined_attempts (\<lambda>w b. w_chain w = ch \<and> w_status w = WithdrawalStatusSigned) (db w)"
  have "wis = List.map_filter (signed_withdrawal ch) (take listSignedWithdrawalsBatchLimit ?j)"
    using in_tx_when_Inr [OF assms(1) [unfolded read_tx_def]]
    by (auto simp: ListSignedWithdrawals_def effect_query)
  with assms(2) obtain x b where xb: "(x, b) \<in> set (take listSignedWithdrawalsBatchLimit ?j)"
    and wi: "signed_withdrawal ch (x, b) = Some wi"
    by (auto simp: map_filter_def)
  have "(x, b) \<in> set ?j"
    using xb by (rule in_set_takeD)
  then show ?thesis
    using wi by (intro exI [of _ x] exI [of _ b]) (auto simp: joined_attempts_set
        signed_withdrawal_def empty_withdrawal_def split: option.splits)
qed

lemma attempt_unique:
  assumes "schema_ok d" "b \<in> set (broadcast_attempts d)" "c \<in> set (broadcast_attempts d)"
    "b_withdrawal_id b = b_withdrawal_id c"
  shows "b = c"
  using assms by (auto simp: schema_ok_def attempts_ok_def distinct_map dest: inj_onD)

lemma listed_attempt:
  assumes "read_tx (ListSignedWithdrawals ch) w = (Inr wis, w1)" "wi \<in> set wis" "core_ok (db w)"
  shows "\<exists>b\<in>set (broadcast_attempts (db w)). b_withdrawal_id b = wi_id wi \<and> b_chain b = ch \<and>
    decode_signed_tx (b_signed_tx b) = Some (wi_signed_tx wi) \<and>
    (\<forall>c\<in>set (broadcast_attempts (db w)). b_withdrawal_id c = wi_id wi \<longrightarrow> c = b)"
proof -
  obtain x b where xb: "x \<in> set (withdrawals (db w))" "b \<in> set (broadcast_attempts (db w))"
    "b_withdrawal_id b = w_id x" "w_chain x = ch" "w_status x = WithdrawalStatusSigned"
    "wi_id wi = w_id x" "decode_signed_tx (b_signed_tx b) = Some (wi_signed_tx wi)"
    using listed_signed [OF assms(1,2)] by blast
  have m: "attempts_match (db w)" and sc: "schema_ok (db w)"
    using assms(3) by (auto simp: core_ok_def pipeline_ok_def ledger_ok_def)
  obtain c where "attempt_of (db w) x c"
    using attempts_matchD(1) [OF m xb(1)] xb(5) by (auto simp: claimed_status_def)
  then have "c = b" "b_chain b = ch"
    using attempt_unique [OF sc, of c b] xb(2-4) by (auto simp: attempt_of_def)
  then show ?thesis
    using xb attempt_unique [OF sc] by metis
qed

lemma claimed_attempt:
  assumes "effect (ClaimApprovedWithdrawal ch) t d (Some wi) d'" "schema_ok d"
  shows "\<forall>b\<in>set (broadcast_attempts d'). b_withdrawal_id b = wi_id wi \<longrightarrow>
    b_chain b = ch \<and> decode_signed_tx (b_signed_tx b) = Some []"
  using assms(1)
proof (rule effect_ClaimE)
  fix r :: withdrawal_row and n :: nonce_row and m aid d1 d2
  let ?b = "\<lparr>b_id = aid, b_withdrawal_id = w_id r, b_chain = ch, b_nonce = n_next_nonce n,
    b_tx_hash = None, b_signed_tx = None, b_created_at = t\<rparr>"
  assume "update_nonces (\<lambda>x. n_chain x = ch)
       (\<lambda>x. x\<lparr>n_next_nonce := n_next_nonce x + 1, n_updated_at := t\<rparr>) d = Inr (m, d1)"
    and 2: "insert_broadcast_attempt ?b d1 = Inr ((), d2)" and "wi_id wi = w_id r"
    and 3: "effect (transition (w_id r) WithdrawalStatusApproved
       (\<lambda>x. x\<lparr>w_status := WithdrawalStatusSigned, w_nonce := Some (n_next_nonce n),
              w_updated_at := t\<rparr>)
       (ErrText ''status changed concurrently while claiming'')) t d2 () d'"
  moreover from 2 have "w_id r \<notin> b_withdrawal_id ` set (broadcast_attempts d1)"
    "broadcast_attempts d2 = broadcast_attempts d1 @ [?b]"
    by (simp_all add: insert_broadcast_attempt_def constrained_Inr)
  moreover from this(1) have "\<forall>b\<in>set (broadcast_attempts d1). b_withdrawal_id b \<noteq> w_id r"
    by (metis imageI)
  moreover have "broadcast_attempts d' = broadcast_attempts d2"
    using effect_transition [OF 3] by simp
  ultimately show ?thesis
    by (auto simp: decode_signed_tx_def)
qed

lemma claim_checked_Some:
  assumes "claim_checked ch w = (Inr (Some wi), w')"
  shows "effect (ClaimApprovedWithdrawal ch) (clock w) (db w) (Some wi) (db w')"
  using in_tx_when_Inr [OF assms [unfolded claim_checked_def]]
  by (auto elim!: effect_claim_checkedE)

lemma claim_checked_attempts:
  assumes "claim_checked ch w = (r, w')"
  shows "set (broadcast_attempts (db w)) \<subseteq> set (broadcast_attempts (db w'))"
proof -
  have "db w' = db w \<or> (\<exists>wi. effect (ClaimApprovedWithdrawal ch) (clock w) (db w) (Some wi) (db w'))"
    using in_tx_when_effect [OF assms [unfolded claim_checked_def]] by (auto elim!: effect_claim_checkedE)
  then show ?thesis
    by (auto dest: attempts_claim)
qed

lemma safe_claim_fresh:
  assumes "claim_fresh ps ch w = (r, w')" "safe w" "assemble_nonempty ps"
  shows "safe w'"
proof -
  obtain r1 w1 where c: "claim_checked ch w = (r1, w1)"
    by fastforce
  have "wire_ok (db w1) (wire w1)"
    using assms(2) wire_ok_grow [OF _ claim_checked_attempts [OF c]] quietD(2) [OF quiet_claim_checked c]
    by (auto simp: safe_def)
  then have s1: "safe w1"
    using claim_checked_keeps [where P = core_ok, OF c _ core_claim] assms(2) by (auto simp: safe_def)
  show ?thesis
  proof (cases "\<exists>wi. r1 = Inr (Some wi)")
    case True
    then obtain wi where wi: "r1 = Inr (Some wi)"
      by blast
    have sc: "schema_ok (db w)"
      using assms(2) by (simp add: safe_def core_ok_schema)
    obtain r2 where "signAndSend ps ch wi w1 = (r2, w')"
      using assms(1) c wi
      by (auto simp: claim_fresh_def as_claimed_def split: prod.splits sum.splits)
    then show ?thesis
      using safe_sign_and_send s1 assms(3)
        claimed_attempt [OF claim_checked_Some [OF c [unfolded wi]] sc] by blast
  next
    case False
    then have "w' = w1"
      using assms(1) c by (auto simp: claim_fresh_def split: sum.splits option.splits)
    with s1 show ?thesis by simp
  qed
qed

lemma safe_resume_signed:
  assumes "resume_signed ps ch wi w = (r, w')" "safe w" "assemble_nonempty ps"
    and "\<exists>b\<in>set (broadcast_attempts (db w)). b_withdrawal_id b = wi_id wi \<and> b_chain b = ch \<and>
    decode_signed_tx (b_signed_tx b) = Some (wi_signed_tx wi) \<and>
    (\<forall>c\<in>set (broadcast_attempts (db w)). b_withdrawal_id c = wi_id wi \<longrightarrow> c = b)"
  shows "safe w'"
proof -
  consider "w' = w" | r2 where "wi_signed_tx wi \<noteq> []" "sendAndFinalize ps ch wi w = (r2, w')"
    | r2 where "wi_signed_tx wi = []" "signAndSend ps ch wi w = (r2, w')"
    using assms(1)
    by (auto simp: resume_signed_def as_claimed_def split: if_splits prod.splits sum.splits)
  then show ?thesis
  proof cases
    case (2 r2)
    then show ?thesis
      using safe_send [OF 2(2) assms(2)] assms(4) by blast
  next
    case (3 r2)
    then show ?thesis
      using safe_sign_and_send [OF 3(2) assms(2,3)] assms(4) by auto
  qed (use assms(2) in simp)
qed

lemma read_tx_world:
  assumes "read_tx c w = (r, w')" "quiet c"
  shows "db w' = db w" "wire w' = wire w" "clock w' = clock w"
  using read_tx_db [OF assms(1)] quietD [OF quiet_read_tx [OF assms(2)] assms(1)] by auto

lemma safe_execute:
  assumes "SignAndBroadcast_Execute ps ch allow w = (r, w')" "safe w" "assemble_nonempty ps"
  shows "safe w'"
proof -
  obtain l w1 where l: "read_tx (ListSignedWithdrawals ch) w = (l, w1)"
    by fastforce
  have w1: "db w1 = db w" "wire w1 = wire w"
    using read_tx_world [OF l] by auto
  then have s1: "safe w1"
    using assms(2) by (simp add: safe_def)
  consider e where "l = Inl e" "w' = w1" | wi wis where "l = Inr (wi # wis)" "resume_signed ps ch wi w1 = (r, w')"
    | "l = Inr []" "w' = w1" | "l = Inr []" "claim_fresh ps ch w1 = (r, w')"
    using assms(1) l by (auto simp: SignAndBroadcast_Execute_def split: sum.splits list.splits if_splits)
  then show ?thesis
  proof cases
    case (2 wi wis)
    have "core_ok (db w)"
      using assms(2) by (simp add: safe_def)
    then show ?thesis
      using safe_resume_signed [OF 2(2) s1 assms(3)] listed_attempt [OF l [unfolded 2(1)], of wi] w1
      by simp
  next
    case 4
    then show ?thesis
      using safe_claim_fresh [OF 4(2) s1 assms(3)] by simp
  qed (use s1 in simp_all)
qed

subsection \<open>The drain loop ends\<close>

text \<open>What is left to do on a chain: two steps for an approved withdrawal, one for a signed one.\<close>

definition approved_count :: "database \<Rightarrow> chain \<Rightarrow> int" where
  "approved_count d ch =
     total_of (\<lambda>w. w_chain w = ch \<and> w_status w = WithdrawalStatusApproved) (\<lambda>_. 1) (withdrawals d)"

definition signed_count :: "database \<Rightarrow> chain \<Rightarrow> int" where
  "signed_count d ch =
     total_of (\<lambda>w. w_chain w = ch \<and> w_status w = WithdrawalStatusSigned) (\<lambda>_. 1) (withdrawals d)"

definition pending :: "database \<Rightarrow> chain \<Rightarrow> nat" where
  "pending d ch = nat (2 * approved_count d ch + signed_count d ch)"

lemma total_of_nonneg: "(\<And>r. 0 \<le> f r) \<Longrightarrow> 0 \<le> total_of p f rs"
  by (induction rs) auto

lemma counts_nonneg: "0 \<le> approved_count d ch" "0 \<le> signed_count d ch"
  by (simp_all add: approved_count_def signed_count_def total_of_nonneg)

text \<open>The row a transition rewrites is the row with that id.\<close>

lemma transition_total:
  assumes "schema_ok d" "x \<in> set (withdrawals d)" "w_id x = i" "w_status x = s"
    and "withdrawals d' = modify (\<lambda>r. w_id r = i \<and> w_status r = s) g (withdrawals d)"
  shows "total_of p f (withdrawals d') =
    total_of p f (withdrawals d) - (if p x then f x else 0) + (if p (g x) then f (g x) else 0)"
proof -
  have u: "distinct (map w_id (withdrawals d))"
    using assms(1) by (simp add: schema_ok_def withdrawals_ok_def)
  have q: "w_id r = i \<and> w_status r = s \<longleftrightarrow> w_id r = w_id x" if "r \<in> set (withdrawals d)" for r
    using that u assms(2-4) by (auto simp: distinct_map dest: inj_onD)
  show ?thesis
    unfolding assms(5) by (rule total_of_modify [OF u assms(2) q])
qed

lemma mark_counts:
  assumes "effect (MarkBroadcast i) t d u d'" "schema_ok d"
    and "\<forall>x\<in>set (withdrawals d). w_id x = i \<longrightarrow> w_chain x = ch"
  shows "approved_count d' ch = approved_count d ch" "signed_count d' ch = signed_count d ch - 1"
proof -
  from assms(1) obtain r h where r: "r \<in> set (withdrawals d)" "w_id r = i"
    "w_status r = WithdrawalStatusSigned"
    and W: "withdrawals d' = modify (\<lambda>r. w_id r = i \<and> w_status r = WithdrawalStatusSigned)
      (\<lambda>x. x\<lparr>w_status := WithdrawalStatusBroadcast, w_tx_hash := Some h, w_updated_at := t\<rparr>)
      (withdrawals d)"
    by (elim effect_MarkBroadcastE) (auto dest!: effect_transition)
  have "w_chain r = ch"
    using assms(3) r by blast
  then show "approved_count d' ch = approved_count d ch" "signed_count d' ch = signed_count d ch - 1"
    using r unfolding approved_count_def signed_count_def
    by (simp_all add: transition_total [OF assms(2) r W])
qed

lemma claim_counts:
  assumes "effect (ClaimApprovedWithdrawal ch) t d (Some wi) d'" "schema_ok d"
  shows "approved_count d' ch = approved_count d ch - 1" "signed_count d' ch = signed_count d ch + 1"
    "\<forall>x\<in>set (withdrawals d'). w_id x = wi_id wi \<longrightarrow> w_chain x = ch"
proof -
  from assms(1) obtain r k where r: "next_approved d ch = Some r" and wi: "wi_id wi = w_id r"
    and W: "withdrawals d' = modify (\<lambda>x. w_id x = w_id r \<and> w_status x = WithdrawalStatusApproved)
      (\<lambda>x. x\<lparr>w_status := WithdrawalStatusSigned, w_nonce := Some k, w_updated_at := t\<rparr>) (withdrawals d)"
    by (elim effect_ClaimE)
      (auto dest!: effect_transition simp: update_nonces_Inr insert_broadcast_attempt_def constrained_Inr)
  note rD = next_approved_Some [OF r]
  show "approved_count d' ch = approved_count d ch - 1" "signed_count d' ch = signed_count d ch + 1"
    using rD unfolding approved_count_def signed_count_def
    by (simp_all add: transition_total [OF assms(2) rD(1) refl rD(3) W])
  have "w_chain x = ch" if "x \<in> set (withdrawals d)" "w_id x = w_id r" for x
    using that rD(1,2) assms(2)
    by (auto simp: schema_ok_def withdrawals_ok_def distinct_map dest: inj_onD)
  then show "\<forall>x\<in>set (withdrawals d'). w_id x = wi_id wi \<longrightarrow> w_chain x = ch"
    by (auto simp: W wi elim!: in_modifyE)
qed

lemma sendAndFinalize_Inr:
  assumes "sendAndFinalize ps ch wi w = (Inr u, w')"
  shows "effect (MarkBroadcast (wi_id wi)) (clock w) (db w) u (db w')"
    "wire w' = wire w @ [(ch, wi_signed_tx wi)]" "clock w' = clock w"
proof -
  let ?w = "w\<lparr>wire := wire w @ [(ch, wi_signed_tx wi)]\<rparr>"
  have m: "in_tx (MarkBroadcast (wi_id wi)) ?w = (Inr u, w')"
    using assms by (auto simp: sendAndFinalize_def bindm_def send_raw_def split: option.splits if_splits)
  show "effect (MarkBroadcast (wi_id wi)) (clock w) (db w) u (db w')"
    using in_tx_Inr [OF m] by simp
  show "wire w' = wire w @ [(ch, wi_signed_tx wi)]" "clock w' = clock w"
    using quietD [OF quiet_in_tx m] by simp_all
qed

lemma withdrawals_record:
  "effect (RecordSignedTx i h s) t d u d' \<Longrightarrow> withdrawals d' = withdrawals d"
  by (elim effect_RecordSignedTxE) auto

lemma signAndSend_Inr:
  assumes "signAndSend ps ch wi w = (Inr u, w')" "core_ok (db w)"
  shows "\<exists>d1. core_ok d1 \<and> withdrawals d1 = withdrawals (db w) \<and>
    effect (MarkBroadcast (wi_id wi)) (clock w) d1 u (db w')"
  using assms(1)
proof (cases rule: signAndSend_cases)
  case (2 v s bs h r1 w1)
  then obtain x where r1: "r1 = Inr x"
    by (cases r1) auto
  have e: "effect (RecordSignedTx (wi_id wi) h (hex_encode bs)) (clock w) (db w) x (db w1)"
    using in_tx_Inr [OF 2(2) [unfolded r1]] .
  have "clock w1 = clock w"
    using quietD(1) [OF quiet_in_tx 2(2)] by simp
  then have "effect (MarkBroadcast (wi_id wi)) (clock w) (db w1) u (db w')"
    using sendAndFinalize_Inr(1) 2(3) r1 by fastforce
  then show ?thesis
    using core_record_signed [OF e assms(2)] withdrawals_record [OF e] by blast
qed simp

lemma pending_mark:
  assumes "effect (MarkBroadcast i) t d u d'" "schema_ok d"
    and "\<forall>x\<in>set (withdrawals d). w_id x = i \<longrightarrow> w_chain x = ch"
  shows "pending d' ch < pending d ch"
  using mark_counts [OF assms] counts_nonneg [of d' ch] by (simp add: pending_def)

lemma listed_chain:
  assumes "read_tx (ListSignedWithdrawals ch) w = (Inr wis, w1)" "wi \<in> set wis" "schema_ok (db w)"
  shows "\<forall>x\<in>set (withdrawals (db w)). w_id x = wi_id wi \<longrightarrow> w_chain x = ch"
proof -
  obtain x where "x \<in> set (withdrawals (db w))" "w_chain x = ch" "wi_id wi = w_id x"
    using listed_signed [OF assms(1,2)] by blast
  then show ?thesis
    using assms(3) by (auto simp: schema_ok_def withdrawals_ok_def distinct_map dest: inj_onD)
qed

lemma pending_sent:
  assumes "signAndSend ps ch wi w = (Inr u, w') \<or> sendAndFinalize ps ch wi w = (Inr u, w')"
    and "core_ok (db w)" "\<forall>x\<in>set (withdrawals (db w)). w_id x = wi_id wi \<longrightarrow> w_chain x = ch"
  shows "pending (db w') ch < pending (db w) ch"
proof -
  obtain d1 where d1: "core_ok d1" "withdrawals d1 = withdrawals (db w)"
    "effect (MarkBroadcast (wi_id wi)) (clock w) d1 u (db w')"
    using assms(1)
  proof
    assume "signAndSend ps ch wi w = (Inr u, w')"
    then show thesis using signAndSend_Inr [OF _ assms(2)] that by blast
  next
    assume "sendAndFinalize ps ch wi w = (Inr u, w')"
    then show thesis using sendAndFinalize_Inr(1) assms(2) that by blast
  qed
  have "pending (db w') ch < pending d1 ch"
    using pending_mark [OF d1(3) core_ok_schema(1) [OF d1(1)]] assms(3) d1(2) by simp
  then show ?thesis
    by (simp add: pending_def approved_count_def signed_count_def d1(2))
qed

lemma as_claimed_None: "as_claimed x = ((c, None), w') \<longleftrightarrow> c \<and> (\<exists>u. x = (Inr u, w'))"
  by (auto simp: as_claimed_def split: prod.splits sum.splits)

lemma pending_execute:
  assumes "SignAndBroadcast_Execute ps ch allow w = ((True, None), w')" "core_ok (db w)"
  shows "pending (db w') ch < pending (db w) ch"
proof -
  obtain l w1 where l: "read_tx (ListSignedWithdrawals ch) w = (l, w1)"
    by fastforce
  have w1: "db w1 = db w" "clock w1 = clock w"
    using read_tx_world [OF l] by auto
  consider wi wis where "l = Inr (wi # wis)" "resume_signed ps ch wi w1 = ((True, None), w')"
    | "l = Inr []" "claim_fresh ps ch w1 = ((True, None), w')"
    using assms(1) l by (auto simp: SignAndBroadcast_Execute_def split: sum.splits list.splits if_splits)
  then show ?thesis
  proof cases
    case (1 wi wis)
    then obtain u where "signAndSend ps ch wi w1 = (Inr u, w') \<or> sendAndFinalize ps ch wi w1 = (Inr u, w')"
      by (auto simp: resume_signed_def as_claimed_None split: if_splits)
    then show ?thesis
      using pending_sent [of ps ch wi w1 u w'] assms(2) w1
        listed_chain [OF l [unfolded 1(1)], of wi] core_ok_schema(1) by simp
  next
    case 2
    then obtain wi w2 u where c: "claim_checked ch w1 = (Inr (Some wi), w2)"
      and s: "signAndSend ps ch wi w2 = (Inr u, w')"
      by (auto simp: claim_fresh_def as_claimed_None split: prod.splits sum.splits option.splits)
    note e = claim_checked_Some [OF c, unfolded w1]
    note cc = claim_counts [OF e core_ok_schema(1) [OF assms(2)]]
    have "pending (db w') ch < pending (db w2) ch"
      using pending_sent [OF disjI1 [OF s] core_claim [OF e assms(2)] cc(3)] .
    also have "pending (db w2) ch < pending (db w) ch"
      using cc(1,2) counts_nonneg [of "db w2" ch] by (simp add: pending_def)
    finally show ?thesis .
  qed
qed

text \<open>What the transactions of the process keep, its entry points keep.\<close>

lemma send_keeps:
  assumes "sendAndFinalize ps ch wi w = (r, w')" "P (db w)"
    and "\<And>i t d u d'. effect (MarkBroadcast i) t d u d' \<Longrightarrow> P d \<Longrightarrow> P d'"
  shows "P (db w')"
proof -
  let ?w = "w\<lparr>wire := wire w @ [(ch, wi_signed_tx wi)]\<rparr>"
  have "in_tx (MarkBroadcast (wi_id wi)) ?w = (r, w') \<or> w' = ?w"
    using assms(1) by (auto simp: sendAndFinalize_def bindm_def send_raw_def split: option.splits if_splits)
  then show ?thesis
    using in_tx_keeps [where P = P, of "MarkBroadcast (wi_id wi)" ?w r w'] assms(2,3) by auto
qed

lemma sign_keeps:
  assumes "signAndSend ps ch wi w = (r, w')" "P (db w)"
    and "\<And>i t d u d'. effect (MarkBroadcast i) t d u d' \<Longrightarrow> P d \<Longrightarrow> P d'"
    and "\<And>i h s t d u d'. effect (RecordSignedTx i h s) t d u d' \<Longrightarrow> P d \<Longrightarrow> P d'"
  shows "P (db w')"
  using assms(1)
proof (cases rule: signAndSend_cases)
  case (2 v s bs h r1 w1)
  have "P (db w1)"
    using assms(2,4) in_tx_keeps [where P = P, OF 2(2)] by auto
  then show ?thesis
    using 2(3) assms(3) send_keeps [where P = P] by (cases r1) auto
qed (use assms(2) in simp)

lemma execute_keeps_all:
  assumes "SignAndBroadcast_Execute ps ch allow w = (r, w')" "P (db w)"
    and mark: "\<And>i t d u d'. effect (MarkBroadcast i) t d u d' \<Longrightarrow> P d \<Longrightarrow> P d'"
    and rec_tx: "\<And>i h s t d u d'. effect (RecordSignedTx i h s) t d u d' \<Longrightarrow> P d \<Longrightarrow> P d'"
    and claim: "\<And>t d wi d'. effect (ClaimApprovedWithdrawal ch) t d (Some wi) d' \<Longrightarrow> P d \<Longrightarrow> P d'"
  shows "P (db w')"
proof -
  obtain l w1 where l: "read_tx (ListSignedWithdrawals ch) w = (l, w1)"
    by fastforce
  have w1: "P (db w1)"
    using read_tx_world [OF l] assms(2) by simp
  note send = send_keeps [where P = P, OF _ _ mark] and sign = sign_keeps [where P = P, OF _ _ mark rec_tx]
  have res: "P (db w')" if "resume_signed ps ch wi w1 = (r, w')" for wi
    using that w1 by (auto simp: resume_signed_def as_claimed_def split: if_splits prod.splits sum.splits
        dest: send sign)
  have cl: "P (db w')" if c: "claim_fresh ps ch w1 = (r, w')"
  proof -
    obtain x w2 where x: "claim_checked ch w1 = (x, w2)"
      by fastforce
    have "P (db w2)"
      by (rule claim_checked_keeps [where P = P, OF x w1 claim])
    then show ?thesis
      using c x by (auto simp: claim_fresh_def as_claimed_def split: prod.splits sum.splits option.splits
          dest: sign)
  qed
  show ?thesis
    using assms(1) l w1 res cl
    by (auto simp: SignAndBroadcast_Execute_def split: sum.splits list.splits if_splits)
qed

lemma core_execute:
  "SignAndBroadcast_Execute ps ch allow w = (r, w') \<Longrightarrow> core_ok (db w) \<Longrightarrow> core_ok (db w')"
  by (rule execute_keeps_all [where P = core_ok]) (auto intro: core_mark_broadcast core_record_signed core_claim)

subsection \<open>Running the loops\<close>

lemma drain_returns_core:
  assumes "core_ok (db w)" "pending (db w) ch < fuel"
  shows "\<exists>k e w'. drain fuel pss ch live n w = Some (k, e, w') \<and> core_ok (db w')"
  using assms
proof (induction fuel arbitrary: n w)
  case (Suc fuel)
  obtain claimed err w1 where x: "SignAndBroadcast_Execute (pss n) ch live w = ((claimed, err), w1)"
    by (metis surj_pair)
  have ok: "core_ok (db w1)"
    by (rule core_execute [OF x Suc.prems(1)])
  show ?case
  proof (cases "claimed \<and> err = None")
    case True
    then have "pending (db w1) ch < fuel"
      using pending_execute [of "pss n" ch live w w1] x Suc.prems by simp
    from Suc.IH [OF ok this, of "Suc n"] show ?thesis
      using x True by simp
  next
    case False
    then show ?thesis
      using x ok by auto
  qed
qed simp

lemma settle_all_skips:
  assumes "\<forall>wi\<in>set wis. skip wi \<longrightarrow>
    (case GetFinalizedReceipt ps ch (wi_tx_hash wi) of Inl _ \<Rightarrow> True | Inr (found, _) \<Rightarrow> \<not> found)"
  shows "snd (settle_all ps ch wis r w) = snd (settle_all ps ch (filter (\<lambda>wi. \<not> skip wi) wis) r' w)"
  using assms
proof (induction wis arbitrary: r r' w)
  case (Cons wi wis)
  have indep: "snd (settle_one ps ch wi r1 w) = snd (settle_one ps ch wi r2 w)" for r1 r2
    by (auto simp: settle_one_def split: sum.splits prod.splits)
  show ?case
  proof (cases "skip wi")
    case True
    with Cons.prems have "snd (settle_one ps ch wi r0 w) = w" for r0
      by (auto simp: settle_one_def split: sum.splits prod.splits)
    then show ?thesis
      using True Cons by (simp add: split_beta)
  next
    case False
    then show ?thesis
      using Cons indep [of "r\<lparr>pr_checked := pr_checked r + 1\<rparr>" "r'\<lparr>pr_checked := pr_checked r' + 1\<rparr>"]
      by (simp add: split_beta)
  qed
qed simp

lemma settle_one_keeps:
  assumes "settle_one ps ch wi r w = (r', w')" "P (db w)"
    and "\<And>i t d u d'. effect (SettleConfirmedWithdrawal i) t d u d' \<Longrightarrow> P d \<Longrightarrow> P d'"
    and "\<And>i t d u d'. effect (SettleFailedWithdrawal i) t d u d' \<Longrightarrow> P d \<Longrightarrow> P d'"
  shows "P (db w')"
proof -
  have "w' = w \<or> (\<exists>x. in_tx (SettleConfirmedWithdrawal (wi_id wi)) w = (x, w')) \<or>
      (\<exists>x. in_tx (SettleFailedWithdrawal (wi_id wi)) w = (x, w'))"
    using assms(1) by (auto simp: settle_one_def split: sum.splits prod.splits if_splits)
  then show ?thesis
    using assms(2-4) in_tx_keeps [where P = P] by metis
qed

lemma poll_cases:
  assumes "PollReceipts_Execute ps ch w = (r, w')"
  obtains w1 wis r0 where "db w1 = db w" "wire w1 = wire w" "w' = w1 \<or> settle_all ps ch wis r0 w1 = (r, w')"
proof -
  obtain l w1 where l: "read_tx (ListBroadcastWithdrawals ch) w = (l, w1)"
    by fastforce
  have "\<exists>wis r0. w' = w1 \<or> settle_all ps ch wis r0 w1 = (r, w')"
    using assms l by (auto simp: PollReceipts_Execute_def split: sum.splits)
  then show thesis
    using that read_tx_world [OF l] by auto
qed

lemma poll_keeps:
  assumes "PollReceipts_Execute ps ch w = (r, w')" "P (db w)"
    and "\<And>i t d u d'. effect (SettleConfirmedWithdrawal i) t d u d' \<Longrightarrow> P d \<Longrightarrow> P d'"
    and "\<And>i t d u d'. effect (SettleFailedWithdrawal i) t d u d' \<Longrightarrow> P d \<Longrightarrow> P d'"
  shows "P (db w')"
proof -
  have "P (db w')" if "settle_all ps ch wis r0 w0 = (r, w')" "P (db w0)" for wis r0 w0
    using that settle_one_keeps [where P = P, OF _ _ assms(3,4)]
    by (induction wis arbitrary: r0 w0) (auto split: prod.splits)
  with poll_cases [OF assms(1)] show ?thesis
    using assms(2) by metis
qed

lemma core_poll:
  "PollReceipts_Execute ps ch w = (r, w') \<Longrightarrow> core_ok (db w) \<Longrightarrow> core_ok (db w')"
  by (rule poll_keeps [where P = core_ok]) (auto intro: core_settle_confirmed core_settle_failed)

lemma detect_cases:
  assumes "DetectStuck_Execute ch o' w = (r, w')"
  obtains w1 wis r0 where "db w1 = db w" "wire w1 = wire w" "w' = w1 \<or> alert_all wis r0 w1 = (r, w')"
proof -
  obtain l w1 where l: "read_tx (ListStuckCandidates ch o') w = (l, w1)"
    by fastforce
  have "\<exists>wis r0. w' = w1 \<or> alert_all wis r0 w1 = (r, w')"
    using assms l by (auto simp: DetectStuck_Execute_def split: sum.splits)
  then show thesis
    using that read_tx_world [OF l] by auto
qed

lemma detect_keeps:
  assumes "DetectStuck_Execute ch o' w = (r, w')" "P (db w)"
    and "\<And>i t d u d'. effect (MarkStuckAlerted i) t d u d' \<Longrightarrow> P d \<Longrightarrow> P d'"
  shows "P (db w')"
proof -
  have one: "P (db w2)" if "in_tx (MarkStuckAlerted i) w1 = (x, w2)" "P (db w1)" for i x w1 w2
    by (rule in_tx_keeps [where P = P, OF that]) (rule assms(3))
  have "P (db w')" if "alert_all wis r0 w0 = (r, w')" "P (db w0)" for wis r0 w0
    using that by (induction wis arbitrary: r0 w0) (auto split: prod.splits sum.splits dest: one)
  with detect_cases [OF assms(1)] show ?thesis
    using assms(2) by metis
qed

lemma core_detect:
  "DetectStuck_Execute ch o' w = (r, w') \<Longrightarrow> core_ok (db w) \<Longrightarrow> core_ok (db w')"
  by (rule detect_keeps [where P = core_ok]) (auto intro: core_mark_stuck)

text \<open>Neither sends anything to a node.\<close>

lemma poll_wire:
  assumes "PollReceipts_Execute ps ch w = (r, w')"
  shows "wire w' = wire w"
proof -
  have tx: "wire w2 = wire w1" if "in_tx (SettleConfirmedWithdrawal i) w1 = (x, w2) \<or>
      in_tx (SettleFailedWithdrawal i) w1 = (x, w2)" for i x w1 w2
    using that quietD(2) [OF quiet_in_tx, of "SettleConfirmedWithdrawal i" w1 x w2]
      quietD(2) [OF quiet_in_tx, of "SettleFailedWithdrawal i" w1 x w2]
    by (auto simp: SettleConfirmedWithdrawal_def SettleFailedWithdrawal_def)
  have one: "wire w' = wire w0" if "settle_one ps ch wi r0 w0 = (r1, w')" for wi r0 r1 w0 w'
    using that by (auto simp: settle_one_def split: sum.splits prod.splits if_splits dest: tx [OF disjI1] tx [OF disjI2])
  have "wire w' = wire w0" if "settle_all ps ch wis r0 w0 = (r1, w')" for wis r0 r1 w0 w'
    using that by (induction wis arbitrary: r0 w0) (auto split: prod.splits dest: one)
  with poll_cases [OF assms] show ?thesis
    by metis
qed

lemma detect_wire:
  assumes "DetectStuck_Execute ch o' w = (r, w')"
  shows "wire w' = wire w"
proof -
  have one: "wire w2 = wire w1" if "in_tx (MarkStuckAlerted i) w1 = (x, w2)" for i x w1 w2
    using quietD(2) [OF quiet_in_tx that] by simp
  have "wire w' = wire w0" if "alert_all wis r0 w0 = (r1, w')" for wis r0 r1 w0 w'
    using that by (induction wis arbitrary: r0 w0) (auto split: prod.splits sum.splits dest: one)
  with detect_cases [OF assms] show ?thesis
    by metis
qed

lemma core_tick:
  assumes "broadcaster_tick fuel pss ch stale stuck w = Some (k, pr, sr, w')" "core_ok (db w)"
    "pending (db w) ch < fuel"
  shows "core_ok (db w')"
proof -
  obtain l w1 where l: "IsLive ch stale w = (l, w1)"
    by fastforce
  have w1: "db w1 = db w"
    using l by (auto simp: IsLive_def bindm_def query_def stmt_def split: prod.splits if_splits
        dest!: next_outcome_world)
  let ?live = "case l of Inl _ \<Rightarrow> False | Inr b \<Rightarrow> b"
  obtain c e w2 where d: "drain fuel pss ch ?live 0 w1 = Some (c, e, w2)" "core_ok (db w2)"
    using drain_returns_core [of w1 ch fuel pss ?live 0] assms(2,3) w1 by auto
  obtain p w3 where p: "PollReceipts_Execute (pss (Suc c)) ch w2 = (p, w3)"
    by fastforce
  obtain s w4 where s: "DetectStuck_Execute ch stuck w3 = (s, w4)"
    by fastforce
  have "w' = w4"
    using assms(1) l d(1) p s by (simp add: broadcaster_tick_def Let_def)
  then show ?thesis
    using core_detect [OF s core_poll [OF p d(2)]] by simp
qed

subsection \<open>Sample runs\<close>

definition sample_approved :: database where
  "sample_approved = sample_awaiting
     \<lparr>withdrawals := [new_withdrawal_row ''w1'' sample_withdrawal 700 WithdrawalStatusApproved ''u1'' 10]\<rparr>"

definition sample_ports :: ports where
  "sample_ports =
     \<lparr>BuildUnsignedWithdrawal = (\<lambda>ch a n dest x. Inr ([1], [2])), Sign = (\<lambda>ch dg. Inr [3]),
      AssembleSignedTx = (\<lambda>u sg. Inr ([7, 171], ''0xaa'')), SendRawTransaction = (\<lambda>ch bs. None),
      GetFinalizedReceipt = (\<lambda>ch h. Inr (True, True))\<rparr>"

definition sample_signed :: database where
  "sample_signed = sample_approved
     \<lparr>withdrawals := [(new_withdrawal_row ''w1'' sample_withdrawal 700 WithdrawalStatusSigned ''u1'' 10)
        \<lparr>w_nonce := Some 0\<rparr>],
      chain_nonce_state := [\<lparr>n_chain = ChainBase, n_next_nonce = 1, n_updated_at = 11\<rparr>,
        \<lparr>n_chain = ChainArbitrum, n_next_nonce = 0, n_updated_at = 0\<rparr>],
      broadcast_attempts := [\<lparr>b_id = ''b1'', b_withdrawal_id = ''w1'', b_chain = ChainBase, b_nonce = 0,
        b_tx_hash = Some ''0xaa'', b_signed_tx = Some ''07ab'', b_created_at = 11\<rparr>]\<rparr>"

lemma core_sample_approved: "core_ok sample_approved"
  by code_simp

lemma core_sample_signed: "core_ok sample_signed"
  by code_simp

lemma sample_ports_nonempty: "assemble_nonempty sample_ports"
  by (simp add: assemble_nonempty_def sample_ports_def)

lemma safe_sample: "safe (later_world sample_approved)" "safe (later_world sample_signed)"
  using core_sample_approved core_sample_signed by (simp_all add: safe_def wire_ok_def later_world_def)

end
