(* ===== verification/Custody.thy ===== *)
theory Custody
  imports Broadcaster
begin

text \<open>
  The guarantees of the broadcaster process, as properties of its entry points, with sample runs
  that meet their hypotheses.
\<close>

subsection \<open>Lemmas for the properties\<close>

lemma nonce_unique:
  assumes "core_ok d" "b \<in> set (broadcast_attempts d)" "c \<in> set (broadcast_attempts d)"
    and "b_chain b = b_chain c" "b_nonce b = b_nonce c"
  shows "b = c"
proof -
  let ?f = "filter (\<lambda>x. b_chain x = b_chain b) (broadcast_attempts d)"
  have "distinct (map b_nonce ?f)"
  proof -
    have "nonces_ok d"
      using assms(1) by (simp add: core_ok_def pipeline_ok_def)
    then obtain n where "n \<in> set (chain_nonce_state d)" "n_chain n = b_chain b"
      "map b_nonce ?f = map int [0..<nat (n_next_nonce n)]"
      using assms(2) by (auto simp: nonces_ok_def)
    then show ?thesis
      by (simp add: distinct_map)
  qed
  then show ?thesis
    using assms(2-5) by (auto simp: distinct_map dest: inj_onD)
qed

lemma wire_as_claimed: "wire (snd (as_claimed x)) = wire (snd x)"
  by (simp add: as_claimed_def split: prod.splits sum.splits)

lemma wire_sendAndFinalize: "wire (snd (sendAndFinalize ps ch wi w)) = wire w @ [(ch, wi_signed_tx wi)]"
  using quiet_in_tx [OF quiet_MarkBroadcast [of "wi_id wi"]]
  by (auto simp: sendAndFinalize_def bindm_def send_raw_def quiet_def split: option.split)

text \<open>Everything but the claim leaves the nonces alone.\<close>

definition nonce_view :: "database \<Rightarrow> nonce_row list \<times> (uuid \<times> chain \<times> int) list" where
  "nonce_view d =
     (chain_nonce_state d, map (\<lambda>b. (b_withdrawal_id b, b_chain b, b_nonce b)) (broadcast_attempts d))"

lemma nonce_view_record:
  "effect (RecordSignedTx i h s) t d u d' \<Longrightarrow> nonce_view d' = nonce_view d"
  by (elim effect_RecordSignedTxE) (simp add: nonce_view_def map_modify)

lemma nonce_view_mark: "effect (MarkBroadcast i) t d u d' \<Longrightarrow> nonce_view d' = nonce_view d"
  by (elim effect_MarkBroadcastE) (auto dest!: effect_transition simp: nonce_view_def)

lemma nonce_view_send:
  assumes "sendAndFinalize ps ch wi w = (r, w')"
  shows "nonce_view (db w') = nonce_view (db w)"
proof -
  let ?w = "w\<lparr>wire := wire w @ [(ch, wi_signed_tx wi)]\<rparr>"
  have "in_tx (MarkBroadcast (wi_id wi)) ?w = (r, w') \<or> w' = ?w"
    using assms by (auto simp: sendAndFinalize_def bindm_def send_raw_def split: option.splits if_splits)
  then show ?thesis
    using in_tx_effect [of "MarkBroadcast (wi_id wi)" ?w r w'] nonce_view_mark by auto
qed

lemma nonce_view_sign:
  assumes "signAndSend ps ch wi w = (r, w')"
  shows "nonce_view (db w') = nonce_view (db w)"
  using assms
proof (cases rule: signAndSend_cases)
  case (2 v s bs h r1 w1)
  have "nonce_view (db w1) = nonce_view (db w)"
    using in_tx_effect [OF 2(2)] nonce_view_record by auto
  then show ?thesis
    using 2(3) by (cases r1) (auto dest: nonce_view_send)
qed simp

lemma nonce_view_resume:
  assumes "resume_signed ps ch wi w = (r, w')"
  shows "nonce_view (db w') = nonce_view (db w)"
  using assms by (auto simp: resume_signed_def as_claimed_def split: if_splits prod.splits sum.splits
      dest: nonce_view_send nonce_view_sign)

text \<open>What an alert does: it stamps the row and emits one event.\<close>

lemma effect_mark_stuck:
  assumes "effect (MarkStuckAlerted i) t d u d'"
  shows "\<forall>x\<in>set (withdrawals d'). w_id x = i \<longrightarrow> w_stuck_alerted_at x \<noteq> None"
    "\<exists>oid pl. outbox_events d' = outbox_events d @ [\<lparr>o_id = oid,
       o_event_type = withdrawalStuckEventType, o_payload = pl, o_created_at = t\<rparr>]"
    "\<exists>x\<in>set (withdrawals d). w_id x = i \<and> w_stuck_alerted_at x = None"
  using assms
  by (auto elim!: effect_MarkStuckAlertedE effect_emitE in_modifyE simp: update_withdrawals_Inr)

lemma stuck_candidates_listed:
  assumes "read_tx (ListStuckCandidates ch o') w = (Inr wis, w1)" "wi \<in> set wis"
  shows "\<exists>x\<in>set (withdrawals (db w)). w_id x = wi_id wi \<and> w_stuck_alerted_at x = None"
  using in_tx_when_Inr [OF assms(1) [unfolded read_tx_def]] assms(2)
  by (auto simp: ListStuckCandidates_def effect_query effect_time_now joined_attempts_set
      stuck_candidate_def empty_withdrawal_def elim!: effect_bindmE) blast+

subsection \<open>Properties\<close>

text \<open>C9: whatever fails and wherever the process stops, a call of \<^verbatim>\<open>SignAndBroadcastWithdrawal\<close>
  hands a node only bytes that an attempt on that chain has stored at that point and still stores
  afterwards, never an empty transaction; it keeps the ledger and the nonce sequence intact, and
  two attempts on a chain never share a nonce.\<close>

theorem persist_before_send:
  assumes "SignAndBroadcast_Execute ps ch allow w = (r, w')" "core_ok (db w)" "wire_ok (db w) (wire w)"
    and "assemble_nonempty ps"
  shows "core_ok (db w') \<and> wire_ok (db w') (wire w') \<and>
    (\<forall>b\<in>set (broadcast_attempts (db w')). \<forall>c\<in>set (broadcast_attempts (db w')).
       b_chain b = b_chain c \<and> b_nonce b = b_nonce c \<longrightarrow> b = c)"
  using safe_execute [OF assms(1) _ assms(4)] assms(2,3) nonce_unique [of "db w'"]
  by (auto simp: safe_def)

theorem persist_before_send_witness:
  "let w' = snd (SignAndBroadcast_Execute sample_ports ChainBase True (later_world sample_approved))
   in core_ok (db w') \<and> wire_ok (db w') (wire w') \<and> wire w' = [(ChainBase, [7, 171])]"
proof -
  have "wire (snd (SignAndBroadcast_Execute sample_ports ChainBase True (later_world sample_approved))) =
      [(ChainBase, [7, 171])]"
    by code_simp
  then show ?thesis
    using persist_before_send [where ps = sample_ports and ch = ChainBase and allow = True
        and w = "later_world sample_approved", OF surjective_pairing] safe_sample(1) sample_ports_nonempty
    by (simp add: safe_def Let_def)
qed

text \<open>C10: a signed withdrawal whose bytes are already persisted is sent again exactly as
  persisted: the call consults neither the signer nor the transaction builder nor the liveness
  gate, and adds exactly one transaction to the wire.\<close>

theorem resume_never_signs:
  assumes "read_tx (ListSignedWithdrawals ch) w = (Inr (wi # wis), w1)" "wi_signed_tx wi \<noteq> []"
    and "SendRawTransaction ps' = SendRawTransaction ps"
  shows "SignAndBroadcast_Execute ps' ch allow' w = SignAndBroadcast_Execute ps ch allow w \<and>
    wire (snd (SignAndBroadcast_Execute ps ch allow w)) = wire w @ [(ch, wi_signed_tx wi)] \<and>
    (\<exists>b\<in>set (broadcast_attempts (db w)). b_withdrawal_id b = wi_id wi \<and>
       decode_signed_tx (b_signed_tx b) = Some (wi_signed_tx wi))"
proof -
  obtain x :: withdrawal_row and b where xb: "b \<in> set (broadcast_attempts (db w))" "b_withdrawal_id b = w_id x"
    "wi_id wi = w_id x" "wi_nonce wi = Some (b_nonce b)"
    "decode_signed_tx (b_signed_tx b) = Some (wi_signed_tx wi)"
    using listed_signed [OF assms(1), of wi] by auto
  have "sendAndFinalize ps' ch wi w1 = sendAndFinalize ps ch wi w1"
    by (simp add: sendAndFinalize_def send_raw_def assms(3))
  then have "SignAndBroadcast_Execute ps' ch allow' w = SignAndBroadcast_Execute ps ch allow w"
    using assms(1,2) by (simp add: SignAndBroadcast_Execute_def resume_signed_def)
  moreover have "wire (snd (SignAndBroadcast_Execute ps ch allow w)) = wire w @ [(ch, wi_signed_tx wi)]"
    using assms(1,2) xb(4) read_tx_world(2) [OF assms(1)]
    by (simp add: SignAndBroadcast_Execute_def resume_signed_def wire_as_claimed wire_sendAndFinalize)
  ultimately show ?thesis
    using xb by auto
qed

lemma sample_signed_listed:
  "(case read_tx (ListSignedWithdrawals ChainBase) (later_world sample_signed) of
      (Inr [wi], w1) \<Rightarrow> wi_signed_tx wi = [7, 171] | _ \<Rightarrow> False)"
  by code_simp

theorem resume_never_signs_witness:
  "SignAndBroadcast_Execute sample_ports ChainBase False (later_world sample_signed) =
     SignAndBroadcast_Execute (sample_ports\<lparr>Sign := (\<lambda>ch dg. Inl (ErrText ''no key''))\<rparr>) ChainBase True
       (later_world sample_signed) \<and>
   wire (snd (SignAndBroadcast_Execute (sample_ports\<lparr>Sign := (\<lambda>ch dg. Inl (ErrText ''no key''))\<rparr>) ChainBase True
     (later_world sample_signed))) = [(ChainBase, [7, 171])]"
proof -
  let ?ps = "sample_ports\<lparr>Sign := (\<lambda>ch dg. Inl (ErrText ''no key''))\<rparr>"
  obtain wi w1 where "read_tx (ListSignedWithdrawals ChainBase) (later_world sample_signed) =
      (Inr [wi], w1)" "wi_signed_tx wi = [7, 171]"
    using sample_signed_listed by (auto split: prod.splits sum.splits list.splits)
  with resume_never_signs [of ChainBase "later_world sample_signed" wi "[]" w1 sample_ports ?ps False True]
  show ?thesis by (simp add: later_world_def)
qed

text \<open>C11: no nonce is allocated while the liveness gate is closed or while a signed withdrawal
  waits to be resumed: the nonce sequence and the list of attempts are as before, whatever the
  call does and however it ends.\<close>

theorem closed_gate_allocates_nothing:
  assumes "SignAndBroadcast_Execute ps ch allow w = (r, w')"
    and "\<not> allow \<or> (\<forall>w1. read_tx (ListSignedWithdrawals ch) w \<noteq> (Inr [], w1))"
  shows "chain_nonce_state (db w') = chain_nonce_state (db w) \<and>
    map (\<lambda>b. (b_withdrawal_id b, b_chain b, b_nonce b)) (broadcast_attempts (db w')) =
    map (\<lambda>b. (b_withdrawal_id b, b_chain b, b_nonce b)) (broadcast_attempts (db w))"
proof -
  obtain l w1 where l: "read_tx (ListSignedWithdrawals ch) w = (l, w1)"
    by fastforce
  have "db w1 = db w"
    using read_tx_world(1) [OF l] by simp
  then have "nonce_view (db w') = nonce_view (db w)"
    using assms l nonce_view_resume
    by (auto simp: SignAndBroadcast_Execute_def split: sum.splits list.splits if_splits)
  then show ?thesis
    by (simp add: nonce_view_def)
qed

theorem closed_gate_allocates_nothing_witness:
  "chain_nonce_state (db (snd (SignAndBroadcast_Execute sample_ports ChainBase False
     (later_world sample_approved)))) = chain_nonce_state sample_approved"
  using closed_gate_allocates_nothing [where ps = sample_ports and ch = ChainBase and allow = False
      and w = "later_world sample_approved", OF surjective_pairing]
  by (simp add: later_world_def)

text \<open>C12: a claim takes the oldest approved withdrawal of the chain and the chain's next nonce,
  advances the nonce by exactly one, records an attempt with no bytes yet and moves exactly that
  withdrawal to signed.\<close>

theorem claim_exact:
  assumes "claim_checked ch w = (Inr (Some wi), w')"
  shows "\<exists>x n aid. next_approved (db w) ch = Some x \<and> wi_id wi = w_id x \<and>
    (\<forall>y\<in>set (withdrawals (db w)). w_chain y = ch \<and> w_status y = WithdrawalStatusApproved \<longrightarrow>
       (w_created_at x, w_id x) \<le> (w_created_at y, w_id y)) \<and>
    n \<in> set (chain_nonce_state (db w)) \<and> n_chain n = ch \<and> wi_nonce wi = Some (n_next_nonce n) \<and>
    chain_nonce_state (db w') = modify (\<lambda>r. n_chain r = ch)
      (\<lambda>r. r\<lparr>n_next_nonce := n_next_nonce r + 1, n_updated_at := clock w\<rparr>) (chain_nonce_state (db w)) \<and>
    broadcast_attempts (db w') = broadcast_attempts (db w) @
      [\<lparr>b_id = aid, b_withdrawal_id = w_id x, b_chain = ch, b_nonce = n_next_nonce n, b_tx_hash = None,
        b_signed_tx = None, b_created_at = clock w\<rparr>] \<and>
    withdrawals (db w') = modify (\<lambda>r. w_id r = w_id x \<and> w_status r = WithdrawalStatusApproved)
      (\<lambda>r. r\<lparr>w_status := WithdrawalStatusSigned, w_nonce := Some (n_next_nonce n),
             w_updated_at := clock w\<rparr>) (withdrawals (db w))"
  using claim_checked_Some [OF assms]
proof (rule effect_ClaimE)
  fix r :: withdrawal_row and n :: nonce_row and m aid d1 d2
  assume r: "next_approved (db w) ch = Some r" and n: "n \<in> set (chain_nonce_state (db w))" "n_chain n = ch"
    and 1: "update_nonces (\<lambda>x. n_chain x = ch)
       (\<lambda>x. x\<lparr>n_next_nonce := n_next_nonce x + 1, n_updated_at := clock w\<rparr>) (db w) = Inr (m, d1)"
    and 2: "insert_broadcast_attempt \<lparr>b_id = aid, b_withdrawal_id = w_id r, b_chain = ch,
       b_nonce = n_next_nonce n, b_tx_hash = None, b_signed_tx = None, b_created_at = clock w\<rparr> d1 =
       Inr ((), d2)"
    and 3: "effect (transition (w_id r) WithdrawalStatusApproved
       (\<lambda>x. x\<lparr>w_status := WithdrawalStatusSigned, w_nonce := Some (n_next_nonce n),
              w_updated_at := clock w\<rparr>)
       (ErrText ''status changed concurrently while claiming'')) (clock w) d2 () (db w')"
    and wi: "wi_id wi = w_id r" "wi_nonce wi = Some (n_next_nonce n)"
  show ?thesis
    by (intro exI [of _ r] exI [of _ n] exI [of _ aid])
      (use r n 1 2 effect_transition [OF 3] wi next_approved_Some(4) [OF r] in
        \<open>auto simp: update_nonces_Inr insert_broadcast_attempt_def constrained_Inr\<close>)
qed

theorem claim_exact_witness:
  "\<exists>wi w'. claim_checked ChainBase (later_world sample_approved) = (Inr (Some wi), w') \<and>
     wi_nonce wi = Some 0 \<and> wi_id wi = ''w1''"
proof -
  have "(case fst (claim_checked ChainBase (later_world sample_approved)) of
      Inr (Some wi) \<Rightarrow> True | _ \<Rightarrow> False)"
    by code_simp
  then obtain wi w' where c: "claim_checked ChainBase (later_world sample_approved) = (Inr (Some wi), w')"
    by (cases "claim_checked ChainBase (later_world sample_approved)") (auto split: sum.splits option.splits)
  have "\<forall>n\<in>set (chain_nonce_state sample_approved). n_chain n = ChainBase \<longrightarrow> n_next_nonce n = 0"
    by code_simp
  moreover have "map_option w_id (next_approved sample_approved ChainBase) = Some ''w1''"
    by code_simp
  ultimately show ?thesis
    using claim_exact [OF c] c by (auto simp: later_world_def)
qed

text \<open>C13: the drain loop of the broadcaster ends.  Each iteration that claims makes progress, so
  more fuel than two per approved and one per signed withdrawal of the chain is enough for any
  ports and any faults, and the invariants hold where it stops.\<close>

theorem drain_returns:
  assumes "core_ok (db w)" "pending (db w) ch < fuel"
  shows "\<exists>k e w'. drain fuel pss ch live 0 w = Some (k, e, w') \<and> core_ok (db w')"
  by (rule drain_returns_core [OF assms])

theorem drain_returns_witness:
  "\<exists>k e w'. drain 3 (\<lambda>_. sample_ports) ChainBase True 0 (later_world sample_approved) = Some (k, e, w') \<and>
     core_ok (db w')"
proof -
  have "pending sample_approved ChainBase < 3"
    by code_simp
  then show ?thesis
    using drain_returns [of "later_world sample_approved" ChainBase 3] core_sample_approved
    by (simp add: later_world_def)
qed

text \<open>C14: a receipt that cannot be fetched, or is not final yet, holds up no other withdrawal:
  polling a batch leaves the same database, journal and faults as polling the batch without it.\<close>

theorem poll_skips_failures:
  assumes "\<forall>wi\<in>set wis. skip wi \<longrightarrow>
    (case GetFinalizedReceipt ps ch (wi_tx_hash wi) of Inl _ \<Rightarrow> True | Inr (found, _) \<Rightarrow> \<not> found)"
  shows "snd (settle_all ps ch wis r w) = snd (settle_all ps ch (filter (\<lambda>wi. \<not> skip wi) wis) r w)"
  by (rule settle_all_skips [OF assms])

definition partial_ports :: ports where
  "partial_ports = sample_ports\<lparr>GetFinalizedReceipt :=
     (\<lambda>ch h. if h = ''0xbad'' then Inl (ErrText ''timeout'') else Inr (True, True))\<rparr>"

theorem poll_skips_failures_witness:
  "snd (settle_all partial_ports ChainBase
     [empty_withdrawal\<lparr>wi_id := ''w0'', wi_tx_hash := ''0xbad''\<rparr>,
      empty_withdrawal\<lparr>wi_id := ''w1'', wi_tx_hash := ''0xaa''\<rparr>]
     \<lparr>pr_checked = 0, pr_confirmed = 0, pr_failed = 0, pr_errs = []\<rparr> (later_world sample_broadcast)) =
   snd (settle_all partial_ports ChainBase [empty_withdrawal\<lparr>wi_id := ''w1'', wi_tx_hash := ''0xaa''\<rparr>]
     \<lparr>pr_checked = 0, pr_confirmed = 0, pr_failed = 0, pr_errs = []\<rparr> (later_world sample_broadcast))"
  using poll_skips_failures [where skip = "\<lambda>wi. wi_tx_hash wi = ''0xbad''" and ps = partial_ports
      and ch = ChainBase and w = "later_world sample_broadcast"
      and r = "\<lparr>pr_checked = 0, pr_confirmed = 0, pr_failed = 0, pr_errs = []\<rparr>"
      and wis = "[empty_withdrawal\<lparr>wi_id := ''w0'', wi_tx_hash := ''0xbad''\<rparr>,
      empty_withdrawal\<lparr>wi_id := ''w1'', wi_tx_hash := ''0xaa''\<rparr>]"]
  by (simp add: partial_ports_def del: settle_all.simps)

text \<open>C15: a stuck withdrawal is alerted once: an alert that commits emits exactly one
  \<^verbatim>\<open>withdrawal.stuck\<close> event and stamps the row, after which the withdrawal is in no listing of
  candidates and a second alert fails without an event.\<close>

theorem stuck_alerted_once:
  assumes "in_tx (MarkStuckAlerted i) w = (Inr u, w')" "db w2 = db w'"
  shows "(\<exists>oid pl. outbox_events (db w') = outbox_events (db w) @ [\<lparr>o_id = oid,
       o_event_type = withdrawalStuckEventType, o_payload = pl, o_created_at = clock w\<rparr>]) \<and>
    (\<forall>ch o' wis w3. read_tx (ListStuckCandidates ch o') w2 = (Inr wis, w3) \<longrightarrow> i \<notin> wi_id ` set wis) \<and>
    isl (fst (in_tx (MarkStuckAlerted i) w2)) \<and> db (snd (in_tx (MarkStuckAlerted i) w2)) = db w2"
proof -
  note m = effect_mark_stuck [OF in_tx_Inr [OF assms(1)]]
  have no: "\<not> effect (MarkStuckAlerted i) t (db w2) v d" for t v d
    using m(1) effect_mark_stuck(3) [of i t "db w2" v d] assms(2) by metis
  have "db (snd (in_tx (MarkStuckAlerted i) w2)) = db w2"
    using in_tx_effect [of "MarkStuckAlerted i" w2] no by (metis surjective_pairing)
  moreover have "isl (fst (in_tx (MarkStuckAlerted i) w2))"
    using in_tx_Inr [of "MarkStuckAlerted i" w2] no
    by (metis isl_def surjective_pairing sum.exhaust)
  moreover have "i \<notin> wi_id ` set wis" if "read_tx (ListStuckCandidates ch o') w2 = (Inr wis, w3)" for ch o' wis w3
    using stuck_candidates_listed [OF that] m(1) assms(2) by fastforce
  ultimately show ?thesis
    using m(2) by blast
qed

lemma sample_stuck_fst:
  "isl (fst (in_tx (MarkStuckAlerted ''w1'') (later_world sample_signed))) = False"
  by code_simp

theorem stuck_alerted_once_witness:
  "isl (fst (in_tx (MarkStuckAlerted ''w1'') (snd (in_tx (MarkStuckAlerted ''w1'') (later_world sample_signed)))))"
proof -
  obtain u where "in_tx (MarkStuckAlerted ''w1'') (later_world sample_signed) =
      (Inr u, snd (in_tx (MarkStuckAlerted ''w1'') (later_world sample_signed)))"
    using succeeded_pair [OF sample_stuck_fst] by blast
  from stuck_alerted_once [OF this refl] show ?thesis
    by (elim conjE)
qed

end
