(* ===== verification/Deposits.thy ===== *)
theory Deposits
  imports Samples
begin

text \<open>
  The watcher: from a transfer seen on a chain to a credited balance.  Repository methods of
  \<^verbatim>\<open>postgres/deposit_repo.go\<close>, \<^verbatim>\<open>unsupported_token_repo.go\<close>, \<^verbatim>\<open>token_registry.go\<close> and
  \<^verbatim>\<open>deposit_address_lister.go\<close> first, then one poll cycle of
  \<^verbatim>\<open>core/track_deposits.go\<close>, then the reader \<^verbatim>\<open>deposit_reader.go\<close>.

  The port \<^verbatim>\<open>ChainScanner\<close> is the record \<open>scanner\<close>; one poll cycle asks it for the head once and
  scans at most one range, so a cycle gets one record, and two cycles may get different ones.
  Block numbers are \<^verbatim>\<open>uint64\<close>, so \<open>u64\<close>; a column of type \<^verbatim>\<open>bigint\<close> refuses one of
  \<^verbatim>\<open>2^63\<close> or more.
\<close>

record scanner =
  Head :: "error + u64 \<times> u64 \<times> u64"
  BlockHash :: "u64 \<Rightarrow> error + string \<times> bool"
  ScanDeposits :: "address list \<Rightarrow> (address \<Rightarrow> asset option) \<Rightarrow> u64 \<Rightarrow> u64 \<Rightarrow>
    error + observed_transfer list \<times> unsupported_token_observation list"

subsection \<open>Event types and payloads\<close>

definition depositPendingEventType :: string where
  "depositPendingEventType = ''deposit.pending''"

definition depositCreditCauseType :: string where
  "depositCreditCauseType = ''deposit_credit''"

definition depositCreditedEventType :: string where
  "depositCreditedEventType = ''deposit.credited''"

definition depositOrphanedEventType :: string where
  "depositOrphanedEventType = ''deposit.orphaned''"

definition depositPendingPayload :: "deposit \<Rightarrow> payload" where
  "depositPendingPayload x =
     [(''depositId'', JString (de_id x)), (''chain'', JString (de_chain x)),
      (''asset'', JString (de_asset x)), (''address'', JString (de_address x)),
      (''txHash'', JString (de_tx_hash x)), (''logIndex'', JInt (de_log_index x)),
      (''amount'', JMoney (de_amount x))]"

subsection \<open>Recording and promoting\<close>

definition deposit_row_of :: "deposit \<Rightarrow> deposit_row" where
  "deposit_row_of x =
     \<lparr>d_id = de_id x, d_chain = de_chain x, d_asset = de_asset x, d_address = de_address x,
      d_tx_hash = de_tx_hash x, d_log_index = de_log_index x, d_amount = de_amount x,
      d_block_number = de_block_number x, d_block_hash = Some (de_block_hash x),
      d_state = de_state x, d_observed_at = de_observed_at x, d_updated_at = de_updated_at x\<rparr>"

definition RecordObserved :: "deposit \<Rightarrow> bool db_m" where
  "RecordObserved x =
     bindm (stmt (insert_deposit_or_nothing (deposit_row_of x))) (\<lambda>n.
     if n = 0 then ret False else
     bindm (emit depositPendingEventType (depositPendingPayload x) (de_observed_at x)) (\<lambda>_.
     ret True))"

text \<open>\<^verbatim>\<open>UPDATE deposits SET state = to WHERE state = from AND chain = ch AND block_number <= b\<close>;
  \<open>now()\<close> is read by the server.\<close>

definition promote :: "deposit_state \<Rightarrow> deposit_state \<Rightarrow> chain \<Rightarrow> u64 \<Rightarrow> nat db_m" where
  "promote from to ch b =
     (if \<not> bigint (uint b) then raise (PgError ''bigint out of range'') else
      bindm time_now (\<lambda>now.
      stmt (update_deposits (\<lambda>r. d_state r = from \<and> d_chain r = ch \<and> d_block_number r \<le> b)
        (\<lambda>r. r\<lparr>d_state := to, d_updated_at := now\<rparr>))))"

definition PromoteToSafe :: "chain \<Rightarrow> u64 \<Rightarrow> nat db_m" where
  "PromoteToSafe ch safeBlock = promote DepositObserved DepositSafe ch safeBlock"

definition PromoteToFinalized :: "chain \<Rightarrow> u64 \<Rightarrow> nat db_m" where
  "PromoteToFinalized ch finalizedBlock = promote DepositSafe DepositFinalized ch finalizedBlock"

definition maxPendingDepositsPerReorgCheck :: nat where
  "maxPendingDepositsPerReorgCheck = 500"

definition deposit_of_row :: "deposit_row \<Rightarrow> deposit" where
  "deposit_of_row r =
     \<lparr>de_id = d_id r, de_chain = d_chain r, de_asset = d_asset r, de_address = d_address r,
      de_tx_hash = d_tx_hash r, de_log_index = d_log_index r, de_amount = d_amount r,
      de_block_number = d_block_number r,
      de_block_hash = (case d_block_hash r of None \<Rightarrow> [] | Some h \<Rightarrow> h),
      de_state = d_state r, de_observed_at = d_observed_at r, de_updated_at = d_updated_at r\<rparr>"

definition pending_rows :: "database \<Rightarrow> chain \<Rightarrow> deposit_row list" where
  "pending_rows d ch =
     sort_key (\<lambda>r. uint (d_block_number r))
       (filter (\<lambda>r. d_chain r = ch \<and> (d_state r = DepositObserved \<or> d_state r = DepositSafe))
         (deposits d))"

definition ListPendingDeposits :: "chain \<Rightarrow> deposit list db_m" where
  "ListPendingDeposits ch =
     query (\<lambda>d. map deposit_of_row (take maxPendingDepositsPerReorgCheck (pending_rows d ch)))"

definition OrphanDeposit :: "uuid \<Rightarrow> unit db_m" where
  "OrphanDeposit depositID =
     bindm time_now (\<lambda>now.
     bindm (stmt (update_deposits (\<lambda>r. d_id r = depositID)
       (\<lambda>r. r\<lparr>d_state := DepositOrphaned, d_updated_at := now\<rparr>))) (\<lambda>n.
     bindm (guardm (n \<noteq> 0) (ErrText ''no such deposit'')) (\<lambda>_.
     emit depositOrphanedEventType [(''depositId'', JString depositID)] now)))"

subsection \<open>Crediting\<close>

definition maxCreditsPerPoll :: nat where
  "maxCreditsPerPoll = 500"

record eligibleCreditDeposit =
  ed_deposit_id :: uuid
  ed_chain :: chain
  ed_asset :: asset
  ed_amount :: int
  ed_customer_id :: uuid
  ed_customer_account :: uuid
  ed_float_account :: uuid

text \<open>The policy-joined selection, before its order and limit.\<close>

definition credit_join :: "database \<Rightarrow> chain \<Rightarrow> (deposit_row \<times> eligibleCreditDeposit) list" where
  "credit_join d ch =
     [(x, \<lparr>ed_deposit_id = d_id x, ed_chain = d_chain x, ed_asset = d_asset x,
           ed_amount = d_amount x, ed_customer_id = da_customer_id da,
           ed_customer_account = a_id cust, ed_float_account = a_id fl\<rparr>).
        x \<leftarrow> filter (\<lambda>x. d_chain x = ch \<and> d_state x = DepositFinalized) (deposits d),
        da \<leftarrow> filter (\<lambda>da. da_address da = d_address x) (deposit_addresses d),
        cp \<leftarrow> filter (\<lambda>cp. cp_chain cp = d_chain x \<and> cp_asset cp = d_asset x \<and>
                          cp_credit_tier cp = ''finalized'') (crediting_policy d),
        cust \<leftarrow> filter (\<lambda>a. account_key a =
                  (Some (da_customer_id da), d_chain x, d_asset x, AccountTypeAvailable)) (accounts d),
        fl \<leftarrow> filter (\<lambda>a. account_key a =
                  (None, d_chain x, d_asset x, AccountTypeAvailable)) (accounts d)]"

definition eligible_deposits :: "database \<Rightarrow> chain \<Rightarrow> eligibleCreditDeposit list" where
  "eligible_deposits d ch =
     map snd (take maxCreditsPerPoll (sort_key (\<lambda>(x, e). uint (d_block_number x)) (credit_join d ch)))"

definition depositCreditedPayload :: "eligibleCreditDeposit \<Rightarrow> uuid \<Rightarrow> payload" where
  "depositCreditedPayload e je =
     [(''depositId'', JString (ed_deposit_id e)), (''journalEntryId'', JString je),
      (''chain'', JString (ed_chain e)), (''asset'', JString (ed_asset e)),
      (''amount'', JMoney (ed_amount e)), (''customerId'', JString (ed_customer_id e))]"

definition credit_deposit :: "time \<Rightarrow> eligibleCreditDeposit \<Rightarrow> unit db_m" where
  "credit_deposit now e =
     bindm (guardm (0 < ed_amount e) (ErrText ''non-positive amount'')) (\<lambda>_.
     bindm (post_entry (\<lambda>x. x) depositCreditCauseType (ed_deposit_id e)
       (ed_float_account e) (ed_customer_account e) (ed_amount e) now) (\<lambda>je.
     bindm (stmt (update_deposits (\<lambda>r. d_id r = ed_deposit_id e)
       (\<lambda>r. r\<lparr>d_state := DepositCredited, d_updated_at := now\<rparr>))) (\<lambda>_.
     emit depositCreditedEventType (depositCreditedPayload e je) now)))"

definition CreditFinalizedDeposits :: "chain \<Rightarrow> nat db_m" where
  "CreditFinalizedDeposits ch =
     bindm (query (\<lambda>d. eligible_deposits d ch)) (\<lambda>eligible.
     bindm time_now (\<lambda>now.
     bindm (for_each (credit_deposit now) eligible) (\<lambda>_.
     ret (length eligible))))"

subsection \<open>Cursors\<close>

definition Cursor :: "chain \<Rightarrow> string \<Rightarrow> u64 db_m" where
  "Cursor ch tier =
     query (\<lambda>d. (case select_first (\<lambda>r. wc_chain r = ch \<and> wc_tier r = tier) (watcher_cursors d) of
        None \<Rightarrow> 0 | Some r \<Rightarrow> wc_last_block r))"

definition upsert_watcher_cursor ::
    "watcher_cursor_row \<Rightarrow> database \<Rightarrow> error + unit \<times> database" where
  "upsert_watcher_cursor r d =
     (if \<not> bigint (uint (wc_last_block r)) then Inl (PgError ''bigint out of range'')
      else
        (let same = (\<lambda>x. wc_chain x = wc_chain r \<and> wc_tier x = wc_tier r) in
         if \<exists>x\<in>set (watcher_cursors d). same x
         then Inr ((), d\<lparr>watcher_cursors := modify same (\<lambda>_. r) (watcher_cursors d)\<rparr>)
         else Inr ((), d\<lparr>watcher_cursors := watcher_cursors d @ [r]\<rparr>)))"

definition SetCursor :: "chain \<Rightarrow> string \<Rightarrow> u64 \<Rightarrow> unit db_m" where
  "SetCursor ch tier block =
     bindm time_now (\<lambda>now.
     stmt (upsert_watcher_cursor
       \<lparr>wc_chain = ch, wc_tier = tier, wc_last_block = block, wc_updated_at = now\<rparr>))"

subsection \<open>Unsupported tokens, the token registry, the known addresses\<close>

definition RecordObservation :: "unsupported_token_observation \<Rightarrow> bool db_m" where
  "RecordObservation u =
     bindm (stmt (insert_observation_or_nothing u)) (\<lambda>n. ret (n \<noteq> 0))"

definition maxUnsupportedObservationsPerList :: nat where
  "maxUnsupportedObservationsPerList = 500"

definition ListObservations :: "unsupported_token_observation list db_m" where
  "ListObservations =
     query (\<lambda>d. take maxUnsupportedObservationsPerList
       (sort_key (\<lambda>u. - ut_observed_at u) (unsupported_token_observations d)))"

definition ListDepositAddresses :: "address list db_m" where
  "ListDepositAddresses = query (\<lambda>d. map da_address (deposit_addresses d))"

text \<open>The Go map built by scanning the rows: a later row replaces an earlier one.\<close>

fun registry_map :: "token_registry_row list \<Rightarrow> error + (address \<Rightarrow> asset option)" where
  "registry_map [] = Inr (\<lambda>_. None)"
| "registry_map (r # rs) =
     (if tk_asset r \<noteq> AssetUSDC then Inl (ErrText ''unrecognized asset'') else
      (case registry_map rs of
         Inl e \<Rightarrow> Inl e
       | Inr m \<Rightarrow> Inr (\<lambda>a. (case m a of Some x \<Rightarrow> Some x
           | None \<Rightarrow> if a = to_lower (tk_contract_address r) then Some (tk_asset r) else None))))"

definition ListTokenRegistry :: "chain \<Rightarrow> (address \<Rightarrow> asset option) db_m" where
  "ListTokenRegistry ch =
     bindm (query (\<lambda>d. filter (\<lambda>r. tk_chain r = ch) (token_registry d))) (\<lambda>rows.
     lift_result (registry_map rows))"

definition upsert_token_row :: "token_registry_row \<Rightarrow> database \<Rightarrow> error + unit \<times> database" where
  "upsert_token_row r d =
     (if \<not> (chain_check (tk_chain r) \<and> hex_pattern 40 (tk_contract_address r) \<and>
             tk_contract_address r = to_lower (tk_contract_address r) \<and> tk_asset r = AssetUSDC)
      then Inl (PgError ''constraint'')
      else
        (let same = (\<lambda>x. tk_chain x = tk_chain r \<and> tk_contract_address x = tk_contract_address r) in
         if \<exists>x\<in>set (token_registry d). same x
         then Inr ((), d\<lparr>token_registry := modify same (\<lambda>x. x\<lparr>tk_asset := tk_asset r\<rparr>) (token_registry d)\<rparr>)
         else Inr ((), d\<lparr>token_registry := token_registry d @ [r]\<rparr>)))"

definition UpsertToken :: "chain \<Rightarrow> address \<Rightarrow> asset \<Rightarrow> unit db_m" where
  "UpsertToken ch contractAddress a =
     stmt (upsert_token_row
       \<lparr>tk_chain = ch, tk_contract_address = to_lower contractAddress, tk_asset = a\<rparr>)"

subsection \<open>One poll cycle\<close>

definition maxBlocksPerScan :: u64 where
  "maxBlocksPerScan = 2000"

record execute_result =
  er_latest :: u64
  er_safe :: u64
  er_finalized :: u64
  er_scanned_from :: u64
  er_scanned_to :: u64
  er_deposits_observed :: nat
  er_unsupported_observed :: nat
  er_promoted_to_safe :: nat
  er_promoted_to_finalized :: nat
  er_credited :: nat

definition observe_transfer :: "time \<Rightarrow> observed_transfer \<Rightarrow> bool db_m" where
  "observe_transfer now t =
     bindm newUUIDv7 (\<lambda>i.
     RecordObserved
       \<lparr>de_id = i, de_chain = ot_chain t, de_asset = ot_asset t, de_address = ot_address t,
        de_tx_hash = ot_tx_hash t, de_log_index = ot_log_index t, de_amount = ot_amount t,
        de_block_number = ot_block_number t, de_block_hash = ot_block_hash t,
        de_state = DepositObserved, de_observed_at = now, de_updated_at = now\<rparr>)"

definition observe_unsupported :: "time \<Rightarrow> unsupported_token_observation \<Rightarrow> bool db_m" where
  "observe_unsupported now u =
     bindm newUUIDv7 (\<lambda>i. RecordObservation (u\<lparr>ut_id := i, ut_observed_at := now\<rparr>))"

definition count_true :: "bool list \<Rightarrow> nat" where
  "count_true bs = length (filter (\<lambda>b. b) bs)"

definition scan_to :: "u64 \<Rightarrow> u64 \<Rightarrow> u64" where
  "scan_to latest scanFrom =
     (if latest - scanFrom + 1 > maxBlocksPerScan then scanFrom + maxBlocksPerScan - 1 else latest)"

text \<open>The observed phase: nothing to do when the cursor has caught up.\<close>

definition scan_phase ::
    "scanner \<Rightarrow> chain \<Rightarrow> address list \<Rightarrow> (address \<Rightarrow> asset option) \<Rightarrow> u64 \<Rightarrow> u64 \<Rightarrow>
     (u64 \<times> u64 \<times> nat \<times> nat) db_m" where
  "scan_phase sc ch addresses tokenRegistry latest scanFrom =
     (if scanFrom \<le> latest then
        let scanTo = scan_to latest scanFrom in
        bindm (lift_result (ScanDeposits sc addresses tokenRegistry scanFrom scanTo)) (\<lambda>(transfers, unsupported).
        bindm time_now (\<lambda>now.
        bindm (mapm (observe_transfer now) transfers) (\<lambda>ins.
        bindm (mapm (observe_unsupported now) unsupported) (\<lambda>uns.
        bindm (SetCursor ch CursorTierObserved scanTo) (\<lambda>_.
        ret (scanFrom, scanTo, count_true ins, count_true uns))))))
      else ret (0, 0, 0, 0))"

definition poll_cycle ::
    "scanner \<Rightarrow> chain \<Rightarrow> address list \<Rightarrow> (address \<Rightarrow> asset option) \<Rightarrow> u64 \<Rightarrow> u64 \<Rightarrow> u64 \<Rightarrow>
     execute_result db_m" where
  "poll_cycle sc ch addresses tokenRegistry latest safe finalized =
     bindm (Cursor ch CursorTierObserved) (\<lambda>observedCursor.
     bindm (guardm (observedCursor \<le> latest)
       (ErrText ''observed cursor is ahead of the reported head'')) (\<lambda>_.
     bindm (scan_phase sc ch addresses tokenRegistry latest (observedCursor + 1)) (\<lambda>(from, to, observed, unsupported).
     bindm (PromoteToSafe ch safe) (\<lambda>promotedToSafe.
     bindm (SetCursor ch CursorTierSafe safe) (\<lambda>_.
     bindm (PromoteToFinalized ch finalized) (\<lambda>promotedToFinalized.
     bindm (SetCursor ch CursorTierFinalized finalized) (\<lambda>_.
     bindm (CreditFinalizedDeposits ch) (\<lambda>credits.
     ret \<lparr>er_latest = latest, er_safe = safe, er_finalized = finalized, er_scanned_from = from,
          er_scanned_to = to, er_deposits_observed = observed, er_unsupported_observed = unsupported,
          er_promoted_to_safe = promotedToSafe, er_promoted_to_finalized = promotedToFinalized,
          er_credited = credits\<rparr>))))))))"

definition TrackDeposits_Execute :: "scanner \<Rightarrow> chain \<Rightarrow> execute_result db_m" where
  "TrackDeposits_Execute sc ch =
     bindm ListDepositAddresses (\<lambda>addresses.
     bindm (ListTokenRegistry ch) (\<lambda>tokenRegistry.
     bindm (lift_result (Head sc)) (\<lambda>(latest, safe, finalized).
     bindm (guardm (finalized \<le> safe \<and> safe \<le> latest) (ErrText ''inconsistent tags'')) (\<lambda>_.
     in_tx (poll_cycle sc ch addresses tokenRegistry latest safe finalized)))))"

subsection \<open>The reorg check\<close>

text \<open>Defined by the code and called by no poll cycle: its call in \<^verbatim>\<open>Execute\<close> is commented out.
  The scanner answers the same way for the same height within a cycle, which is what the cache of
  the code ensures.\<close>

definition check_pending :: "scanner \<Rightarrow> deposit \<Rightarrow> unit db_m" where
  "check_pending sc x =
     (if de_block_hash x = [] then ret () else
      bindm (lift_result (BlockHash sc (de_block_number x))) (\<lambda>(hash, exists).
      if \<not> exists \<or> hash \<noteq> de_block_hash x then OrphanDeposit (de_id x) else ret ()))"

definition checkForReorgs :: "scanner \<Rightarrow> chain \<Rightarrow> unit db_m" where
  "checkForReorgs sc ch =
     bindm (ListPendingDeposits ch) (\<lambda>pending. for_each (check_pending sc) pending)"

subsection \<open>Reading a customer's deposits\<close>

definition ListCustomerDeposits :: "uuid \<Rightarrow> deposit list db_m" where
  "ListCustomerDeposits customerID =
     bindm (query (\<lambda>d. customerID \<in> c_id ` set (customers d))) (\<lambda>exists.
     if \<not> exists then raise ErrCustomerNotFound else
     query (\<lambda>d. map (\<lambda>x. (deposit_of_row x)\<lparr>de_block_hash := []\<rparr>)
       (sort_key (\<lambda>x. - d_observed_at x)
         [x. x \<leftarrow> deposits d, da \<leftarrow> deposit_addresses d, da_address da = d_address x \<and>
             da_customer_id da = customerID \<and>
             (d_state x = DepositObserved \<or> d_state x = DepositSafe \<or> d_state x = DepositOrphaned)])))"

subsection \<open>Effects\<close>

lemma quiet_RecordObserved [simp]: "quiet (RecordObserved x)"
  by (simp add: RecordObserved_def)

lemma quiet_promote [simp]: "quiet (promote from to ch b)"
  by (simp add: promote_def)

lemma quiet_OrphanDeposit [simp]: "quiet (OrphanDeposit i)"
  by (simp add: OrphanDeposit_def)

lemma quiet_credit_deposit [simp]: "quiet (credit_deposit now e)"
  by (simp add: credit_deposit_def)

lemma quiet_deposit_steps [simp]:
  "quiet (PromoteToSafe ch b)" "quiet (PromoteToFinalized ch b)" "quiet (CreditFinalizedDeposits ch)"
  "quiet (Cursor ch tier)" "quiet (SetCursor ch tier b)" "quiet (RecordObservation u)"
  "quiet (ListDepositAddresses)" "quiet (ListTokenRegistry ch)" "quiet (ListPendingDeposits ch)"
  "quiet (observe_transfer now ot)" "quiet (observe_unsupported now u)"
  by (simp_all add: PromoteToSafe_def PromoteToFinalized_def CreditFinalizedDeposits_def Cursor_def
      SetCursor_def RecordObservation_def ListDepositAddresses_def ListTokenRegistry_def
      ListPendingDeposits_def observe_transfer_def observe_unsupported_def)

lemma quiet_scan_phase [simp]: "quiet (scan_phase sc ch as reg latest from)"
  by (auto simp: scan_phase_def Let_def split: prod.split intro!: quiet_bindm)

lemma quiet_poll_cycle [simp]: "quiet (poll_cycle sc ch as reg latest safe fin)"
  by (auto simp: poll_cycle_def split: prod.split intro!: quiet_bindm)

text \<open>What the watcher may do to the tables: it leaves customers, accounts, withdrawals, attempts
  and nonces alone.\<close>

definition watcher_view ::
    "database \<Rightarrow> customer_row list \<times> account_row list \<times> deposit_address_row list \<times> withdrawal_row list \<times>
     nonce_row list \<times> attempt_row list \<times> threshold_row list" where
  "watcher_view d = (customers d, accounts d, deposit_addresses d, withdrawals d, chain_nonce_state d,
     broadcast_attempts d, withdrawal_approval_thresholds d)"

lemma effect_RecordObservedE:
  assumes "effect (RecordObserved x) t d b d'"
  obtains "\<not> b" "d' = d" "deposit_key (deposit_row_of x) \<in> deposit_key ` set (active_deposits d)"
  | d1 where "b" "insert_deposit_or_nothing (deposit_row_of x) d = Inr (1, d1)"
    "d1 = d\<lparr>deposits := deposits d @ [deposit_row_of x]\<rparr>"
    "effect (emit depositPendingEventType (depositPendingPayload x) (de_observed_at x)) t d1 () d'"
proof -
  from assms obtain n d1 where i: "insert_deposit_or_nothing (deposit_row_of x) d = Inr (n, d1)"
    and r: "effect (if n = 0 then ret False else
      bindm (emit depositPendingEventType (depositPendingPayload x) (de_observed_at x)) (\<lambda>_. ret True)) t d1 b d'"
    by (auto simp: RecordObserved_def effect_stmt elim!: effect_bindmE)
  show thesis
  proof (cases "n = 0")
    case True
    then have "d1 = d" "deposit_key (deposit_row_of x) \<in> deposit_key ` set (active_deposits d)"
      using i by (auto simp: insert_deposit_or_nothing_def active_deposits_def
          intro: rev_image_eqI split: if_splits)
    then show thesis
      using that(1) r True by (simp add: effect_ret)
  next
    case False
    then show thesis
      using that(2) [of d1] i r
      by (auto simp: insert_deposit_or_nothing_def effect_ret split: if_splits elim!: effect_bindmE)
  qed
qed

lemma effect_promoteE:
  assumes "effect (promote from to ch b) t d n d'"
  obtains "d' = d\<lparr>deposits := modify (\<lambda>r. d_state r = from \<and> d_chain r = ch \<and> d_block_number r \<le> b)
      (\<lambda>r. r\<lparr>d_state := to, d_updated_at := t\<rparr>) (deposits d)\<rparr>"
    "n = length (filter (\<lambda>r. d_state r = from \<and> d_chain r = ch \<and> d_block_number r \<le> b) (deposits d))"
    "bigint (uint b)"
  using assms by (auto simp: promote_def effect_stmt effect_time_now effect_raise update_deposits_Inr
      split: if_splits elim!: effect_bindmE)

lemma effect_SetCursorE:
  assumes "effect (SetCursor ch tier b) t d u d'"
  obtains cs where "d' = d\<lparr>watcher_cursors := cs\<rparr>" "bigint (uint b)"
  using assms by (auto simp: SetCursor_def effect_stmt effect_time_now upsert_watcher_cursor_def Let_def
      split: if_splits elim!: effect_bindmE)

lemma effect_RecordObservationE:
  assumes "effect (RecordObservation u) t d b d'"
  obtains os where "insert_observation_or_nothing u d = Inr (if b then 1 else 0, d')"
    "d' = d\<lparr>unsupported_token_observations := os\<rparr>"
proof (rule that [of "unsupported_token_observations d'"])
  show "insert_observation_or_nothing u d = Inr (if b then 1 else 0, d')"
    "d' = d\<lparr>unsupported_token_observations := unsupported_token_observations d'\<rparr>"
    using assms by (auto simp: RecordObservation_def effect_stmt effect_ret insert_observation_or_nothing_def
        split: if_splits elim!: effect_bindmE)
qed

lemma effect_credit_depositE:
  assumes "effect (credit_deposit now e) t d u d'"
  obtains je p1 p2 d1 where "0 < ed_amount e"
    "fresh_entry d je p1 p2 depositCreditCauseType (ed_deposit_id e) (ed_float_account e)
       (ed_customer_account e) (ed_amount e)"
    "d1 = (posted d je p1 p2 depositCreditCauseType (ed_deposit_id e) (ed_float_account e)
       (ed_customer_account e) (ed_amount e) now)
       \<lparr>deposits := modify (\<lambda>r. d_id r = ed_deposit_id e)
          (\<lambda>r. r\<lparr>d_state := DepositCredited, d_updated_at := now\<rparr>) (deposits d)\<rparr>"
    "effect (emit depositCreditedEventType (depositCreditedPayload e je) now) t d1 () d'"
  using assms
  by (auto simp: credit_deposit_def effect_stmt effect_guardm update_deposits_Inr
      elim!: effect_bindmE effect_post_entryE)

subsection \<open>The ledger\<close>

lemma ledger_deposits:
  assumes "ledger_ok d" "schema_ok (d\<lparr>deposits := xs\<rparr>)"
    and "\<And>ch a. credited (d\<lparr>deposits := xs\<rparr>) ch a = credited d ch a"
  shows "ledger_ok (d\<lparr>deposits := xs\<rparr>)"
proof -
  have "account_matches (d\<lparr>deposits := xs\<rparr>) r = account_matches d r" for r
    by (simp add: account_matches_def assms(3) split: option.split account_type.split)
  then show ?thesis
    using assms(1,2) by (simp add: ledger_ok_def books_def)
qed

lemma ledger_record_observed:
  assumes "effect (RecordObserved x) t d b d'" "ledger_ok d" "de_state x = DepositObserved"
  shows "ledger_ok d'"
  using assms(1)
proof (cases rule: effect_RecordObservedE)
  case (2 d1)
  have "schema_ok d1"
    using schema_insert_deposit [OF 2(2)] assms(2) by (simp add: ledger_ok_def)
  then have "ledger_ok d1"
    unfolding 2(3) by (rule ledger_deposits [OF assms(2)])
      (simp add: credited_def deposit_row_of_def assms(3))
  then show ?thesis
    by (rule ledger_emit [OF 2(4)])
qed (use assms(2) in simp)

lemma ledger_promote:
  assumes "effect (promote from to ch b) t d n d'" "ledger_ok d"
    and "from \<noteq> DepositCredited" "from \<noteq> DepositOrphaned" "to \<noteq> DepositCredited"
  shows "ledger_ok d'"
  using assms(1)
proof (cases rule: effect_promoteE)
  case 1
  let ?p = "\<lambda>r. d_state r = from \<and> d_chain r = ch \<and> d_block_number r \<le> b"
  let ?f = "\<lambda>r. r\<lparr>d_state := to, d_updated_at := t\<rparr>"
  have "schema_ok d'"
    by (rule schema_update_deposits [of ?p ?f d "length (filter ?p (deposits d))"])
      (use assms 1 in \<open>auto simp: update_deposits_Inr ledger_ok_def deposit_key_def deposit_checks_def\<close>)
  then show ?thesis
    unfolding 1(1)
    by (rule ledger_deposits [OF assms(2)])
      (use assms(3,5) in \<open>auto simp: credited_def intro!: total_of_modify_same\<close>)
qed

text \<open>An entry of the selection stays good until it is credited: its deposit is there, unchanged,
  and finalized unless an entry with its cause exists.\<close>

definition creditable :: "database \<Rightarrow> eligibleCreditDeposit \<Rightarrow> bool" where
  "creditable d e \<longleftrightarrow>
     (\<exists>x\<in>set (deposits d). d_id x = ed_deposit_id e \<and> d_chain x = ed_chain e \<and>
        d_asset x = ed_asset e \<and> d_amount x = ed_amount e \<and>
        (d_state x = DepositFinalized \<or>
         (depositCreditCauseType, ed_deposit_id e) \<in> cause ` set (journal_entries d))) \<and>
     (\<exists>r\<in>set (accounts d). a_id r = ed_float_account e \<and>
        account_key r = (None, ed_chain e, ed_asset e, AccountTypeAvailable)) \<and>
     (\<exists>s\<in>set (accounts d). a_id s = ed_customer_account e \<and>
        account_key s = (Some (ed_customer_id e), ed_chain e, ed_asset e, AccountTypeAvailable))"

lemma eligible_creditable: "e \<in> set (eligible_deposits d ch) \<Longrightarrow> creditable d e"
  by (fastforce simp: eligible_deposits_def credit_join_def creditable_def dest!: in_set_takeD)

text \<open>The books after a credit: the float account goes down by what the credited total goes up.\<close>

lemma books_credit:
  assumes "ledger_ok d" "0 < n"
    and "fresh_entry d je p1 p2 ct i (a_id r) (a_id s) n"
    and "x \<in> set (deposits d)" "d_id x = i" "d_chain x = ch" "d_asset x = a" "d_amount x = n"
    "d_state x = DepositFinalized"
    and "r \<in> set (accounts d)" "account_key r = (None, ch, a, AccountTypeAvailable)"
    and "s \<in> set (accounts d)" "account_key s = (Some c, ch, a, AccountTypeAvailable)"
    and D: "D = (posted d je p1 p2 ct i (a_id r) (a_id s) n now)
       \<lparr>deposits := modify (\<lambda>x. d_id x = i) (\<lambda>x. x\<lparr>d_state := DepositCredited, d_updated_at := now\<rparr>)
          (deposits d)\<rparr>"
  shows "books D"
proof -
  have ok: "books d" "accounts_ok d" "distinct (map d_id (deposits d))"
    using assms(1) by (auto simp: ledger_ok_def schema_ok_def deposits_ok_def)
  have cr: "credited D ch' a' = credited d ch' a' + (if ch' = ch \<and> a' = a then n else 0)" for ch' a'
    unfolding credited_def D
    using total_of_modify [OF ok(3) assms(4), of "\<lambda>x. d_id x = i"] assms(5-9) by simp
  have bal: "balance D z = balance d z - (if z = a_id r then n else 0) + (if z = a_id s then n else 0)" for z
    by (simp add: D balance_posted)
  have rs: "a_id r \<noteq> a_id s"
    using accounts_same_id [OF ok(2) assms(10,12)] assms(11,13) by auto
  have acc: "account_matches D y" if y: "y \<in> set (accounts d)" for y
  proof -
    have m: "account_matches d y"
      using ok(1) y by (simp add: books_def)
    note same = accounts_same_id [OF ok(2) y] accounts_same_key [OF ok(2) y]
    have h: "held D = held d" "settled D = settled d"
      by (simp_all add: D)
    consider "y = r" | "y = s" | "y \<noteq> r" "y \<noteq> s"
      by blast
    then show ?thesis
    proof cases
      case 1
      then show ?thesis
        using m rs assms(11) by (auto simp: account_matches_def account_key_def bal cr)
    next
      case 2
      then show ?thesis
        using m rs assms(2,13) by (auto simp: account_matches_def account_key_def bal)
    next
      case 3
      then have "account_key y \<noteq> account_key r"
        using same(2) assms(10) by simp
      then show ?thesis
        using m assms(11) 3 same(1) assms(10,12)
        by (auto simp: account_matches_def account_key_def bal cr h split: option.splits account_type.splits)
    qed
  qed
  then show ?thesis
    by (simp add: books_def D)
qed

lemma ledger_ok_deposits: "ledger_ok d \<Longrightarrow> deposits_ok d"
  by (simp add: ledger_ok_def schema_ok_def)

lemma deposit_unique:
  assumes "deposits_ok d" "x \<in> set (deposits d)" "y \<in> set (deposits d)" "d_id x = d_id y"
  shows "x = y"
  using assms inj_onD [of d_id "set (deposits d)"] by (auto simp: deposits_ok_def distinct_map)

lemma ledger_credit_deposit:
  assumes "effect (credit_deposit now e) t d u d'" "ledger_ok d" "creditable d e"
  shows "ledger_ok d'"
  using assms(1)
proof (cases rule: effect_credit_depositE)
  case (1 je p1 p2 d1)
  from assms(3) obtain x r s where x: "x \<in> set (deposits d)" "d_id x = ed_deposit_id e"
    "d_chain x = ed_chain e" "d_asset x = ed_asset e" "d_amount x = ed_amount e" "d_state x = DepositFinalized"
    and r: "r \<in> set (accounts d)" "a_id r = ed_float_account e"
      "account_key r = (None, ed_chain e, ed_asset e, AccountTypeAvailable)"
    and s: "s \<in> set (accounts d)" "a_id s = ed_customer_account e"
      "account_key s = (Some (ed_customer_id e), ed_chain e, ed_asset e, AccountTypeAvailable)"
    using fresh_entry_cause [OF 1(2)] unfolding creditable_def by blast
  let ?P = "posted d je p1 p2 depositCreditCauseType (ed_deposit_id e) (a_id r) (a_id s) (ed_amount e) now"
  let ?f = "\<lambda>x. x\<lparr>d_state := DepositCredited, d_updated_at := now\<rparr>"
  have f: "fresh_entry d je p1 p2 depositCreditCauseType (ed_deposit_id e) (a_id r) (a_id s) (ed_amount e)"
    and d1: "d1 = ?P\<lparr>deposits := modify (\<lambda>x. d_id x = ed_deposit_id e) ?f (deposits d)\<rparr>"
    using 1(2,3) r(2) s(2) by simp_all
  have "a_chain r = a_chain s" "a_asset r = a_asset s"
    using r(3) s(3) by (auto simp: account_key_def)
  note inv = entry_invariants [OF assms(2) f 1(1) r(1) s(1) this, of now]
  have only: "y = x" if "y \<in> set (deposits d)" "d_id y = ed_deposit_id e" for y
    using deposit_unique [OF ledger_ok_deposits [OF assms(2)]] that x(1,2) by simp
  have "schema_ok d1"
  proof (rule schema_update_deposits)
    show "update_deposits (\<lambda>x. d_id x = ed_deposit_id e) ?f ?P =
        Inr (length (filter (\<lambda>x. d_id x = ed_deposit_id e) (deposits ?P)), d1)"
      by (simp add: update_deposits_Inr d1)
    show "schema_ok ?P"
      by (rule inv(1))
    show "d_state (?f y) = DepositOrphaned" if "y \<in> set (deposits ?P)" "d_id y = ed_deposit_id e"
      "d_state y = DepositOrphaned" for y
      using only [of y] that x(6) by simp
  qed (simp add: deposit_key_def deposit_checks_def)
  moreover have "books d1"
    by (rule books_credit [OF assms(2) 1(1) f x r(1,3) s(1,3) d1])
  ultimately have "ledger_ok d1"
    using inv by (simp add: ledger_ok_def d1)
  then show ?thesis
    by (rule ledger_emit [OF 1(4)])
qed

lemma creditable_credit_deposit:
  assumes "effect (credit_deposit now e) t d u d'" "creditable d e'"
  shows "creditable d' e'"
  using assms(1)
proof (cases rule: effect_credit_depositE)
  case (1 je p1 p2 d1)
  from assms(2) obtain x where x: "x \<in> set (deposits d)" "d_id x = ed_deposit_id e'" "d_chain x = ed_chain e'"
    "d_asset x = ed_asset e'" "d_amount x = ed_amount e'"
    "d_state x = DepositFinalized \<or> (depositCreditCauseType, ed_deposit_id e') \<in> cause ` set (journal_entries d)"
    unfolding creditable_def by blast
  let ?y = "if d_id x = ed_deposit_id e then x\<lparr>d_state := DepositCredited, d_updated_at := now\<rparr> else x"
  have j: "journal_entries d1 = journal_entries d @ [\<lparr>j_id = je, j_cause_type = depositCreditCauseType,
      j_cause_id = ed_deposit_id e, j_created_at = now\<rparr>]"
    by (simp add: 1(3) posted_def)
  have "?y \<in> set (deposits d1)"
    using x(1) by (auto simp: 1(3) set_modify)
  moreover have "d_state ?y = DepositFinalized \<or>
      (depositCreditCauseType, ed_deposit_id e') \<in> cause ` set (journal_entries d1)"
    using x(2,6) by (auto simp: j cause_def)
  ultimately have "creditable d1 e'"
    using assms(2) x(2-5) unfolding creditable_def by (auto simp: 1(3) intro!: bexI [of _ ?y])
  then show ?thesis
    using 1(4) by (auto simp: creditable_def elim!: effect_emitE)
qed

text \<open>The loop over the selection.\<close>

lemma effect_for_each_credit:
  assumes "effect (for_each (credit_deposit now) es) t d u d'" "ledger_ok d" "\<forall>e\<in>set es. creditable d e"
  shows "ledger_ok d'"
  using assms
proof (induction es arbitrary: d)
  case (Cons e es)
  then obtain d1 where e: "effect (credit_deposit now e) t d () d1"
    and es: "effect (for_each (credit_deposit now) es) t d1 u d'"
    by (auto elim!: effect_bindmE)
  show ?case
    by (rule Cons.IH [OF es ledger_credit_deposit [OF e]])
      (use Cons.prems(2,3) creditable_credit_deposit [OF e] in auto)
qed (simp add: effect_ret)

lemma effect_CreditE:
  assumes "effect (CreditFinalizedDeposits ch) t d n d'"
  obtains "n = length (eligible_deposits d ch)"
    "effect (for_each (credit_deposit t) (eligible_deposits d ch)) t d () d'"
  using assms by (auto simp: CreditFinalizedDeposits_def effect_query effect_time_now effect_ret
      elim!: effect_bindmE)

lemma ledger_credit:
  assumes "effect (CreditFinalizedDeposits ch) t d n d'" "ledger_ok d"
  shows "ledger_ok d'"
  using assms eligible_creditable by (auto elim!: effect_CreditE dest: effect_for_each_credit)

lemma effect_mapm_keeps:
  assumes "effect (mapm f xs) t d ys d'" "P d"
    and "\<And>x d y d'. x \<in> set xs \<Longrightarrow> effect (f x) t d y d' \<Longrightarrow> P d \<Longrightarrow> P d'" "\<And>x. quiet (f x)"
  shows "P d'"
  using assms(1-3)
proof (induction xs arbitrary: d ys)
  case (Cons x xs)
  then obtain y d1 ys' where "effect (f x) t d y d1" "effect (mapm f xs) t d1 ys' d'"
    using assms(4) by (auto simp: effect_ret elim!: effect_bindmE)
  then show ?case
    using Cons.IH [of d1 ys'] Cons.prems(2,3) by (metis list.set_intros)
qed (simp add: effect_ret)

lemma ledger_observe_transfer:
  assumes "effect (observe_transfer now x) t d b d'" "ledger_ok d"
  shows "ledger_ok d'"
  using assms by (auto simp: observe_transfer_def m_success elim!: effect_bindmE dest!: ledger_record_observed)

lemma effect_observe_unsupportedE:
  assumes "effect (observe_unsupported now u) t d b d'"
  obtains os where "d' = d\<lparr>unsupported_token_observations := os\<rparr>"
  using assms by (auto simp: observe_unsupported_def m_success elim!: effect_bindmE effect_RecordObservationE)

end
