(* ===== verification/Encoding.thy ===== *)
theory Encoding
  imports Prelude
begin

text \<open>
  Integers as byte strings: \<^verbatim>\<open>SetBytes\<close> and \<^verbatim>\<open>FillBytes\<close> of \<^verbatim>\<open>math/big\<close>, and what
  \<^verbatim>\<open>encoding/asn1\<close> does with the two structures the code unmarshals, an ECDSA signature and a
  public key.  Offsets into the input are the rest of the input.  \<open>der_signature\<close> is the DER
  encoding of a signature, for the statement that reading it back returns it.
\<close>

subsection \<open>Big-endian numbers\<close>

text \<open>\<^verbatim>\<open>big.Int.SetBytes\<close>: an unsigned big-endian number.\<close>

definition SetBytes :: "byte list \<Rightarrow> int" where
  "SetBytes bs = foldl (\<lambda>n b. 256 * n + uint b) 0 bs"

fun big_endian :: "nat \<Rightarrow> int \<Rightarrow> byte list" where
  "big_endian 0 n = []"
| "big_endian (Suc k) n = big_endian k (n div 256) @ [word_of_int n]"

text \<open>\<^verbatim>\<open>big.Int.FillBytes\<close> writes the absolute value; a number that does not fit panics.\<close>

definition FillBytes :: "nat \<Rightarrow> int \<Rightarrow> error + byte list" where
  "FillBytes k n =
     (if \<bar>n\<bar> < 256 ^ k then Inr (big_endian k \<bar>n\<bar>) else Inl (ErrText ''panic: buffer too small''))"

lemma SetBytes_Nil [simp]: "SetBytes [] = 0"
  by (simp add: SetBytes_def)

lemma SetBytes_snoc [simp]: "SetBytes (bs @ [b]) = 256 * SetBytes bs + uint b"
  by (simp add: SetBytes_def)

lemma SetBytes_Cons: "SetBytes (b # bs) = uint b * 256 ^ length bs + SetBytes bs"
  by (induction bs rule: rev_induct) (simp_all add: SetBytes_def algebra_simps)

lemma SetBytes_bounds: "0 \<le> SetBytes bs" "SetBytes bs < 256 ^ length bs"
proof (induction bs rule: rev_induct)
  case (snoc b bs)
  have b: "0 \<le> uint b" "uint b < 256"
    using uint_bounded [of b] by simp_all
  { case 1 show ?case using snoc(1) b by simp }
  { case 2 show ?case using snoc(2) b by simp }
qed simp_all

lemma length_big_endian [simp]: "length (big_endian k n) = k"
  by (induction k n rule: big_endian.induct) auto

lemma SetBytes_big_endian:
  "0 \<le> n \<Longrightarrow> n < 256 ^ k \<Longrightarrow> SetBytes (big_endian k n) = n"
proof (induction k n rule: big_endian.induct)
  case (2 k n)
  then have "SetBytes (big_endian k (n div 256)) = n div 256"
    by (intro 2(1)) (simp_all add: div_less_iff_less_mult algebra_simps pos_imp_zdiv_nonneg_iff)
  then show ?case
    by (simp add: uint_word_of_int)
qed simp

subsection \<open>Tags and lengths\<close>

fun long_length :: "nat \<Rightarrow> nat \<Rightarrow> byte list \<Rightarrow> error + nat \<times> byte list" where
  "long_length 0 n bs = Inr (n, bs)"
| "long_length (Suc k) n [] = Inl (ErrText ''truncated tag or length'')"
| "long_length (Suc k) n (b # bs) =
     (if 8388608 \<le> n then Inl (ErrText ''length too large'')
      else (let n' = 256 * n + unat b in
        if n' = 0 then Inl (ErrText ''superfluous leading zeros in length'') else long_length k n' bs))"

definition parse_length :: "byte list \<Rightarrow> error + nat \<times> byte list" where
  "parse_length bs =
     (case bs of
        [] \<Rightarrow> Inl (ErrText ''truncated tag or length'')
      | b # rest \<Rightarrow>
          if unat b < 128 then Inr (unat b, rest)
          else if unat b = 128 then Inl (ErrText ''indefinite length found (not DER)'')
          else (case long_length (unat b - 128) 0 rest of
              Inl e \<Rightarrow> Inl e
            | Inr (n, rest') \<Rightarrow> if n < 128 then Inl (ErrText ''non-minimal length'') else Inr (n, rest')))"

fun parseBase128Int :: "nat \<Rightarrow> nat \<Rightarrow> byte list \<Rightarrow> error + nat \<times> byte list" where
  "parseBase128Int shifted n [] = Inl (ErrText ''truncated base 128 integer'')"
| "parseBase128Int shifted n (b # bs) =
     (if shifted = 5 then Inl (ErrText ''base 128 integer too large'')
      else if shifted = 0 \<and> b = 128 then Inl (ErrText ''integer is not minimally encoded'')
      else (let n' = 128 * n + unat b mod 128 in
        if unat b < 128
        then (if 2147483647 < n' then Inl (ErrText ''base 128 integer too large'') else Inr (n', bs))
        else parseBase128Int (Suc shifted) n' bs))"

text \<open>A tag: its class, whether it is compound, its number.\<close>

type_synonym asn1_tag = "nat \<times> bool \<times> nat"

definition parse_tag :: "byte list \<Rightarrow> error + asn1_tag \<times> byte list" where
  "parse_tag bs =
     (case bs of
        [] \<Rightarrow> Inl (ErrText ''truncated tag or length'')
      | b # rest \<Rightarrow>
          let cl = unat b div 64; compound = (unat b div 32 mod 2 = 1); tag = unat b mod 32 in
          if tag \<noteq> 31 then Inr ((cl, compound, tag), rest)
          else (case parseBase128Int 0 0 rest of
              Inl e \<Rightarrow> Inl e
            | Inr (tag', rest') \<Rightarrow>
                if tag' < 31 then Inl (ErrText ''non-minimal tag'') else Inr ((cl, compound, tag'), rest')))"

definition parseTagAndLength :: "byte list \<Rightarrow> error + asn1_tag \<times> nat \<times> byte list" where
  "parseTagAndLength bs =
     (case parse_tag bs of
        Inl e \<Rightarrow> Inl e
      | Inr (tag, rest) \<Rightarrow>
          (case parse_length rest of Inl e \<Rightarrow> Inl e | Inr (n, rest') \<Rightarrow> Inr (tag, n, rest')))"

text \<open>One field: its contents, and what follows it.\<close>

definition parse_any :: "byte list \<Rightarrow> error + asn1_tag \<times> byte list \<times> byte list" where
  "parse_any bs =
     (case parseTagAndLength bs of
        Inl e \<Rightarrow> Inl e
      | Inr (tag, n, rest) \<Rightarrow>
          if length rest < n then Inl (ErrText ''data truncated'') else Inr (tag, take n rest, drop n rest))"

definition parse_field :: "asn1_tag \<Rightarrow> byte list \<Rightarrow> error + byte list \<times> byte list" where
  "parse_field expected bs =
     (if bs = [] then Inl (ErrText ''sequence truncated'')
      else (case parseTagAndLength bs of
          Inl e \<Rightarrow> Inl e
        | Inr (tag, n, rest) \<Rightarrow>
            if tag \<noteq> expected then Inl (ErrText ''tags do not match'')
            else if length rest < n then Inl (ErrText ''data truncated'')
            else Inr (take n rest, drop n rest)))"

definition TagSequence :: asn1_tag where "TagSequence = (0, True, 16)"
definition TagInteger :: asn1_tag where "TagInteger = (0, False, 2)"
definition TagBitString :: asn1_tag where "TagBitString = (0, False, 3)"
definition TagOID :: asn1_tag where "TagOID = (0, False, 6)"

subsection \<open>Values\<close>

definition checkInteger :: "byte list \<Rightarrow> error option" where
  "checkInteger bs =
     (case bs of
        [] \<Rightarrow> Some (ErrText ''empty integer'')
      | [b] \<Rightarrow> None
      | b # c # _ \<Rightarrow>
          if b = 0 \<and> unat c < 128 \<or> b = 255 \<and> 128 \<le> unat c
          then Some (ErrText ''integer not minimally-encoded'') else None)"

definition parseBigInt :: "byte list \<Rightarrow> error + int" where
  "parseBigInt bs =
     (case checkInteger bs of
        Some e \<Rightarrow> Inl e
      | None \<Rightarrow> Inr (if 128 \<le> unat (hd bs) then SetBytes bs - 256 ^ length bs else SetBytes bs))"

definition parseBitString :: "byte list \<Rightarrow> error + byte list" where
  "parseBitString bs =
     (case bs of
        [] \<Rightarrow> Inl (ErrText ''zero length BIT STRING'')
      | b # rest \<Rightarrow>
          if 7 < unat b \<or> rest = [] \<and> 0 < unat b \<or> unat (last bs) mod 2 ^ unat b \<noteq> 0
          then Inl (ErrText ''invalid padding bits in BIT STRING'') else Inr rest)"

fun check_arcs :: "nat \<Rightarrow> byte list \<Rightarrow> error option" where
  "check_arcs fuel [] = None"
| "check_arcs 0 (b # bs) = Some (ErrText ''zero length OBJECT IDENTIFIER'')"
| "check_arcs (Suc fuel) (b # bs) =
     (case parseBase128Int 0 0 (b # bs) of Inl e \<Rightarrow> Some e | Inr (n, rest) \<Rightarrow> check_arcs fuel rest)"

definition parseObjectIdentifier :: "byte list \<Rightarrow> error option" where
  "parseObjectIdentifier bs =
     (if bs = [] then Some (ErrText ''zero length OBJECT IDENTIFIER'') else check_arcs (length bs) bs)"

subsection \<open>The DER encoding of a signature\<close>

function minimal :: "int \<Rightarrow> byte list" where
  "minimal n = (if n < 256 then [word_of_int n] else minimal (n div 256) @ [word_of_int n])"
  by auto
termination by (relation "measure nat") auto

declare minimal.simps [simp del]

definition der_integer :: "int \<Rightarrow> byte list" where
  "der_integer n =
     (let bs = minimal n; cs = (if 128 \<le> unat (hd bs) then 0 # bs else bs) in 2 # of_nat (length cs) # cs)"

definition der_signature :: "int \<Rightarrow> int \<Rightarrow> byte list" where
  "der_signature r s = (let body = der_integer r @ der_integer s in 0x30 # of_nat (length body) # body)"

lemma minimal_nonempty [simp]: "minimal n \<noteq> []"
  by (subst minimal.simps) simp

lemma SetBytes_minimal: "0 \<le> n \<Longrightarrow> SetBytes (minimal n) = n"
proof (induction n rule: minimal.induct)
  case (1 n)
  show ?case
  proof (cases "n < 256")
    case True
    then show ?thesis
      using 1(2) by (subst minimal.simps) (simp add: SetBytes_def uint_word_of_int)
  next
    case False
    then have "SetBytes (minimal (n div 256)) = n div 256"
      using 1 by simp
    then show ?thesis
      using False by (subst minimal.simps) (simp add: uint_word_of_int)
  qed
qed

lemma length_minimal: "0 \<le> n \<Longrightarrow> n < 256 ^ Suc k \<Longrightarrow> length (minimal n) \<le> Suc k"
proof (induction n arbitrary: k rule: minimal.induct)
  case (1 n)
  show ?case
  proof (cases "n < 256")
    case True
    then show ?thesis
      by (subst minimal.simps) simp
  next
    case False
    then obtain j where k: "k = Suc j"
      using 1(3) by (cases k) auto
    have "length (minimal (n div 256)) \<le> Suc j"
      using False 1(2,3) by (intro 1(1)) (auto simp: k div_less_iff_less_mult algebra_simps)
    then show ?thesis
      using False by (subst minimal.simps) (simp add: k)
  qed
qed

text \<open>A minimal encoding of two bytes or more starts with a byte that is not zero.\<close>

lemma hd_minimal: "256 \<le> n \<Longrightarrow> hd (minimal n) \<noteq> 0"
proof (induction n rule: minimal.induct)
  case (1 n)
  show ?case
  proof (cases "n div 256 < 256")
    case True
    moreover have "1 \<le> n div 256"
      using 1(2) by (simp add: zdiv_mono1 [of 256 n 256, simplified])
    ultimately have "uint (word_of_int (n div 256) :: byte) \<noteq> 0"
      by (simp add: uint_word_of_int)
    then have "(word_of_int (n div 256) :: byte) \<noteq> 0"
      by (metis unsigned_0)
    then show ?thesis
      using True 1(2) by (subst minimal.simps, subst minimal.simps) simp
  next
    case False
    then have "hd (minimal (n div 256)) \<noteq> 0"
      using 1 by simp
    then show ?thesis
      using 1(2) by (subst minimal.simps) simp
  qed
qed

lemma parse_tag_der [simp]:
  "parse_tag (0x30 # bs) = Inr (TagSequence, bs)" "parse_tag (2 # bs) = Inr (TagInteger, bs)"
  by (simp_all add: parse_tag_def TagSequence_def TagInteger_def)

lemma parse_length_short: "n < 128 \<Longrightarrow> parse_length (of_nat n # bs) = Inr (n, bs)"
  by (simp add: parse_length_def unsigned_of_nat take_bit_nat_eq_self)

lemma parse_field_short:
  assumes "parse_tag (b # of_nat (length cs) # cs @ rest) = Inr (tag, of_nat (length cs) # cs @ rest)" "length cs < 128"
  shows "parse_field tag (b # of_nat (length cs) # cs @ rest) = Inr (cs, rest)"
  using assms parse_length_short [OF assms(2)] by (simp add: parse_field_def parseTagAndLength_def)

definition integer_bytes :: "int \<Rightarrow> byte list" where
  "integer_bytes n = (let bs = minimal n in if 128 \<le> unat (hd bs) then 0 # bs else bs)"

lemma der_integer_bytes: "der_integer n = 2 # of_nat (length (integer_bytes n)) # integer_bytes n"
  by (simp add: der_integer_def integer_bytes_def Let_def)

lemma length_integer_bytes: "0 \<le> n \<Longrightarrow> n < 256 ^ 32 \<Longrightarrow> length (integer_bytes n) \<le> 33"
  using length_minimal [of n 31] by (simp add: integer_bytes_def Let_def)

lemma minimal_small: "n < 256 \<Longrightarrow> minimal n = [word_of_int n]"
  by (subst minimal.simps) simp

lemma minimal_two:
  assumes "256 \<le> n"
  obtains b c cs where "minimal n = b # c # cs" "b \<noteq> 0"
proof -
  have "minimal n = minimal (n div 256) @ [word_of_int n]"
    using assms by (subst minimal.simps) simp
  moreover obtain b bs where "minimal (n div 256) = b # bs"
    by (cases "minimal (n div 256)") auto
  ultimately obtain c cs where m: "minimal n = b # c # cs"
    by (cases bs) auto
  then show thesis
    using that hd_minimal [OF assms] by simp
qed

lemma checkInteger_bytes:
  assumes "0 \<le> n"
  shows "checkInteger (integer_bytes n) = None"
proof (cases "n < 256")
  case True
  then show ?thesis
    by (simp add: integer_bytes_def minimal_small checkInteger_def Let_def)
next
  case False
  then have "256 \<le> n"
    by simp
  then obtain b c cs where "minimal n = b # c # cs" "b \<noteq> 0"
    by (rule minimal_two)
  then show ?thesis
    by (auto simp: integer_bytes_def checkInteger_def Let_def)
qed

lemma parseBigInt_bytes: "0 \<le> n \<Longrightarrow> parseBigInt (integer_bytes n) = Inr n"
  using checkInteger_bytes [of n] SetBytes_minimal [of n]
  by (auto simp: parseBigInt_def integer_bytes_def Let_def SetBytes_Cons)

end
