(* ===== verification/Scanner.thy ===== *)
theory Scanner
  imports Deposits Encoding
begin

text \<open>
  The chain scanner of the watcher (\<^verbatim>\<open>evm/scanner.go\<close>): the tags of the chain, the hash of a block,
  and the transfers that reach a known address in a range of blocks, as top-level transactions, as
  internal calls of a traced transaction, or as logs of a token contract.

  \<open>scan_client\<close> is the node behind the RPC interface and \<open>evm_lib\<close> the functions of go-ethereum the
  scanner calls; both are parameters.  An address is 20 bytes and a hash 32 bytes, as byte lists.
  The loop over the blocks counts in 64 bits and can fail to end at the top of that range, so it is
  a partial function: \<open>None\<close> is a scan that does not return.
\<close>

subsection \<open>The node\<close>

record evm_lib =
  HexToAddress :: "string \<Rightarrow> byte list"
  AddressHex :: "byte list \<Rightarrow> string"
  HashHex :: "byte list \<Rightarrow> string"
  BytesToAddress :: "byte list \<Rightarrow> byte list"
  BytesToHash :: "byte list \<Rightarrow> byte list"
  Keccak256Hash :: "string \<Rightarrow> byte list"

datatype rpc_error = NotFound | RpcFailed error

datatype block_tag = SafeBlockNumber | FinalizedBlockNumber | AtBlock u64

record block_header =
  bh_number :: "int option"
  bh_hash :: "byte list"

record raw_transaction =
  rt_hash :: "byte list"
  rt_to :: "byte list option"
  rt_value :: "int option"

record raw_block =
  rb_hash :: "byte list"
  rb_transactions :: "raw_transaction list"

datatype call_frame =
  CallFrame (cf_type: string) (cf_from: "byte list") (cf_to: "byte list option") (cf_value: "int option")
    (cf_error: string) (cf_calls: "call_frame list")

record tx_call_trace =
  tt_hash :: "byte list"
  tt_result :: call_frame
  tt_error :: string

record chain_log =
  lg_address :: "byte list"
  lg_topics :: "byte list list"
  lg_data :: "byte list"
  lg_block_number :: u64
  lg_block_hash :: "byte list"
  lg_tx_hash :: "byte list"
  lg_index :: u64
  lg_removed :: bool

text \<open>A filter for logs; each position of the topics is a set of alternatives, or anything.\<close>

record filter_query =
  fq_from :: u64
  fq_to :: u64
  fq_topics :: "byte list set option list"

record scan_client =
  BlockNumber :: "error + u64"
  HeaderByNumber :: "block_tag \<Rightarrow> rpc_error + block_header option"
  FilterLogs :: "filter_query \<Rightarrow> error + chain_log list"
  GetBlockByNumber :: "u64 \<Rightarrow> error + raw_block"
  TraceBlockByNumber :: "u64 \<Rightarrow> error + tx_call_trace list"

subsection \<open>Tags and hashes\<close>

definition nativeTransferLogIndex :: int where
  "nativeTransferLogIndex = -1"

definition tag_number :: "scan_client \<Rightarrow> block_tag \<Rightarrow> error + u64" where
  "tag_number client tag =
     (case HeaderByNumber client tag of
        Inl NotFound \<Rightarrow> Inl (ErrText ''not found'')
      | Inl (RpcFailed e) \<Rightarrow> Inl e
      | Inr None \<Rightarrow> Inl (ErrText ''RPC returned no header'')
      | Inr (Some h) \<Rightarrow>
          (case bh_number h of
             None \<Rightarrow> Inl (ErrText ''RPC returned no header'') | Some n \<Rightarrow> Inr (word_of_int n)))"

definition Scanner_Head :: "scan_client \<Rightarrow> error + u64 \<times> u64 \<times> u64" where
  "Scanner_Head client =
     (case BlockNumber client of
        Inl e \<Rightarrow> Inl e
      | Inr latest \<Rightarrow>
     (case tag_number client SafeBlockNumber of
        Inl e \<Rightarrow> Inl e
      | Inr sb \<Rightarrow>
     (case tag_number client FinalizedBlockNumber of
        Inl e \<Rightarrow> Inl e
      | Inr fb \<Rightarrow> Inr (latest, sb, fb))))"

definition Scanner_BlockHash :: "evm_lib \<Rightarrow> scan_client \<Rightarrow> u64 \<Rightarrow> error + string \<times> bool" where
  "Scanner_BlockHash lib client b =
     (case HeaderByNumber client (AtBlock b) of
        Inl NotFound \<Rightarrow> Inr ([], False)
      | Inl (RpcFailed e) \<Rightarrow> Inl e
      | Inr None \<Rightarrow> Inl (ErrText ''nil pointer'')
      | Inr (Some h) \<Rightarrow> Inr (HashHex lib (bh_hash h), True))"

subsection \<open>Top-level transfers\<close>

definition known_addresses :: "evm_lib \<Rightarrow> address list \<Rightarrow> byte list \<Rightarrow> address option" where
  "known_addresses lib knownAddresses = map_of (rev (map (\<lambda>a. (HexToAddress lib a, a)) knownAddresses))"

definition native_transfer ::
    "evm_lib \<Rightarrow> chain \<Rightarrow> (byte list \<Rightarrow> address option) \<Rightarrow> raw_block \<Rightarrow> u64 \<Rightarrow> raw_transaction \<Rightarrow>
     observed_transfer option" where
  "native_transfer lib ch known block blockNum tx =
     (case rt_to tx of
        None \<Rightarrow> None
      | Some to_address \<Rightarrow>
     (case known to_address of
        None \<Rightarrow> None
      | Some addr \<Rightarrow>
     (case rt_value tx of
        None \<Rightarrow> None
      | Some v \<Rightarrow>
          if v \<le> 0 then None
          else Some \<lparr>ot_chain = ch, ot_asset = AssetETH, ot_address = addr, ot_tx_hash = HashHex lib (rt_hash tx),
            ot_log_index = nativeTransferLogIndex, ot_amount = v, ot_block_number = blockNum,
            ot_block_hash = HashHex lib (rb_hash block)\<rparr>)))"

subsection \<open>Internal transfers\<close>

definition internal_transfer ::
    "evm_lib \<Rightarrow> chain \<Rightarrow> raw_block \<Rightarrow> u64 \<Rightarrow> byte list \<Rightarrow> int \<Rightarrow> address \<Rightarrow> int \<Rightarrow> observed_transfer" where
  "internal_transfer lib ch block blockNum txHash idx addr v =
     \<lparr>ot_chain = ch, ot_asset = AssetETH, ot_address = addr, ot_tx_hash = HashHex lib txHash,
      ot_log_index = -2 - idx, ot_amount = v, ot_block_number = blockNum,
      ot_block_hash = HashHex lib (rb_hash block)\<rparr>"

lemma internal_transfer_fields [simp]:
  "ot_chain (internal_transfer lib ch block b h i addr v) = ch"
  "ot_asset (internal_transfer lib ch block b h i addr v) = AssetETH"
  "ot_address (internal_transfer lib ch block b h i addr v) = addr"
  "ot_tx_hash (internal_transfer lib ch block b h i addr v) = HashHex lib h"
  "ot_log_index (internal_transfer lib ch block b h i addr v) = -2 - i"
  "ot_amount (internal_transfer lib ch block b h i addr v) = v"
  "ot_block_number (internal_transfer lib ch block b h i addr v) = b"
  by (simp_all add: internal_transfer_def)

text \<open>What a frame of a call tree is recorded as, at its index in the walk, if it is.\<close>

definition frame_transfer ::
    "evm_lib \<Rightarrow> chain \<Rightarrow> (byte list \<Rightarrow> address option) \<Rightarrow> raw_block \<Rightarrow> u64 \<Rightarrow> byte list \<Rightarrow> int \<Rightarrow> bool \<Rightarrow>
     call_frame \<Rightarrow> observed_transfer list" where
  "frame_transfer lib ch known block blockNum txHash idx reverted child =
     (if \<not> reverted \<and> cf_type child = ''CALL'' then
        (case cf_to child of
           None \<Rightarrow> []
         | Some to_address \<Rightarrow>
        (case cf_value child of
           None \<Rightarrow> []
         | Some v \<Rightarrow>
        (case known to_address of
           None \<Rightarrow> []
         | Some addr \<Rightarrow>
             if v > 0
             then [internal_transfer lib ch block blockNum txHash idx addr v]
             else [])))
      else [])"

text \<open>\<^verbatim>\<open>walk\<close>: the state is \<^verbatim>\<open>dfsIndex\<close> and the transfers found so far.\<close>

fun walk ::
    "(int \<Rightarrow> bool \<Rightarrow> call_frame \<Rightarrow> observed_transfer list) \<Rightarrow> bool \<Rightarrow> call_frame list \<Rightarrow>
     int \<times> observed_transfer list \<Rightarrow> int \<times> observed_transfer list" where
  "walk visit reverted [] s = s"
| "walk visit reverted (CallFrame ty src dst v err calls # rest) (dfsIndex, transfers) =
     (let childReverted = reverted \<or> err \<noteq> [] in
      walk visit reverted rest
        (walk visit childReverted calls
           (dfsIndex + 1, transfers @ visit dfsIndex childReverted (CallFrame ty src dst v err calls))))"

definition trace_transfers ::
    "evm_lib \<Rightarrow> chain \<Rightarrow> (byte list \<Rightarrow> address option) \<Rightarrow> raw_block \<Rightarrow> u64 \<Rightarrow> tx_call_trace \<Rightarrow>
     observed_transfer list" where
  "trace_transfers lib ch known block blockNum trace =
     (if tt_error trace \<noteq> [] then []
      else snd (walk (frame_transfer lib ch known block blockNum (tt_hash trace))
             (cf_error (tt_result trace) \<noteq> []) (cf_calls (tt_result trace)) (0, [])))"

text \<open>The flag is \<^verbatim>\<open>internalTraceDisabled\<close>.\<close>

definition scanInternalTransfers ::
    "evm_lib \<Rightarrow> chain \<Rightarrow> scan_client \<Rightarrow> address list \<Rightarrow> raw_block \<Rightarrow> u64 \<Rightarrow> bool \<Rightarrow> observed_transfer list \<times> bool" where
  "scanInternalTransfers lib ch client knownAddresses block blockNum disabled =
     (if disabled \<or> knownAddresses = [] then ([], disabled)
      else (case TraceBlockByNumber client blockNum of
          Inl e \<Rightarrow> ([], True)
        | Inr traces \<Rightarrow>
            (concat (map (trace_transfers lib ch (known_addresses lib knownAddresses) block blockNum) traces),
             disabled)))"

partial_function (option) scan_blocks ::
    "evm_lib \<Rightarrow> chain \<Rightarrow> scan_client \<Rightarrow> address list \<Rightarrow> u64 \<Rightarrow> u64 \<Rightarrow> bool \<Rightarrow> observed_transfer list \<Rightarrow>
     ((error + observed_transfer list) \<times> bool) option" where
  [code]: "scan_blocks lib ch client knownAddresses toBlock blockNum disabled transfers =
     (if blockNum \<le> toBlock then
        (case GetBlockByNumber client blockNum of
           Inl e \<Rightarrow> Some (Inl e, disabled)
         | Inr block \<Rightarrow>
             (case scanInternalTransfers lib ch client knownAddresses block blockNum disabled of
                (internal, disabled') \<Rightarrow>
                  scan_blocks lib ch client knownAddresses toBlock (blockNum + 1) disabled'
                    (transfers @
                     List.map_filter (native_transfer lib ch (known_addresses lib knownAddresses) block blockNum)
                       (rb_transactions block) @ internal)))
      else Some (Inr transfers, disabled))"

definition scanNativeTransfers ::
    "evm_lib \<Rightarrow> chain \<Rightarrow> scan_client \<Rightarrow> address list \<Rightarrow> u64 \<Rightarrow> u64 \<Rightarrow> bool \<Rightarrow>
     ((error + observed_transfer list) \<times> bool) option" where
  "scanNativeTransfers lib ch client knownAddresses fromBlock toBlock disabled =
     scan_blocks lib ch client knownAddresses toBlock fromBlock disabled []"

subsection \<open>Token transfers\<close>

definition erc20TransferSignature :: "evm_lib \<Rightarrow> byte list" where
  "erc20TransferSignature lib = Keccak256Hash lib ''Transfer(address,address,uint256)''"

definition token_query :: "evm_lib \<Rightarrow> address list \<Rightarrow> u64 \<Rightarrow> u64 \<Rightarrow> filter_query" where
  "token_query lib knownAddresses fromBlock toBlock =
     \<lparr>fq_from = fromBlock, fq_to = toBlock,
      fq_topics = [Some {erc20TransferSignature lib}, None,
        Some (set (map (\<lambda>a. BytesToHash lib (HexToAddress lib a)) knownAddresses))]\<rparr>"

datatype log_class = Skipped | Transfer observed_transfer | Unsupported unsupported_token_observation

definition classify_log ::
    "evm_lib \<Rightarrow> chain \<Rightarrow> (byte list \<Rightarrow> address option) \<Rightarrow> (address \<Rightarrow> asset option) \<Rightarrow> chain_log \<Rightarrow> log_class" where
  "classify_log lib ch known tokenRegistry l =
     (if lg_removed l \<or> length (lg_topics l) \<noteq> 3 \<or> length (lg_data l) \<noteq> 32 then Skipped
      else (case known (BytesToAddress lib (lg_topics l ! 2)) of
          None \<Rightarrow> Skipped
        | Some addr \<Rightarrow>
            let amount = SetBytes (lg_data l) in
            if amount \<le> 0 then Skipped
            else (case tokenRegistry (to_lower (AddressHex lib (lg_address l))) of
                None \<Rightarrow> Unsupported
                  \<lparr>ut_id = [], ut_chain = ch, ut_address = addr,
                   ut_contract_address = AddressHex lib (lg_address l),
                   ut_tx_hash = HashHex lib (lg_tx_hash l), ut_log_index = sint (lg_index l),
                   ut_amount = amount, ut_block_number = lg_block_number l, ut_observed_at = 0\<rparr>
              | Some a \<Rightarrow> Transfer
                  \<lparr>ot_chain = ch, ot_asset = a, ot_address = addr, ot_tx_hash = HashHex lib (lg_tx_hash l),
                   ot_log_index = sint (lg_index l), ot_amount = amount,
                   ot_block_number = lg_block_number l, ot_block_hash = HashHex lib (lg_block_hash l)\<rparr>)))"

definition transfers_of :: "log_class list \<Rightarrow> observed_transfer list" where
  "transfers_of cs = concat (map (\<lambda>c. case c of Transfer t \<Rightarrow> [t] | _ \<Rightarrow> []) cs)"

definition unsupported_of :: "log_class list \<Rightarrow> unsupported_token_observation list" where
  "unsupported_of cs = concat (map (\<lambda>c. case c of Unsupported u \<Rightarrow> [u] | _ \<Rightarrow> []) cs)"

definition scanERC20Transfers ::
    "evm_lib \<Rightarrow> chain \<Rightarrow> scan_client \<Rightarrow> address list \<Rightarrow> (address \<Rightarrow> asset option) \<Rightarrow> u64 \<Rightarrow> u64 \<Rightarrow>
     error + observed_transfer list \<times> unsupported_token_observation list" where
  "scanERC20Transfers lib ch client knownAddresses tokenRegistry fromBlock toBlock =
     (if knownAddresses = [] then Inr ([], [])
      else (case FilterLogs client (token_query lib knownAddresses fromBlock toBlock) of
          Inl e \<Rightarrow> Inl e
        | Inr logs \<Rightarrow>
            let cs = map (classify_log lib ch (known_addresses lib knownAddresses) tokenRegistry) logs in
            Inr (transfers_of cs, unsupported_of cs)))"

subsection \<open>The scan\<close>

definition Scanner_ScanDeposits ::
    "evm_lib \<Rightarrow> chain \<Rightarrow> scan_client \<Rightarrow> bool \<Rightarrow> address list \<Rightarrow> (address \<Rightarrow> asset option) \<Rightarrow> u64 \<Rightarrow> u64 \<Rightarrow>
     ((error + observed_transfer list \<times> unsupported_token_observation list) \<times> bool) option" where
  "Scanner_ScanDeposits lib ch client disabled knownAddresses tokenRegistry fromBlock toBlock =
     (if fromBlock > toBlock then Some (Inr ([], []), disabled)
      else (case scanNativeTransfers lib ch client knownAddresses fromBlock toBlock disabled of
          None \<Rightarrow> None
        | Some (Inl e, disabled') \<Rightarrow> Some (Inl e, disabled')
        | Some (Inr native, disabled') \<Rightarrow>
            (case scanERC20Transfers lib ch client knownAddresses tokenRegistry fromBlock toBlock of
               Inl e \<Rightarrow> Some (Inl e, disabled')
             | Inr (erc20, unsupported) \<Rightarrow> Some (Inr (native @ erc20, unsupported), disabled'))))"

text \<open>The scanner the watcher polls with; a scan that does not return is no answer of the chain.\<close>

definition evm_scanner :: "evm_lib \<Rightarrow> chain \<Rightarrow> scan_client \<Rightarrow> bool \<Rightarrow> scanner" where
  "evm_scanner lib ch client disabled =
     \<lparr>Head = Scanner_Head client, BlockHash = Scanner_BlockHash lib client,
      ScanDeposits = (\<lambda>as reg b c.
        case Scanner_ScanDeposits lib ch client disabled as reg b c of
          None \<Rightarrow> Inl (ErrText ''scan does not return'') | Some (r, _) \<Rightarrow> r)\<rparr>"

subsection \<open>The walk as a numbered pre-order\<close>

text \<open>The frames below a list of frames in pre-order, each with whether it or a frame above it
  failed.\<close>

fun preorder :: "bool \<Rightarrow> call_frame list \<Rightarrow> (call_frame \<times> bool) list" where
  "preorder reverted [] = []"
| "preorder reverted (CallFrame ty src dst v err calls # rest) =
     (CallFrame ty src dst v err calls, reverted \<or> err \<noteq> []) #
     preorder (reverted \<or> err \<noteq> []) calls @ preorder reverted rest"

fun number :: "int \<Rightarrow> 'a list \<Rightarrow> (int \<times> 'a) list" where
  "number n [] = []"
| "number n (x # xs) = (n, x) # number (n + 1) xs"

lemma number_append: "number n (xs @ ys) = number n xs @ number (n + int (length xs)) ys"
  by (induction xs arbitrary: n) (auto simp: algebra_simps)

lemma snd_number [simp]: "map snd (number n xs) = xs"
  by (induction xs arbitrary: n) auto

lemma number_from: "(i, x) \<in> set (number n xs) \<Longrightarrow> n \<le> i \<and> x \<in> set xs"
  by (induction xs arbitrary: n) fastforce+

lemma in_number: "x \<in> set xs \<Longrightarrow> \<exists>i. (i, x) \<in> set (number n xs)"
  by (induction xs arbitrary: n) auto

lemma distinct_number: "distinct (map fst (number n xs))"
proof (induction xs arbitrary: n)
  case (Cons x xs)
  have "n \<notin> fst ` set (number (n + 1) xs)"
    using number_from by fastforce
  with Cons show ?case by simp
qed simp

lemma walk_preorder:
  "walk visit reverted fs (n, ts) =
     (n + int (length (preorder reverted fs)),
      ts @ concat (map (\<lambda>(i, c, r). visit i r c) (number n (preorder reverted fs))))"
  by (induction visit reverted fs "(n, ts)" arbitrary: n ts rule: walk.induct)
    (auto simp: Let_def number_append algebra_simps)

text \<open>A frame below \<open>f\<close> that took effect if \<open>f\<close> did: it and every frame above it below \<open>f\<close>
  succeeded.\<close>

inductive live_under :: "call_frame \<Rightarrow> call_frame \<Rightarrow> bool" for f :: call_frame where
  child: "c \<in> set (cf_calls f) \<Longrightarrow> cf_error c = [] \<Longrightarrow> live_under f c"
| deeper: "live_under f c \<Longrightarrow> d \<in> set (cf_calls c) \<Longrightarrow> cf_error d = [] \<Longrightarrow> live_under f d"

inductive_cases live_underE: "live_under f c"

lemma live_under_trans: "live_under g c \<Longrightarrow> g \<in> set (cf_calls f) \<Longrightarrow> cf_error g = [] \<Longrightarrow> live_under f c"
  by (induction rule: live_under.induct) (auto intro: live_under.intros)

lemma live_under_split:
  assumes "live_under f c"
  shows "\<exists>g\<in>set (cf_calls f). cf_error g = [] \<and> (c = g \<or> live_under g c)"
  using assms by (induction rule: live_under.induct) (auto intro: live_under.intros)

lemma preorder_live:
  "(c, False) \<in> set (preorder reverted fs) \<longleftrightarrow>
     \<not> reverted \<and> (\<exists>g\<in>set fs. cf_error g = [] \<and> (c = g \<or> live_under g c))"
proof (induction reverted fs rule: preorder.induct)
  case (2 reverted ty src dst v err calls rest)
  let ?f = "CallFrame ty src dst v err calls"
  have "live_under ?f c \<longleftrightarrow> (\<exists>g\<in>set calls. cf_error g = [] \<and> (c = g \<or> live_under g c))"
    using live_under_split [of ?f c] live_under_trans [of _ c ?f] live_under.child [of c ?f] by auto
  with 2 show ?case by auto
qed simp

definition hits :: "(byte list \<Rightarrow> address option) \<Rightarrow> call_frame \<Rightarrow> address \<Rightarrow> int \<Rightarrow> bool" where
  "hits known c addr v \<longleftrightarrow>
     cf_type c = ''CALL'' \<and> cf_value c = Some v \<and> 0 < v \<and> (\<exists>a. cf_to c = Some a \<and> known a = Some addr)"

lemma frame_transferE:
  assumes "t \<in> set (frame_transfer lib ch known block b h i r c)"
  obtains addr v where "\<not> r" "hits known c addr v" "t = internal_transfer lib ch block b h i addr v"
proof -
  from assms have r: "\<not> r" "cf_type c = ''CALL''"
    by (cases r; cases "cf_type c = ''CALL''"; simp add: frame_transfer_def)+
  with assms obtain a where a: "cf_to c = Some a"
    by (cases "cf_to c") (simp_all add: frame_transfer_def)
  with assms r obtain v where v: "cf_value c = Some v"
    by (cases "cf_value c") (simp_all add: frame_transfer_def)
  with assms r a obtain addr where k: "known a = Some addr"
    by (cases "known a") (simp_all add: frame_transfer_def)
  have "0 < v"
    using assms r a v k by (cases "0 < v") (simp_all add: frame_transfer_def)
  moreover have "t = internal_transfer lib ch block b h i addr v"
    using assms r a v k calculation by (simp add: frame_transfer_def)
  ultimately show thesis
    using r a v k by (intro that) (simp_all add: hits_def)
qed

lemma frame_transferI:
  "\<not> r \<Longrightarrow> hits known c addr v \<Longrightarrow>
     internal_transfer lib ch block b h i addr v \<in> set (frame_transfer lib ch known block b h i r c)"
  by (auto simp: frame_transfer_def hits_def)

lemma frame_transfer_length: "length (frame_transfer lib ch known block b h i r c) \<le> 1"
  by (auto simp: frame_transfer_def split: option.splits)

lemma trace_transfers_number:
  assumes "tt_error trace = []"
  shows "trace_transfers lib ch known block b trace =
    concat (map (\<lambda>(i, c, r). frame_transfer lib ch known block b (tt_hash trace) i r c)
      (number 0 (preorder (cf_error (tt_result trace) \<noteq> []) (cf_calls (tt_result trace)))))"
  using assms by (simp add: trace_transfers_def walk_preorder)

lemma trace_transfersE:
  assumes "t \<in> set (trace_transfers lib ch known block b trace)"
  obtains i c addr v where "tt_error trace = []" "cf_error (tt_result trace) = []" "live_under (tt_result trace) c"
    "0 \<le> i" "hits known c addr v" "t = internal_transfer lib ch block b (tt_hash trace) i addr v"
proof -
  have e: "tt_error trace = []"
    using assms by (auto simp: trace_transfers_def split: if_splits)
  obtain i c r where i: "(i, c, r) \<in> set (number 0 (preorder (cf_error (tt_result trace) \<noteq> []) (cf_calls (tt_result trace))))"
    and t: "t \<in> set (frame_transfer lib ch known block b (tt_hash trace) i r c)"
    using assms unfolding trace_transfers_number [OF e] by auto
  from t obtain addr v where a: "\<not> r" "hits known c addr v" "t = internal_transfer lib ch block b (tt_hash trace) i addr v"
    by (rule frame_transferE)
  have "(c, False) \<in> set (preorder (cf_error (tt_result trace) \<noteq> []) (cf_calls (tt_result trace)))" "0 \<le> i"
    using number_from [OF i] a(1) by auto
  then have "cf_error (tt_result trace) = []" "live_under (tt_result trace) c"
    using live_under_trans live_under.child by (auto simp: preorder_live)
  with that e a \<open>0 \<le> i\<close> show thesis by blast
qed

lemma trace_transfersI:
  assumes "tt_error trace = []" "cf_error (tt_result trace) = []" "live_under (tt_result trace) c" "hits known c addr v"
  shows "\<exists>i. internal_transfer lib ch block b (tt_hash trace) i addr v \<in> set (trace_transfers lib ch known block b trace)"
proof -
  have "(c, False) \<in> set (preorder (cf_error (tt_result trace) \<noteq> []) (cf_calls (tt_result trace)))"
    using live_under_split [OF assms(3)] assms(2) by (simp add: preorder_live)
  then obtain i where "(i, c, False) \<in> set (number 0 (preorder (cf_error (tt_result trace) \<noteq> []) (cf_calls (tt_result trace))))"
    using in_number by fast
  then show ?thesis
    unfolding trace_transfers_number [OF assms(1)] using frame_transferI [of False, OF _ assms(4)] by fastforce
qed

text \<open>The synthetic indices of one transaction are all different and below the native one.\<close>

lemma concat_distinct:
  assumes "distinct (map fst xs)" "\<And>i x t. (i, x) \<in> set xs \<Longrightarrow> t \<in> set (g i x) \<Longrightarrow> k t = h i"
    and "\<And>i x. (i, x) \<in> set xs \<Longrightarrow> length (g i x) \<le> 1" "inj h"
  shows "distinct (map k (concat (map (\<lambda>(i, x). g i x) xs)))"
  using assms(1-3)
proof (induction xs)
  case (Cons y xs)
  obtain i x where y: "y = (i, x)"
    by fastforce
  have "distinct (map k (g i x))"
    using Cons.prems(3) [of i x] y by (cases "g i x") auto
  moreover have "k t \<noteq> k u" if "t \<in> set (g i x)" "(j, z) \<in> set xs" "u \<in> set (g j z)" for t j z u
  proof -
    have "j \<noteq> i"
      using Cons.prems(1) that(2) y by (auto simp: image_iff)
    then show ?thesis
      using Cons.prems(2) that y assms(4) by (metis injD list.set_intros(1,2))
  qed
  ultimately show ?case
    using Cons y by (auto simp: image_iff) blast
qed simp

lemma trace_indices:
  assumes "tt_error trace = []"
  shows "distinct (map ot_log_index (trace_transfers lib ch known block b trace))"
proof -
  have "distinct (map ot_log_index (concat (map (\<lambda>(i, cr). (\<lambda>(c, r). frame_transfer lib ch known block b
      (tt_hash trace) i r c) cr) (number 0 (preorder (cf_error (tt_result trace) \<noteq> []) (cf_calls (tt_result trace)))))))"
    by (rule concat_distinct [where h = "\<lambda>i. -2 - i", OF distinct_number])
      (auto simp: inj_def elim!: frame_transferE intro: frame_transfer_length [unfolded One_nat_def])
  then show ?thesis
    unfolding trace_transfers_number [OF assms] by (simp add: case_prod_unfold)
qed

subsection \<open>The range of blocks\<close>

lemma block_next:
  assumes "b \<le> c" "c \<noteq> (-1 :: u64)"
  shows "unat (b + 1) = unat b + 1" "b + 1 \<le> d \<longleftrightarrow> b < d"
proof -
  have "b \<noteq> -1"
    using assms word_order.extremum_unique [of c] by auto
  then have "b + 1 \<noteq> 0"
    by (metis add.commute add_eq_0_iff)
  then show n: "unat (b + 1) = unat b + 1"
    by (simp add: unatSuc add.commute)
  show "b + 1 \<le> d \<longleftrightarrow> b < d"
    by (simp add: word_le_nat_alt word_less_nat_alt n Suc_le_eq)
qed

text \<open>What a block contains for the known addresses.\<close>

definition in_block ::
    "evm_lib \<Rightarrow> chain \<Rightarrow> scan_client \<Rightarrow> address list \<Rightarrow> u64 \<Rightarrow> observed_transfer \<Rightarrow> bool" where
  "in_block lib ch client as b t \<longleftrightarrow>
     (\<exists>block. GetBlockByNumber client b = Inr block \<and>
        ((\<exists>tx\<in>set (rb_transactions block). native_transfer lib ch (known_addresses lib as) block b tx = Some t) \<or>
         (\<exists>traces trace. TraceBlockByNumber client b = Inr traces \<and> trace \<in> set traces \<and>
            t \<in> set (trace_transfers lib ch (known_addresses lib as) block b trace))))"

lemma map_filter_set: "set (List.map_filter f xs) = {y. \<exists>x\<in>set xs. f x = Some y}"
  by (induction xs) (auto simp: map_filter_simps split: option.splits)

text \<open>One iteration of the loop.\<close>

lemma scan_blocks_step:
  assumes "scan_blocks lib ch client as c b dis acc = Some (Inr ts, dis')" "b \<le> c"
  obtains block its dis1 where "GetBlockByNumber client b = Inr block"
    "scanInternalTransfers lib ch client as block b dis = (its, dis1)"
    "scan_blocks lib ch client as c (b + 1) dis1
       (acc @ List.map_filter (native_transfer lib ch (known_addresses lib as) block b) (rb_transactions block) @ its) =
     Some (Inr ts, dis')"
  using assms by (subst (asm) scan_blocks.simps) (auto split: sum.splits prod.splits)

lemma scan_blocks_stop:
  assumes "scan_blocks lib ch client as c b dis acc = Some (Inr ts, dis')" "\<not> b \<le> c"
  shows "ts = acc \<and> dis' = dis"
  using assms by (subst (asm) scan_blocks.simps) simp

lemma internal_cases:
  assumes "scanInternalTransfers lib ch client as block b dis = (its, dis1)"
  obtains "its = []" "dis1" "dis \<or> isl (TraceBlockByNumber client b)" | "its = []" "as = []" "dis1 = dis"
  | traces where "TraceBlockByNumber client b = Inr traces" "\<not> dis" "\<not> dis1"
      "its = concat (map (trace_transfers lib ch (known_addresses lib as) block b) traces)"
  using assms by (auto simp: scanInternalTransfers_def split: if_splits sum.splits)

text \<open>At the top of the 64-bit range the loop has no last iteration: it ends only on an error.\<close>

lemma scan_blocks_top:
  assumes "scan_blocks lib ch client as c b dis acc = Some (r, dis')"
  shows "(\<forall>e. r \<noteq> Inl e) \<Longrightarrow> c \<noteq> -1"
proof -
  have "c = -1 \<longrightarrow> isl (fst (r, dis'))"
    by (rule scan_blocks.raw_induct
        [OF _ assms, of "\<lambda>lib ch cl as c b dis acc r. c = -1 \<longrightarrow> isl (fst r)"])
      (auto split: sum.splits prod.splits if_splits)
  then show "(\<forall>e. r \<noteq> Inl e) \<Longrightarrow> c \<noteq> -1"
    by (auto simp: isl_def)
qed

lemma scan_blocks_sound:
  assumes "scan_blocks lib ch client as c b dis acc = Some (Inr ts, dis')" "t \<in> set ts"
  shows "t \<in> set acc \<or> (\<exists>n. b \<le> n \<and> n \<le> c \<and> in_block lib ch client as n t)"
  using assms
proof (induction "Suc (unat c) - unat b" arbitrary: b dis acc)
  case 0
  then have "\<not> b \<le> c"
    by (simp add: word_le_nat_alt)
  then show ?case
    using scan_blocks_stop [OF 0(2)] 0(3) by simp
next
  case (Suc k)
  then have le: "b \<le> c"
    by (simp add: word_le_nat_alt)
  from Suc(3) le obtain block its dis1 where g: "GetBlockByNumber client b = Inr block"
    and i: "scanInternalTransfers lib ch client as block b dis = (its, dis1)"
    and r: "scan_blocks lib ch client as c (b + 1) dis1
       (acc @ List.map_filter (native_transfer lib ch (known_addresses lib as) block b) (rb_transactions block) @ its) =
     Some (Inr ts, dis')"
    by (rule scan_blocks_step)
  have its: "in_block lib ch client as b u" if "u \<in> set its" for u
    using i
  proof (cases rule: internal_cases)
    case (3 traces)
    then show ?thesis
      using g that by (auto simp: in_block_def)
  qed (use that in auto)
  have "k = Suc (unat c) - unat (b + 1)"
    using Suc(2) block_next(1) [OF le scan_blocks_top [OF Suc(3)]] by simp
  from Suc(1) [OF this r Suc(4)] show ?case
    using its g le block_next(2) [OF le scan_blocks_top [OF Suc(3)]] by (auto simp: map_filter_set in_block_def intro: less_imp_le)
qed

definition block_scanned ::
    "evm_lib \<Rightarrow> chain \<Rightarrow> scan_client \<Rightarrow> address list \<Rightarrow> bool \<Rightarrow> observed_transfer list \<Rightarrow> u64 \<Rightarrow> bool" where
  "block_scanned lib ch client as dis' ts n \<longleftrightarrow>
     (\<exists>block. GetBlockByNumber client n = Inr block \<and>
        (\<forall>tx\<in>set (rb_transactions block). \<forall>t.
           native_transfer lib ch (known_addresses lib as) block n tx = Some t \<longrightarrow> t \<in> set ts) \<and>
        (\<not> dis' \<and> as \<noteq> [] \<longrightarrow> (\<exists>traces. TraceBlockByNumber client n = Inr traces \<and>
           (\<forall>trace\<in>set traces. set (trace_transfers lib ch (known_addresses lib as) block n trace) \<subseteq> set ts))))"

lemma scan_blocks_mono:
  assumes "scan_blocks lib ch client as c b dis acc = Some (Inr ts, dis')"
  shows "set acc \<subseteq> set ts \<and> (dis \<longrightarrow> dis' \<or> as = []) \<and>
    (dis' \<longrightarrow> dis \<or> (\<exists>n. b \<le> n \<and> n \<le> c \<and> isl (TraceBlockByNumber client n)))"
  using assms
proof (induction "Suc (unat c) - unat b" arbitrary: b dis acc)
  case 0
  then have "\<not> b \<le> c"
    by (simp add: word_le_nat_alt)
  then show ?case
    using scan_blocks_stop [OF 0(2)] by auto
next
  case (Suc k)
  then have le: "b \<le> c"
    by (simp add: word_le_nat_alt)
  from Suc(3) le obtain block its dis1
    where i: "scanInternalTransfers lib ch client as block b dis = (its, dis1)"
    and r: "scan_blocks lib ch client as c (b + 1) dis1
       (acc @ List.map_filter (native_transfer lib ch (known_addresses lib as) block b) (rb_transactions block) @ its) =
     Some (Inr ts, dis')"
    by (rule scan_blocks_step)
  note nxt = block_next [OF le scan_blocks_top [OF Suc(3)]]
  have "k = Suc (unat c) - unat (b + 1)"
    using Suc(2) nxt(1) by simp
  note IH = Suc(1) [OF this r]
  have "b \<le> n" if "b + 1 \<le> n" for n
    using that nxt(2) by simp
  moreover have "dis \<longrightarrow> dis1" "dis1 \<longrightarrow> dis \<or> isl (TraceBlockByNumber client b)"
    using i by (cases rule: internal_cases; auto)+
  ultimately show ?case
    using IH le by (auto intro: order_refl)
qed

lemma scan_blocks_complete:
  assumes "scan_blocks lib ch client as c b dis acc = Some (Inr ts, dis')" "b \<le> n" "n \<le> c"
  shows "block_scanned lib ch client as dis' ts n"
  using assms
proof (induction "Suc (unat c) - unat b" arbitrary: b dis acc)
  case 0
  then show ?case
    by (simp add: word_le_nat_alt)
next
  case (Suc k)
  then have le: "b \<le> c"
    by (simp add: word_le_nat_alt)
  from Suc(3) le obtain block its dis1 where g: "GetBlockByNumber client b = Inr block"
    and i: "scanInternalTransfers lib ch client as block b dis = (its, dis1)"
    and r: "scan_blocks lib ch client as c (b + 1) dis1
       (acc @ List.map_filter (native_transfer lib ch (known_addresses lib as) block b) (rb_transactions block) @ its) =
     Some (Inr ts, dis')"
    by (rule scan_blocks_step)
  note nxt = block_next [OF le scan_blocks_top [OF Suc(3)]] and m = scan_blocks_mono [OF r]
  have "k = Suc (unat c) - unat (b + 1)"
    using Suc(2) nxt(1) by simp
  note IH = Suc(1) [OF this r _ Suc(5)]
  have head: "block_scanned lib ch client as dis' ts b"
    using i
  proof (cases rule: internal_cases)
    case (3 traces)
    then show ?thesis
      using g m by (auto simp: map_filter_set block_scanned_def)
  qed (use g m in \<open>auto simp: map_filter_set block_scanned_def\<close>)
  show ?case
  proof (cases "n = b")
    case False
    then show ?thesis
      using IH nxt(2) Suc(4) by simp
  qed (use head in simp)
qed

lemma scan_blocks_returns:
  assumes "c \<noteq> -1"
  shows "\<exists>r. scan_blocks lib ch client as c b dis acc = Some r"
proof (induction "Suc (unat c) - unat b" arbitrary: b dis acc)
  case 0
  then have "\<not> b \<le> c"
    by (simp add: word_le_nat_alt)
  then show ?case
    by (subst scan_blocks.simps) simp
next
  case (Suc k)
  show ?case
  proof (cases "b \<le> c")
    case True
    have "k = Suc (unat c) - unat (b + 1)"
      using Suc(2) block_next(1) [OF True assms] by simp
    from Suc(1) [OF this] show ?thesis
      by (subst scan_blocks.simps) (auto split: sum.split prod.split)
  qed (subst scan_blocks.simps, simp)
qed

lemma scan_blocks_diverges:
  assumes "\<And>b e. GetBlockByNumber client b \<noteq> Inl e"
  shows "scan_blocks lib ch client as (-1) b dis acc = None"
proof -
  have "client = cl \<longrightarrow> c = -1 \<longrightarrow> False"
    if "scan_blocks lib' ch' cl as' c b dis acc = Some r" for lib' ch' cl as' c b dis acc r
    by (rule scan_blocks.raw_induct
        [OF _ that, of "\<lambda>lib ch cl as c b dis acc r. client = cl \<longrightarrow> c = -1 \<longrightarrow> False"])
      (use assms in \<open>auto split: sum.splits prod.splits if_splits\<close>)
  then show ?thesis
    by (metis option.exhaust)
qed

end
