(* ===== verification/Watcher.thy ===== *)
theory Watcher
  imports Deposits
begin

text \<open>
  The guarantees of the watcher process: what one poll cycle scans, what it credits and to whom,
  which way a deposit can move, that a second look at the same transfer records nothing, and that
  both invariants survive.
\<close>

subsection \<open>What a cycle does to the tables\<close>

definition cursor_of :: "database \<Rightarrow> chain \<Rightarrow> string \<Rightarrow> u64" where
  "cursor_of d ch tier =
     (case select_first (\<lambda>r. wc_chain r = ch \<and> wc_tier r = tier) (watcher_cursors d) of
        None \<Rightarrow> 0 | Some r \<Rightarrow> wc_last_block r)"

lemma effect_Cursor [m_success]: "effect (Cursor ch tier) t d c d' \<longleftrightarrow> c = cursor_of d ch tier \<and> d' = d"
  by (auto simp: Cursor_def cursor_of_def effect_query)

lemma select_first_modify:
  assumes "\<And>x. p x \<Longrightarrow> p (f x)" "\<And>x. q x \<Longrightarrow> p x \<Longrightarrow> False"
  shows "select_first q (modify p f rs) = select_first q rs"
  using assms by (induction rs) (auto simp: select_first_def)

lemma cursor_of_SetCursor:
  assumes "effect (SetCursor ch tier b) t d u d'"
  shows "cursor_of d' ch' tier' = (if ch' = ch \<and> tier' = tier then b else cursor_of d ch' tier')"
proof -
  let ?r = "\<lparr>wc_chain = ch, wc_tier = tier, wc_last_block = b, wc_updated_at = t\<rparr>"
  let ?same = "\<lambda>x. wc_chain x = ch \<and> wc_tier x = tier"
  have "watcher_cursors d' = (if \<exists>x\<in>set (watcher_cursors d). ?same x
      then modify ?same (\<lambda>_. ?r) (watcher_cursors d) else watcher_cursors d @ [?r])"
    using assms by (auto simp: SetCursor_def effect_stmt effect_time_now upsert_watcher_cursor_def Let_def
      split: if_splits elim!: effect_bindmE)
  moreover have "select_first ?same (modify ?same (\<lambda>_. ?r) cs) = Some ?r" if "\<exists>x\<in>set cs. ?same x" for cs
    using that by (induction cs) (auto simp: select_first_def)
  moreover have "select_first q (modify ?same (\<lambda>_. ?r) cs) = select_first q cs" if "\<not> q ?r" "\<forall>x. ?same x \<longrightarrow> \<not> q x" for q cs
    using that by (induction cs) (auto simp: select_first_def)
  moreover have "select_first q (cs @ [?r]) = (if \<exists>x\<in>set cs. q x then select_first q cs else if q ?r then Some ?r else None)" for q cs
    by (induction cs) (auto simp: select_first_def)
  moreover have "select_first q cs = None" if "\<forall>x\<in>set cs. \<not> q x" for q and cs :: "watcher_cursor_row list"
    using that by (simp add: select_first_None)
  ultimately show ?thesis
    by (auto simp: cursor_of_def)
qed

lemma effect_scan_phaseE:
  assumes "effect (scan_phase sc ch as reg latest from) t d r d'"
  obtains "\<not> from \<le> latest" "r = (0, 0, 0, 0)" "d' = d"
  | ts us ins uns d1 d2 where "from \<le> latest"
    "ScanDeposits sc as reg from (scan_to latest from) = Inr (ts, us)"
    "effect (mapm (observe_transfer t) ts) t d ins d1"
    "effect (mapm (observe_unsupported t) us) t d1 uns d2"
    "effect (SetCursor ch CursorTierObserved (scan_to latest from)) t d2 () d'"
    "r = (from, scan_to latest from, count_true ins, count_true uns)"
  using assms
  by (auto simp: scan_phase_def Let_def effect_ret effect_lift_result effect_time_now
      split: if_splits prod.splits elim!: effect_bindmE intro!: quiet_mapm)

lemma effect_poll_cycleE:
  assumes "effect (poll_cycle sc ch as reg latest sb fb) t d r d'"
  obtains sf st n m d1 k1 d2 d3 k2 d4 d5 k3 where
    "cursor_of d ch CursorTierObserved \<le> latest"
    "effect (scan_phase sc ch as reg latest (cursor_of d ch CursorTierObserved + 1)) t d (sf, st, n, m) d1"
    "effect (promote DepositObserved DepositSafe ch sb) t d1 k1 d2"
    "effect (SetCursor ch CursorTierSafe sb) t d2 () d3"
    "effect (promote DepositSafe DepositFinalized ch fb) t d3 k2 d4"
    "effect (SetCursor ch CursorTierFinalized fb) t d4 () d5"
    "effect (CreditFinalizedDeposits ch) t d5 k3 d'"
    "r = \<lparr>er_latest = latest, er_safe = sb, er_finalized = fb, er_scanned_from = sf,
          er_scanned_to = st, er_deposits_observed = n, er_unsupported_observed = m,
          er_promoted_to_safe = k1, er_promoted_to_finalized = k2, er_credited = k3\<rparr>"
  using assms unfolding poll_cycle_def PromoteToSafe_def PromoteToFinalized_def
  by (auto simp: effect_Cursor effect_guardm effect_ret elim!: effect_bindmE intro: that)

subsection \<open>What a cycle leaves alone\<close>

lemma watcher_view_insert: "watcher_view (d\<lparr>deposits := xs\<rparr>) = watcher_view d"
  "watcher_view (d\<lparr>watcher_cursors := cs\<rparr>) = watcher_view d"
  "watcher_view (d\<lparr>unsupported_token_observations := os\<rparr>) = watcher_view d"
  "watcher_view (d\<lparr>outbox_events := es\<rparr>) = watcher_view d"
  "watcher_view (posted d je p1 p2 ct cid x y n t) = watcher_view d"
  by (simp_all add: watcher_view_def posted_def)

lemma watcher_view_emit: "effect (emit ty pl now) t d u d' \<Longrightarrow> watcher_view d' = watcher_view d"
  by (elim effect_emitE) (simp add: watcher_view_insert)

lemma watcher_view_observe:
  "effect (observe_transfer now x) t d b d' \<Longrightarrow> watcher_view d' = watcher_view d"
  by (auto simp: observe_transfer_def m_success watcher_view_insert
      elim!: effect_bindmE effect_RecordObservedE dest!: watcher_view_emit)

lemma watcher_view_credit_deposit:
  "effect (credit_deposit now e) t d u d' \<Longrightarrow> watcher_view d' = watcher_view d"
  by (elim effect_credit_depositE) (auto dest!: watcher_view_emit simp: watcher_view_insert)

lemma effect_for_each_keeps:
  assumes "effect (for_each f xs) t d u d'" "P d"
    and "\<And>x d d'. x \<in> set xs \<Longrightarrow> effect (f x) t d () d' \<Longrightarrow> P d \<Longrightarrow> P d'" "\<And>x. quiet (f x)"
  shows "P d'"
  using assms(1-3)
proof (induction xs arbitrary: d)
  case (Cons x xs)
  then obtain d1 where "effect (f x) t d () d1" "effect (for_each f xs) t d1 u d'"
    using assms(4) by (auto elim!: effect_bindmE)
  then show ?case
    using Cons.IH [of d1] Cons.prems(2,3) by (metis list.set_intros)
qed (simp add: effect_ret)

lemma scan_phase_keeps:
  assumes "effect (scan_phase sc ch ads reg latest sf) t d r d'" "P d"
    and "\<And>x d b d'. effect (observe_transfer t x) t d b d' \<Longrightarrow> P d \<Longrightarrow> P d'"
    and "\<And>d os. P d \<Longrightarrow> P (d\<lparr>unsupported_token_observations := os\<rparr>)"
    and "\<And>d cs. P d \<Longrightarrow> P (d\<lparr>watcher_cursors := cs\<rparr>)"
  shows "P d'"
  using assms(1)
proof (cases rule: effect_scan_phaseE)
  case (2 ts us ins uns d1 d2)
  have "P d1"
    by (rule effect_mapm_keeps [where P = P, OF 2(3) assms(2)]) (use assms(3) in auto)
  then have "P d2"
    by (rule effect_mapm_keeps [where P = P, OF 2(4)])
      (use assms(4) in \<open>auto elim!: effect_observe_unsupportedE\<close>)
  then show ?thesis
    using 2(5) assms(5) by (auto elim!: effect_SetCursorE)
qed (use assms(2) in simp)

lemma ledger_cursors: "ledger_ok (d\<lparr>watcher_cursors := cs\<rparr>) = ledger_ok d"
  "ledger_ok (d\<lparr>unsupported_token_observations := os\<rparr>) = ledger_ok d"
  by (simp_all add: ledger_ok_def schema_ok_def)

lemma watcher_view_scan:
  "effect (scan_phase sc ch ads reg latest sf) t d r d' \<Longrightarrow> watcher_view d' = watcher_view d"
  by (rule scan_phase_keeps [where P = "\<lambda>x. watcher_view x = watcher_view d"])
    (auto simp: watcher_view_insert dest: watcher_view_observe)

lemma ledger_scan:
  "effect (scan_phase sc ch ads reg latest sf) t d r d' \<Longrightarrow> ledger_ok d \<Longrightarrow> ledger_ok d'"
  by (rule scan_phase_keeps [where P = ledger_ok])
    (auto simp: ledger_cursors intro: ledger_observe_transfer)

lemma watcher_view_cycle:
  assumes "effect (poll_cycle sc ch ads reg latest sb fb) t d r d'"
  shows "watcher_view d' = watcher_view d"
  using assms
proof (cases rule: effect_poll_cycleE)
  case (1 sf st n m d1 k1 d2 d3 k2 d4 d5 k3)
  have "watcher_view d' = watcher_view d5"
    using 1(7)
  proof (rule effect_CreditE)
    assume "effect (for_each (credit_deposit t) (eligible_deposits d5 ch)) t d5 () d'"
    then show ?thesis
      by (rule effect_for_each_keeps [where P = "\<lambda>x. watcher_view x = watcher_view d5"])
        (auto dest: watcher_view_credit_deposit)
  qed
  then show ?thesis
    using 1(3-6) watcher_view_scan [OF 1(2)]
    by (auto elim!: effect_promoteE effect_SetCursorE simp: watcher_view_insert)
qed

lemma ledger_before_credit:
  assumes "effect (scan_phase sc ch ads reg latest sf) t d x d1"
    and "effect (promote DepositObserved DepositSafe ch sb) t d1 k1 d2"
    and "effect (SetCursor ch CursorTierSafe sb) t d2 () d3"
    and "effect (promote DepositSafe DepositFinalized ch fb) t d3 k2 d4"
    and "effect (SetCursor ch CursorTierFinalized fb) t d4 () d5" "ledger_ok d"
  shows "ledger_ok d5"
proof -
  have "ledger_ok d2"
    by (rule ledger_promote [OF assms(2) ledger_scan [OF assms(1,6)]]) simp_all
  then have 3: "ledger_ok d3"
    using assms(3) by (auto elim!: effect_SetCursorE simp: ledger_cursors)
  have "ledger_ok d4"
    by (rule ledger_promote [OF assms(4) 3]) simp_all
  then show ?thesis
    using assms(5) by (auto elim!: effect_SetCursorE simp: ledger_cursors)
qed

lemma ledger_cycle:
  assumes "effect (poll_cycle sc ch ads reg latest sb fb) t d r d'" "ledger_ok d"
  shows "ledger_ok d'"
  using assms(1)
proof (cases rule: effect_poll_cycleE)
  case (1 sf st n m d1 k1 d2 d3 k2 d4 d5 k3)
  show ?thesis
    by (rule ledger_credit [OF 1(7) ledger_before_credit [OF 1(2-6) assms(2)]])
qed

lemma query_world:
  assumes "query f w = (r, w')"
  shows "db w' = db w" "clock w' = clock w" "wire w' = wire w"
  using assms by (auto simp: query_def stmt_def split: prod.splits if_splits dest!: next_outcome_world)

lemma execute_reads:
  assumes "TrackDeposits_Execute sc ch w = (r, w')"
  obtains "db w' = db w" "wire w' = wire w" "isl r"
  | w2 reg latest sb fb where "db w2 = db w" "clock w2 = clock w" "wire w2 = wire w"
    "Head sc = Inr (latest, sb, fb)" "fb \<le> sb" "sb \<le> latest"
    "registry_map (filter (\<lambda>r. tk_chain r = ch) (token_registry (db w))) = Inr reg"
    "in_tx (poll_cycle sc ch (map da_address (deposit_addresses (db w))) reg latest sb fb) w2 = (r, w')"
proof -
  obtain a w1 where a: "ListDepositAddresses w = (a, w1)"
    by fastforce
  obtain q w2 where q: "query (\<lambda>d. filter (\<lambda>r. tk_chain r = ch) (token_registry d)) w1 = (q, w2)"
    by fastforce
  note w1 = query_world [OF a [unfolded ListDepositAddresses_def]]
  note w2 = query_world [OF q, unfolded w1]
  have av: "ads = map da_address (deposit_addresses (db w))" if "a = Inr ads" for ads
    using query_InrD(1) [OF a [unfolded ListDepositAddresses_def that]] .
  have qv: "rows = filter (\<lambda>r. tk_chain r = ch) (token_registry (db w))" if "q = Inr rows" for rows
    using query_InrD(1) [OF q [unfolded that]] w1(1) by simp
  show thesis
  proof (cases "db w' = db w \<and> wire w' = wire w \<and> isl r")
    case False
    then show thesis
      using assms a q w1 w2 av qv
      by (auto simp: TrackDeposits_Execute_def ListTokenRegistry_def bindm_def lift_result_run
          split: sum.splits prod.splits if_splits intro!: that(2) [of w2])
  qed (use that(1) in blast)
qed

lemma execute_cycle:
  assumes "TrackDeposits_Execute sc ch w = (Inr r, w')"
  obtains reg latest sb fb where "Head sc = Inr (latest, sb, fb)" "fb \<le> sb" "sb \<le> latest"
    "registry_map (filter (\<lambda>r. tk_chain r = ch) (token_registry (db w))) = Inr reg"
    "effect (poll_cycle sc ch (map da_address (deposit_addresses (db w))) reg latest sb fb)
       (clock w) (db w) r (db w')"
  using assms
proof (cases rule: execute_reads)
  case (2 w2 reg latest sb fb)
  show thesis
    using that [OF 2(4-7)] in_tx_Inr [OF 2(8)] 2(1,2) by simp
qed simp

lemma execute_keeps:
  assumes "TrackDeposits_Execute sc ch w = (r, w')"
  shows "ledger_ok (db w) \<Longrightarrow> ledger_ok (db w')" "watcher_view (db w') = watcher_view (db w)"
    "wire w' = wire w"
proof -
  have "(ledger_ok (db w) \<longrightarrow> ledger_ok (db w')) \<and> watcher_view (db w') = watcher_view (db w) \<and> wire w' = wire w"
    using assms
  proof (cases rule: execute_reads)
    case (2 w2 reg latest sb fb)
    then show ?thesis
      using in_tx_effect [OF 2(8)] ledger_cycle watcher_view_cycle
        quietD(2) [OF quiet_in_tx [OF quiet_poll_cycle] 2(8)] by metis
  qed simp
  then show "ledger_ok (db w) \<Longrightarrow> ledger_ok (db w')" "watcher_view (db w') = watcher_view (db w)"
    "wire w' = wire w"
    by blast+
qed

subsection \<open>What is scanned\<close>

lemma scan_to_range:
  fixes c latest :: u64
  assumes "c < latest" "bigint (uint c)"
  shows "uint (c + 1) = uint c + 1" "uint (scan_to latest (c + 1)) = min (uint c + 2000) (uint latest)"
proof -
  show a: "uint (c + 1) = uint c + 1"
    using assms(1) by uint_arith
  have b: "uint (latest - c) = uint latest - uint c"
    using assms(1) by uint_arith
  have m: "uint maxBlocksPerScan = 2000"
    by (simp add: maxBlocksPerScan_def)
  have g: "latest - (c + 1) + 1 > maxBlocksPerScan \<longleftrightarrow> uint latest - uint c > 2000"
    by (simp add: word_less_def b m)
  have "uint (c + 1 + maxBlocksPerScan - 1) = uint c + 2000" if "uint latest - uint c > 2000"
    using that m by uint_arith
  with g show "uint (scan_to latest (c + 1)) = min (uint c + 2000) (uint latest)"
    by (auto simp: scan_to_def)
qed

lemma modify_modify:
  assumes "\<And>r. f (f r) = f r" "\<And>r. p (f r) = p r"
  shows "modify p f (modify q f rs) = modify (\<lambda>r. p r \<or> q r) f rs"
  using assms by (induction rs) auto

lemma modify_cong:
  "(\<And>r. r \<in> set rs \<Longrightarrow> p r = q r) \<Longrightarrow> modify p f rs = modify q f rs"
  by (induction rs) auto

text \<open>What the crediting loop does to the deposits, the journal and the balances.\<close>

definition credit_sum :: "eligibleCreditDeposit list \<Rightarrow> uuid \<Rightarrow> int" where
  "credit_sum es z =
     total_of (\<lambda>e. ed_customer_account e = z) ed_amount es -
     total_of (\<lambda>e. ed_float_account e = z) ed_amount es"

lemma cause_posted:
  "map cause (journal_entries (posted d je p1 p2 ct cid x y n t)) = map cause (journal_entries d) @ [(ct, cid)]"
  by (simp add: posted_def cause_def)

lemma credit_one:
  assumes "effect (credit_deposit now e) t d u d'"
  shows "deposits d' = modify (\<lambda>r. d_id r = ed_deposit_id e)
      (\<lambda>r. r\<lparr>d_state := DepositCredited, d_updated_at := now\<rparr>) (deposits d)"
    "balance d' z = balance d z + credit_sum [e] z"
    "map cause (journal_entries d') = map cause (journal_entries d) @ [(depositCreditCauseType, ed_deposit_id e)]"
    "(depositCreditCauseType, ed_deposit_id e) \<notin> set (map cause (journal_entries d))"
    "0 < ed_amount e" "length (outbox_events d') = Suc (length (outbox_events d))"
  using assms
  by (auto elim!: effect_credit_depositE effect_emitE
      simp: balance_posted credit_sum_def cause_posted fresh_entry_def)

lemma for_each_credit:
  assumes "effect (for_each (credit_deposit now) es) t d u d'"
  shows "deposits d' = modify (\<lambda>r. d_id r \<in> ed_deposit_id ` set es)
      (\<lambda>r. r\<lparr>d_state := DepositCredited, d_updated_at := now\<rparr>) (deposits d) \<and>
    (\<forall>z. balance d' z = balance d z + credit_sum es z) \<and>
    (\<forall>e\<in>set es. (depositCreditCauseType, ed_deposit_id e) \<notin> set (map cause (journal_entries d)) \<and>
       0 < ed_amount e) \<and>
    distinct (map ed_deposit_id es) \<and> length (outbox_events d') = length (outbox_events d) + length es"
  using assms
proof (induction es arbitrary: d)
  case (Cons e es)
  let ?f = "\<lambda>r. r\<lparr>d_state := DepositCredited, d_updated_at := now\<rparr>"
  from Cons.prems obtain d1 where e: "effect (credit_deposit now e) t d () d1"
    and es: "effect (for_each (credit_deposit now) es) t d1 u d'"
    by (auto elim!: effect_bindmE)
  note one = credit_one [OF e] and IH = Cons.IH [OF es]
  have "deposits d' = modify (\<lambda>r. d_id r \<in> ed_deposit_id ` set (e # es)) ?f (deposits d)"
    using IH one(1) by (auto simp: modify_modify intro!: modify_cong)
  moreover have "balance d' z = balance d z + credit_sum (e # es) z" for z
    using IH one(2) [of z] by (simp add: credit_sum_def)
  moreover have "\<forall>x\<in>set es. (depositCreditCauseType, ed_deposit_id x) \<notin> set (map cause (journal_entries d)) \<and>
      ed_deposit_id x \<noteq> ed_deposit_id e"
    using IH unfolding one(3) by auto
  ultimately show ?case
    using IH one(4-6) by auto
qed (auto simp: effect_ret modify_id credit_sum_def)

text \<open>A deposit is in the selection at most once, finalized, and on the chain.\<close>

lemma eligible_finalized:
  "e \<in> set (eligible_deposits d ch) \<Longrightarrow> \<exists>x\<in>set (deposits d). d_id x = ed_deposit_id e \<and>
     d_state x = DepositFinalized \<and> d_chain x = ch \<and> d_amount x = ed_amount e \<and> d_asset x = ed_asset e \<and>
     ed_chain e = ch \<and> (\<exists>da\<in>set (deposit_addresses d). da_address da = d_address x \<and>
       da_customer_id da = ed_customer_id e)"
  by (fastforce simp: eligible_deposits_def credit_join_def dest!: in_set_takeD)

subsection \<open>Which way a deposit moves\<close>

text \<open>One row before and after a cycle: only state and time of update change, only forwards, and
  only below the tags of the chain.\<close>

fun moves :: "bool \<Rightarrow> bool \<Rightarrow> deposit_state \<Rightarrow> deposit_state \<Rightarrow> bool" where
  "moves below_safe below_finalized DepositObserved DepositSafe = below_safe"
| "moves below_safe below_finalized DepositObserved DepositFinalized = (below_safe \<and> below_finalized)"
| "moves below_safe below_finalized DepositObserved DepositCredited = (below_safe \<and> below_finalized)"
| "moves below_safe below_finalized DepositSafe DepositFinalized = below_finalized"
| "moves below_safe below_finalized DepositSafe DepositCredited = below_finalized"
| "moves below_safe below_finalized DepositFinalized DepositCredited = True"
| "moves below_safe below_finalized s s' = False"

definition forward :: "chain \<Rightarrow> u64 \<Rightarrow> u64 \<Rightarrow> deposit_row \<Rightarrow> deposit_row \<Rightarrow> bool" where
  "forward ch sb fb x y \<longleftrightarrow>
     y = x\<lparr>d_state := d_state y, d_updated_at := d_updated_at y\<rparr> \<and>
     (y = x \<or> d_chain x = ch \<and>
       moves (d_block_number x \<le> sb) (d_block_number x \<le> fb) (d_state x) (d_state y))"

definition after_promote :: "deposit_state \<Rightarrow> deposit_state \<Rightarrow> chain \<Rightarrow> u64 \<Rightarrow> time \<Rightarrow> deposit_row \<Rightarrow> deposit_row" where
  "after_promote s s' ch b t x = (if d_state x = s \<and> d_chain x = ch \<and> d_block_number x \<le> b
     then x\<lparr>d_state := s', d_updated_at := t\<rparr> else x)"

lemma moves_composed:
  assumes "s1 = (if s = DepositObserved \<and> p then DepositSafe else s)"
    and "s2 = (if s1 = DepositSafe \<and> q then DepositFinalized else s1)"
    and "c \<Longrightarrow> s2 = DepositFinalized"
  shows "(s1 = s \<and> s2 = s \<and> \<not> c) \<or> moves p q s (if c then DepositCredited else s2)"
  using assms by (cases s; cases p; cases q; cases c) simp_all

lemma after_promote_id: "d_chain x \<noteq> ch \<Longrightarrow> after_promote s s' ch b t x = x"
  by (simp add: after_promote_def)

lemma forward_composed:
  assumes x1: "x1 = after_promote DepositObserved DepositSafe ch sb t x"
    and x2: "x2 = after_promote DepositSafe DepositFinalized ch fb t x1"
    and y: "y = (if c then x2\<lparr>d_state := DepositCredited, d_updated_at := t\<rparr> else x2)"
    and c: "c \<Longrightarrow> d_state x2 = DepositFinalized \<and> d_chain x2 = ch"
  shows "forward ch sb fb x y"
proof (cases "d_chain x = ch")
  case True
  define p q where "p \<longleftrightarrow> d_block_number x \<le> sb" and "q \<longleftrightarrow> d_block_number x \<le> fb"
  have 1: "x1 = (if d_state x = DepositObserved \<and> p then x\<lparr>d_state := DepositSafe, d_updated_at := t\<rparr> else x)"
    by (simp add: x1 after_promote_def True p_def)
  have 2: "x2 = (if d_state x1 = DepositSafe \<and> q then x1\<lparr>d_state := DepositFinalized, d_updated_at := t\<rparr> else x1)"
    using 1 True by (simp add: x2 after_promote_def q_def)
  have s1: "d_state x1 = (if d_state x = DepositObserved \<and> p then DepositSafe else d_state x)"
    by (simp add: 1)
  have s2: "d_state x2 = (if d_state x1 = DepositSafe \<and> q then DepositFinalized else d_state x1)"
    by (simp add: 2)
  have sy: "d_state y = (if c then DepositCredited else d_state x2)"
    by (simp add: y)
  have "y = x\<lparr>d_state := d_state y, d_updated_at := d_updated_at y\<rparr>"
    using 1 2 y by simp
  moreover have "(d_state x1 = d_state x \<and> d_state x2 = d_state x \<and> \<not> c) \<or> moves p q (d_state x) (d_state y)"
    using moves_composed [OF s1 s2 conjunct1 [OF c]] unfolding sy by blast
  moreover have "y = x" if "d_state x1 = d_state x" "d_state x2 = d_state x" "\<not> c"
  proof -
    have "x1 = x"
      using that(1) 1 s1 by (cases "d_state x = DepositObserved \<and> p") simp_all
    moreover have "x2 = x1"
    proof (cases "d_state x1 = DepositSafe \<and> q")
      case True
      then show ?thesis using that(1,2) s2 by simp
    next
      case False
      then show ?thesis unfolding 2 by (rule if_not_P)
    qed
    ultimately show ?thesis
      using that(3) y by simp
  qed
  ultimately show ?thesis
    using True unfolding forward_def p_def q_def by blast
next
  case False
  then have "x1 = x" "x2 = x"
    using x1 x2 by (simp_all add: after_promote_id)
  with False c y show ?thesis
    by (auto simp: forward_def)
qed

lemma credited_rows:
  assumes "effect (CreditFinalizedDeposits ch) t d n d'" "deposits_ok d"
  shows "deposits d' = map (\<lambda>x. if d_id x \<in> ed_deposit_id ` set (eligible_deposits d ch)
      then x\<lparr>d_state := DepositCredited, d_updated_at := t\<rparr> else x) (deposits d)"
    "\<And>x. x \<in> set (deposits d) \<Longrightarrow> d_id x \<in> ed_deposit_id ` set (eligible_deposits d ch) \<Longrightarrow>
      d_state x = DepositFinalized \<and> d_chain x = ch"
proof -
  show "deposits d' = map (\<lambda>x. if d_id x \<in> ed_deposit_id ` set (eligible_deposits d ch)
      then x\<lparr>d_state := DepositCredited, d_updated_at := t\<rparr> else x) (deposits d)"
    using assms(1) for_each_credit by (elim effect_CreditE) (simp add: modify_def)
  fix x assume x: "x \<in> set (deposits d)" "d_id x \<in> ed_deposit_id ` set (eligible_deposits d ch)"
  then obtain e where "e \<in> set (eligible_deposits d ch)" "d_id x = ed_deposit_id e"
    by blast
  then show "d_state x = DepositFinalized \<and> d_chain x = ch"
    using eligible_finalized [of e d ch] deposit_unique [OF assms(2) x(1)] by metis
qed

text \<open>The rows a scan adds.\<close>

definition recorded_from :: "observed_transfer \<Rightarrow> deposit_row \<Rightarrow> bool" where
  "recorded_from x r \<longleftrightarrow>
     d_chain r = ot_chain x \<and> d_asset r = ot_asset x \<and> d_address r = ot_address x \<and>
     d_tx_hash r = ot_tx_hash x \<and> d_log_index r = ot_log_index x \<and> d_amount r = ot_amount x \<and>
     d_block_number r = ot_block_number x \<and> d_block_hash r = Some (ot_block_hash x)"

definition scanned_rows ::
    "scanner \<Rightarrow> address list \<Rightarrow> (address \<Rightarrow> asset option) \<Rightarrow> u64 \<Rightarrow> u64 \<Rightarrow> time \<Rightarrow> deposit_row list \<Rightarrow> bool" where
  "scanned_rows sc ads reg sf st t new \<longleftrightarrow>
     (\<forall>x\<in>set new. d_state x = DepositObserved \<and> d_observed_at x = t \<and>
        (\<exists>ts us y. ScanDeposits sc ads reg sf st = Inr (ts, us) \<and> y \<in> set ts \<and> recorded_from y x))"

lemma scanned_rowsD:
  "scanned_rows sc ads reg sf st t new \<Longrightarrow> \<forall>x\<in>set new. d_state x = DepositObserved \<and> d_observed_at x = t"
  unfolding scanned_rows_def by blast

lemma observed_rows:
  assumes "effect (mapm (observe_transfer now) ts) t d bs d'"
  shows "\<exists>new. deposits d' = deposits d @ new \<and> length new = count_true bs \<and>
    (\<forall>x\<in>set new. d_state x = DepositObserved \<and> d_observed_at x = now \<and> (\<exists>y\<in>set ts. recorded_from y x))"
  using assms
proof (induction ts arbitrary: d bs)
  case (Cons ot ts)
  then obtain b d1 bs' where b: "effect (observe_transfer now ot) t d b d1"
    and bs: "effect (mapm (observe_transfer now) ts) t d1 bs' d'" "bs = b # bs'"
    by (auto simp: effect_ret intro!: quiet_mapm elim!: effect_bindmE)
  have "\<exists>new. deposits d1 = deposits d @ new \<and> length new = count_true [b] \<and>
      (\<forall>x\<in>set new. d_state x = DepositObserved \<and> d_observed_at x = now \<and> recorded_from ot x)"
    using b by (auto simp: recorded_from_def observe_transfer_def m_success deposit_row_of_def count_true_def
        elim!: effect_bindmE effect_RecordObservedE effect_emitE)
  then show ?case
    using Cons.IH [OF bs(1)] bs(2) by (fastforce simp: count_true_def)
qed (auto simp: effect_ret count_true_def)

lemma scan_deposits:
  assumes "effect (scan_phase sc ch ads reg latest sf) t d r d'"
  shows "\<exists>new. deposits d' = deposits d @ new \<and> length new = fst (snd (snd r)) \<and>
    scanned_rows sc ads reg (fst r) (fst (snd r)) t new"
  using assms
proof (cases rule: effect_scan_phaseE)
  case (2 ts us ins uns d1 d2)
  have "deposits d2 = deposits d1"
    by (rule effect_mapm_keeps [where P = "\<lambda>x. deposits x = deposits d1", OF 2(4)])
      (auto elim!: effect_observe_unsupportedE)
  then show ?thesis
    using observed_rows [OF 2(3)] 2(2,5,6) by (fastforce simp: scanned_rows_def elim!: effect_SetCursorE)
qed (simp add: scanned_rows_def)

lemma list_all2_map_append:
  assumes "\<And>x. x \<in> set xs \<Longrightarrow> R x (f x)"
  shows "list_all2 R xs (map f xs)"
  using assms by (induction xs) auto

lemma cycle_deposits:
  assumes "effect (poll_cycle sc ch ads reg latest sb fb) t d r d'" "ledger_ok d"
  shows "\<exists>new. length new = er_deposits_observed r \<and>
    scanned_rows sc ads reg (er_scanned_from r) (er_scanned_to r) t new \<and>
    list_all2 (forward ch sb fb) (deposits d @ new) (deposits d')"
  using assms(1)
proof (cases rule: effect_poll_cycleE)
  case (1 sf st n m d1 k1 d2 d3 k2 d4 d5 k3)
  note s = 1(2) and p = 1(3,5) and c = 1(4,6) and k = 1(7)
  have n: "er_deposits_observed r = n"
    using 1(8) by simp
  have l: "ledger_ok d5"
    by (rule ledger_before_credit [OF 1(2-6) assms(2)])
  obtain new where new: "deposits d1 = deposits d @ new" "length new = n"
    "scanned_rows sc ads reg (er_scanned_from r) (er_scanned_to r) t new"
    using scan_deposits [OF s] 1(8) by auto
  let ?f1 = "after_promote DepositObserved DepositSafe ch sb t"
  let ?f2 = "after_promote DepositSafe DepositFinalized ch fb t"
  let ?in = "\<lambda>x. d_id x \<in> ed_deposit_id ` set (eligible_deposits d5 ch)"
  let ?f3 = "\<lambda>x. if ?in x then x\<lparr>d_state := DepositCredited, d_updated_at := t\<rparr> else x"
  have d2: "deposits d2 = map ?f1 (deposits d @ new)"
    using p(1) by (elim effect_promoteE) (simp add: new(1) modify_def after_promote_def)
  have d5: "deposits d5 = map ?f2 (deposits d2)"
    using p(2) c by (auto elim!: effect_promoteE effect_SetCursorE simp: modify_def after_promote_def)
  note cr = credited_rows [OF k ledger_ok_deposits [OF l]]
  have D: "deposits d' = map (\<lambda>x. ?f3 (?f2 (?f1 x))) (deposits d @ new)"
    using cr(1) d5 d2 by simp
  have "forward ch sb fb x (?f3 (?f2 (?f1 x)))" if "x \<in> set (deposits d @ new)" for x
  proof (rule forward_composed [where c = "?in (?f2 (?f1 x))", OF refl refl refl])
    have "?f2 (?f1 x) \<in> set (deposits d5)"
      using that by (auto simp: d5 d2)
    then show "d_state (?f2 (?f1 x)) = DepositFinalized \<and> d_chain (?f2 (?f1 x)) = ch" if "?in (?f2 (?f1 x))"
      using that cr(2) by blast
  qed
  then have "list_all2 (forward ch sb fb) (deposits d @ new) (deposits d')"
    unfolding D by (rule list_all2_map_append)
  then show ?thesis
    using new(2,3) n by (intro exI [of _ new]) simp
qed

lemma cursor_of_frame [simp]:
  "cursor_of (d\<lparr>deposits := x7\<rparr>) = cursor_of d"
  "cursor_of (d\<lparr>outbox_events := x9\<rparr>) = cursor_of d"
  "cursor_of (d\<lparr>unsupported_token_observations := x12\<rparr>) = cursor_of d"
  "cursor_of (posted d je p1 p2 ct cid x y n t) = cursor_of d"
  by (simp_all add: fun_eq_iff cursor_of_def posted_def)

lemma cursor_of_emit: "effect (emit ty pl now) t d u d' \<Longrightarrow> cursor_of d' = cursor_of d"
  by (elim effect_emitE) simp

lemma cursor_of_observe: "effect (observe_transfer now x) t d b d' \<Longrightarrow> cursor_of d' = cursor_of d"
  by (auto simp: observe_transfer_def m_success
      elim!: effect_bindmE effect_RecordObservedE dest!: cursor_of_emit)

lemma cursor_of_credit:
  assumes "effect (CreditFinalizedDeposits ch) t d n d'"
  shows "cursor_of d' = cursor_of d"
  using assms
proof (rule effect_CreditE)
  assume "effect (for_each (credit_deposit t) (eligible_deposits d ch)) t d () d'"
  then show ?thesis
    by (rule effect_for_each_keeps [where P = "\<lambda>x. cursor_of x = cursor_of d"])
      (auto elim!: effect_credit_depositE dest!: cursor_of_emit)
qed

lemma cursor_of_promote: "effect (promote s s' ch b) t d n d' \<Longrightarrow> cursor_of d' = cursor_of d"
  by (elim effect_promoteE) simp

lemma scan_cursor:
  assumes "effect (scan_phase sc ch ads reg latest sf) t d r d'"
  shows "cursor_of d' ch CursorTierObserved =
      (if sf \<le> latest then scan_to latest sf else cursor_of d ch CursorTierObserved)"
    "fst r = (if sf \<le> latest then sf else 0)" "fst (snd r) = (if sf \<le> latest then scan_to latest sf else 0)"
    "sf \<le> latest \<Longrightarrow> \<exists>ts us. ScanDeposits sc ads reg sf (scan_to latest sf) = Inr (ts, us)"
  using assms by (auto elim!: effect_scan_phaseE simp: cursor_of_SetCursor)

lemma tiers_differ: "CursorTierObserved \<noteq> CursorTierSafe" "CursorTierObserved \<noteq> CursorTierFinalized"
  "CursorTierSafe \<noteq> CursorTierFinalized"
  by (simp_all add: CursorTierObserved_def CursorTierSafe_def CursorTierFinalized_def)

lemma cycle_cursors:
  assumes "effect (poll_cycle sc ch ads reg latest sb fb) t d r d'"
  shows "cursor_of d ch CursorTierObserved \<le> latest"
    "cursor_of d' ch CursorTierObserved =
      (let sf = cursor_of d ch CursorTierObserved + 1 in
       if sf \<le> latest then scan_to latest sf else cursor_of d ch CursorTierObserved)"
    "cursor_of d' ch CursorTierSafe = sb" "cursor_of d' ch CursorTierFinalized = fb"
  using assms
  by (auto elim!: effect_poll_cycleE simp: cursor_of_credit cursor_of_promote cursor_of_SetCursor
      scan_cursor(1) tiers_differ Let_def)

lemma cycle_result:
  assumes "effect (poll_cycle sc ch ads reg latest sb fb) t d r d'"
  shows "er_latest r = latest" "er_safe r = sb" "er_finalized r = fb"
    "er_scanned_from r = (let sf = cursor_of d ch CursorTierObserved + 1 in if sf \<le> latest then sf else 0)"
    "er_scanned_to r = (let sf = cursor_of d ch CursorTierObserved + 1 in
       if sf \<le> latest then scan_to latest sf else 0)"
  using assms by (auto elim!: effect_poll_cycleE dest: scan_cursor(2,3))

subsection \<open>Seeing a transfer twice\<close>

definition transfer_key :: "observed_transfer \<Rightarrow> chain \<times> string \<times> int" where
  "transfer_key x = (ot_chain x, ot_tx_hash x, ot_log_index x)"

lemma observe_transfer_known:
  assumes "effect (observe_transfer now x) t d b d'" "transfer_key x \<in> deposit_key ` set (active_deposits d)"
  shows "\<not> b \<and> d' = d"
  using assms
  by (auto simp: observe_transfer_def m_success deposit_row_of_def insert_deposit_or_nothing_def
      transfer_key_def deposit_key_def active_deposits_def split: if_splits
      elim!: effect_bindmE effect_RecordObservedE)

lemma active_deposits_append:
  "active_deposits (d\<lparr>deposits := deposits d @ [r]\<rparr>) =
     active_deposits d @ (if d_state r \<noteq> DepositOrphaned then [r] else [])"
  by (simp add: active_deposits_def)

lemma observe_transfer_keys:
  assumes "effect (observe_transfer now x) t d b d'"
  shows "deposit_key ` set (active_deposits d') =
    insert (transfer_key x) (deposit_key ` set (active_deposits d))"
  using assms
  by (auto simp: observe_transfer_def m_success deposit_row_of_def transfer_key_def deposit_key_def
      active_deposits_append insert_absorb elim!: effect_bindmE effect_RecordObservedE effect_emitE)

lemma observe_all_keys:
  assumes "effect (mapm (observe_transfer now) ts) t d bs d'"
  shows "deposit_key ` set (active_deposits d') =
    transfer_key ` set ts \<union> deposit_key ` set (active_deposits d)"
  using assms
proof (induction ts arbitrary: d bs)
  case (Cons x ts)
  then obtain b d1 bs' where b: "effect (observe_transfer now x) t d b d1"
    and bs: "effect (mapm (observe_transfer now) ts) t d1 bs' d'"
    by (auto simp: effect_ret intro!: quiet_mapm elim!: effect_bindmE)
  show ?case
    using Cons.IH [OF bs] observe_transfer_keys [OF b] by auto
qed (simp add: effect_ret)

lemma observe_all_known:
  assumes "effect (mapm (observe_transfer now) ts) t d bs d'"
    and "transfer_key ` set ts \<subseteq> deposit_key ` set (active_deposits d)"
  shows "d' = d \<and> bs = replicate (length ts) False"
  using assms
proof (induction ts arbitrary: d bs)
  case (Cons x ts)
  then obtain b d1 bs' where b: "effect (observe_transfer now x) t d b d1"
    and bs: "effect (mapm (observe_transfer now) ts) t d1 bs' d'" "bs = b # bs'"
    by (auto simp: effect_ret intro!: quiet_mapm elim!: effect_bindmE)
  have "\<not> b \<and> d1 = d"
    using observe_transfer_known [OF b] Cons.prems(2) by auto
  then show ?case
    using Cons.IH [OF bs(1)] Cons.prems(2) bs(2) by auto
qed (simp add: effect_ret)

subsection \<open>The reorg check\<close>

definition block_gone :: "scanner \<Rightarrow> deposit_row \<Rightarrow> bool" where
  "block_gone sc x \<longleftrightarrow>
     (case d_block_hash x of None \<Rightarrow> False | Some h \<Rightarrow> h \<noteq> [] \<and>
       (case BlockHash sc (d_block_number x) of Inl _ \<Rightarrow> False | Inr (hash, exists) \<Rightarrow> \<not> exists \<or> hash \<noteq> h))"

lemma effect_OrphanDeposit:
  assumes "effect (OrphanDeposit i) t d u d'"
  shows "deposits d' = modify (\<lambda>r. d_id r = i)
      (\<lambda>r. r\<lparr>d_state := DepositOrphaned, d_updated_at := t\<rparr>) (deposits d)"
    "postings d' = postings d" "watcher_view d' = watcher_view d"
  using assms by (auto simp: OrphanDeposit_def effect_time_now effect_stmt effect_guardm update_deposits_Inr
      watcher_view_def elim!: effect_bindmE effect_emitE)

lemma effect_check_pending:
  assumes "effect (check_pending sc (deposit_of_row x)) t d u d'"
  shows "if block_gone sc x then effect (OrphanDeposit (d_id x)) t d u d' else d' = d"
  using assms
  by (auto simp: check_pending_def block_gone_def deposit_of_row_def effect_ret effect_lift_result
      split: option.splits if_splits sum.splits prod.splits elim!: effect_bindmE)

lemma for_each_check:
  assumes "effect (for_each (check_pending sc) (map deposit_of_row xs)) t d u d'"
  shows "deposits d' = modify (\<lambda>r. d_id r \<in> d_id ` {x \<in> set xs. block_gone sc x})
      (\<lambda>r. r\<lparr>d_state := DepositOrphaned, d_updated_at := t\<rparr>) (deposits d) \<and>
    postings d' = postings d \<and> watcher_view d' = watcher_view d"
  using assms
proof (induction xs arbitrary: d)
  case (Cons x xs)
  let ?f = "\<lambda>r. r\<lparr>d_state := DepositOrphaned, d_updated_at := t\<rparr>"
  have q: "quiet (check_pending sc y)" for y
    by (auto simp: check_pending_def split: prod.split intro!: quiet_bindm)
  obtain d1 where x: "effect (check_pending sc (deposit_of_row x)) t d () d1"
    and xs: "effect (for_each (check_pending sc) (map deposit_of_row xs)) t d1 u d'"
    using Cons.prems q by (auto elim!: effect_bindmE)
  have "deposits d1 = modify (\<lambda>r. d_id r = d_id x \<and> block_gone sc x) ?f (deposits d) \<and>
      postings d1 = postings d \<and> watcher_view d1 = watcher_view d"
    using effect_check_pending [OF x] effect_OrphanDeposit [of "d_id x" t d "()" d1]
    by (auto simp: modify_id split: if_splits)
  then show ?case
    using Cons.IH [OF xs] by (auto simp: modify_modify intro!: modify_cong)
qed (simp add: effect_ret modify_id)

end
