(* ===== verification/Deposit_Guarantees.thy ===== *)
theory Deposit_Guarantees
  imports Watcher
begin

text \<open>
  The guarantees of the watcher process, as properties of its entry points, with sample runs that
  meet their hypotheses.
\<close>

subsection \<open>A sample chain\<close>

definition sample_hash :: string where
  "sample_hash = CHR ''0'' # CHR ''x'' # replicate 64 (CHR ''a'')"

definition bob_transfer :: observed_transfer where
  "bob_transfer =
     \<lparr>ot_chain = ChainBase, ot_asset = AssetETH, ot_address = bob_address, ot_tx_hash = ''0x02'',
      ot_log_index = -1, ot_amount = 500, ot_block_number = 8, ot_block_hash = sample_hash\<rparr>"

definition sample_scanner :: scanner where
  "sample_scanner =
     \<lparr>Head = Inr (10, 9, 8), BlockHash = (\<lambda>b. Inr (''0xdead'', True)),
      ScanDeposits = (\<lambda>ads reg a b. Inr ([bob_transfer], []))\<rparr>"

lemma sample_poll_fst: "isl (fst (TrackDeposits_Execute sample_scanner ChainBase (sample_world sample))) = False"
  by code_simp

definition sample_finalized :: database where
  "sample_finalized = sample
     \<lparr>deposits := [sample_deposit\<lparr>d_id := ''dep2'', d_address := bob_address, d_tx_hash := ''0x02'',
        d_amount := 500, d_state := DepositFinalized\<rparr>]\<rparr>"

lemma sample_credit_fst: "isl (fst (CreditFinalizedDeposits ChainBase (sample_world sample_finalized))) = False"
  by code_simp

lemma bigint_next: "bigint (uint (c :: u64)) \<Longrightarrow> uint (c + 1) = uint c + 1"
  by (simp add: bigint_def uint_word_ariths)

lemma list_all2_in_set2:
  assumes "list_all2 P xs ys" "y \<in> set ys"
  obtains x where "x \<in> set xs" "P x y"
  using assms by (induction xs ys rule: list_all2_induct) auto

lemma forward_orphaned:
  assumes "forward ch sb fb x y" "d_state y = DepositOrphaned"
  shows "x = y"
proof (rule ccontr)
  assume "x \<noteq> y"
  then have "moves (d_block_number x \<le> sb) (d_block_number x \<le> fb) (d_state x) (d_state y)"
    using assms(1) unfolding forward_def by blast
  then show False
    using assms(2) by (cases "d_state x") simp_all
qed

subsection \<open>Properties\<close>


lemma sample_cursor: "cursor_of sample ChainBase CursorTierObserved = 0"
  by code_simp


text \<open>C17: a poll cycle moves a deposit of its chain only forwards, from observed to safe only at or
  below the safe tag and on to finalized and credited only at or below the finalized tag; every
  other field of every deposit stays as it is, and so does every deposit of another chain.  Rows
  are added only as observed, stamped with the time of the cycle, and then move by the same rules.
  No cycle orphans a deposit.\<close>

theorem poll_moves_forward:
  assumes "TrackDeposits_Execute sc ch w = (Inr r, w')" "Head sc = Inr (latest, sb, fb)"
    and "ledger_ok (db w)"
  shows "\<exists>new. length new = er_deposits_observed r \<and>
    (\<forall>x\<in>set new. d_state x = DepositObserved \<and> d_observed_at x = clock w) \<and>
    list_all2 (forward ch sb fb) (deposits (db w) @ new) (deposits (db w')) \<and>
    (\<forall>y\<in>set (deposits (db w')). d_state y = DepositOrphaned \<longrightarrow> y \<in> set (deposits (db w)))"
  using assms(1)
proof (rule execute_cycle)
  fix reg latest' sb' fb'
  assume h: "Head sc = Inr (latest', sb', fb')"
    and e: "effect (poll_cycle sc ch (map da_address (deposit_addresses (db w))) reg latest' sb' fb')
      (clock w) (db w) r (db w')"
  have tags: "sb' = sb" "fb' = fb"
    using h assms(2) by auto
  obtain new where new: "length new = er_deposits_observed r"
    "\<forall>x\<in>set new. d_state x = DepositObserved \<and> d_observed_at x = clock w"
    "list_all2 (forward ch sb fb) (deposits (db w) @ new) (deposits (db w'))"
    using cycle_deposits [OF e assms(3)] scanned_rowsD unfolding tags by blast
  have "y \<in> set (deposits (db w))" if y: "y \<in> set (deposits (db w'))" "d_state y = DepositOrphaned" for y
  proof -
    obtain x where x: "x \<in> set (deposits (db w) @ new)" "forward ch sb fb x y"
      using new(3) y(1) by (rule list_all2_in_set2)
    have "x = y"
      using x(2) y(2) by (rule forward_orphaned)
    then show ?thesis
      using x(1) y(2) new(2) by auto
  qed
  with new show ?thesis by blast
qed

theorem poll_moves_forward_witness:
  "let w' = snd (TrackDeposits_Execute sample_scanner ChainBase (sample_world sample))
   in \<exists>new. list_all2 (forward ChainBase 9 8) (deposits sample @ new) (deposits (db w'))"
proof -
  obtain r where "TrackDeposits_Execute sample_scanner ChainBase (sample_world sample) =
      (Inr r, snd (TrackDeposits_Execute sample_scanner ChainBase (sample_world sample)))"
    using succeeded_pair [OF sample_poll_fst] by blast
  from poll_moves_forward [OF this, of 10 9 8] show ?thesis
    using ledger_sample by (auto simp: sample_scanner_def Let_def sample_world_def)
qed


lemma sample_finalized_ok: "deposits_ok sample_finalized"
  by code_simp

lemma sample_eligible:
  "map (\<lambda>e. (ed_deposit_id e, ed_customer_id e, ed_amount e)) (eligible_deposits sample_finalized ChainBase) =
     [(''dep2'', bob, 500)]"
  by code_simp



lemma sample_observe_fst:
  "isl (fst (mapm (observe_transfer 5) [bob_transfer] (sample_world sample))) = False"
  "isl (fst (mapm (observe_transfer 6) [bob_transfer, bob_transfer]
     (snd (mapm (observe_transfer 5) [bob_transfer] (sample_world sample))))) = False"
  by code_simp+


text \<open>C20: the reorg check orphans exactly the observed and safe deposits of the chain, among the
  500 of the lowest blocks, whose stored block hash is not what the chain now has at that height,
  or whose height the chain no longer has.  It moves no money and touches no other deposit.\<close>

theorem reorg_check_exact:
  assumes "checkForReorgs sc ch w = (Inr u, w')" "deposits_ok (db w)"
  shows "deposits (db w') = map (\<lambda>x.
      if x \<in> set (take 500 (pending_rows (db w) ch)) \<and> block_gone sc x
      then x\<lparr>d_state := DepositOrphaned, d_updated_at := clock w\<rparr> else x) (deposits (db w)) \<and>
    (\<forall>x\<in>set (pending_rows (db w) ch). x \<in> set (deposits (db w)) \<and> d_chain x = ch \<and>
       (d_state x = DepositObserved \<or> d_state x = DepositSafe)) \<and>
    (\<forall>z. balance (db w') z = balance (db w) z)"
proof -
  let ?ps = "take 500 (pending_rows (db w) ch)"
  have "effect (checkForReorgs sc ch) (clock w) (db w) u (db w')"
    using assms(1) by (rule effectI)
  then have "effect (for_each (check_pending sc) (map deposit_of_row ?ps)) (clock w) (db w) u (db w')"
    by (auto simp: checkForReorgs_def ListPendingDeposits_def maxPendingDepositsPerReorgCheck_def
        effect_query elim!: effect_bindmE)
  note c = for_each_check [OF this]
  have pend: "\<forall>x\<in>set (pending_rows (db w) ch). x \<in> set (deposits (db w)) \<and> d_chain x = ch \<and>
       (d_state x = DepositObserved \<or> d_state x = DepositSafe)"
    by (auto simp: pending_rows_def)
  have "d_id x \<in> d_id ` {x \<in> set ?ps. block_gone sc x} \<longleftrightarrow> x \<in> set ?ps \<and> block_gone sc x"
    if x: "x \<in> set (deposits (db w))" for x
    using deposit_unique [OF assms(2) x] pend by (auto dest: in_set_takeD)
  then have "deposits (db w') = map (\<lambda>x. if x \<in> set ?ps \<and> block_gone sc x
      then x\<lparr>d_state := DepositOrphaned, d_updated_at := clock w\<rparr> else x) (deposits (db w))"
    using c by (auto simp: modify_def intro: map_cong)
  then show ?thesis
    using c pend by (simp add: balance_def)
qed

definition sample_observed :: database where
  "sample_observed = sample\<lparr>deposits := [sample_deposit\<lparr>d_id := ''dep2'', d_tx_hash := ''0x02'',
     d_block_hash := Some sample_hash, d_state := DepositObserved\<rparr>]\<rparr>"

lemma sample_reorg_fst: "isl (fst (checkForReorgs sample_scanner ChainBase (sample_world sample_observed))) = False"
  "deposits_ok sample_observed"
  by code_simp+

theorem reorg_check_exact_witness:
  "map d_state (deposits (db (snd (checkForReorgs sample_scanner ChainBase (sample_world sample_observed))))) =
     [DepositOrphaned] \<and>
   (\<forall>z. balance (db (snd (checkForReorgs sample_scanner ChainBase (sample_world sample_observed)))) z =
     balance sample_observed z)"
proof -
  obtain u where u: "checkForReorgs sample_scanner ChainBase (sample_world sample_observed) =
      (Inr u, snd (checkForReorgs sample_scanner ChainBase (sample_world sample_observed)))"
    using succeeded_pair [OF sample_reorg_fst(1)] by blast
  have "map d_state (deposits (db (snd (checkForReorgs sample_scanner ChainBase (sample_world sample_observed))))) =
      [DepositOrphaned]"
    by code_simp
  then show ?thesis
    using reorg_check_exact [OF u] sample_reorg_fst(2) by (simp add: sample_world_def)
qed

text \<open>C21: yet no poll cycle runs that check: whatever the chain now answers for any height, a
  cycle does exactly the same.\<close>

theorem poll_ignores_block_hashes:
  "TrackDeposits_Execute (sc\<lparr>BlockHash := f\<rparr>) ch w = TrackDeposits_Execute sc ch w"
proof -
  have scan: "scan_phase (sc\<lparr>BlockHash := f\<rparr>) c ads reg latest start = scan_phase sc c ads reg latest start"
    for c ads reg latest start
    by (cases "start \<le> latest") (simp_all add: scan_phase_def Let_def)
  show ?thesis
    by (simp add: TrackDeposits_Execute_def poll_cycle_def scan)
qed

end
