(* ===== verification/Chain_Guarantees.thy ===== *)
theory Chain_Guarantees
  imports Scanner Deposit_Guarantees
begin

text \<open>
  The guarantees of the chain scanner, alone and under the watcher: which internal calls count as
  payments, that a scan ends, that every deposit the watcher records is a payment the node
  reported, and that it records every payment of the range it scanned.
\<close>

subsection \<open>What the node reports\<close>

text \<open>A deposit row is backed by a transaction, by an internal call or by a token log.\<close>

definition native_payment :: "evm_lib \<Rightarrow> scan_client \<Rightarrow> deposit_row \<Rightarrow> bool" where
  "native_payment lib client x \<longleftrightarrow>
     d_asset x = AssetETH \<and> d_log_index x = -1 \<and>
     (\<exists>block tx. GetBlockByNumber client (d_block_number x) = Inr block \<and> tx \<in> set (rb_transactions block) \<and>
        rt_to tx = Some (HexToAddress lib (d_address x)) \<and> rt_value tx = Some (d_amount x) \<and>
        d_tx_hash x = HashHex lib (rt_hash tx))"

definition internal_payment :: "evm_lib \<Rightarrow> scan_client \<Rightarrow> deposit_row \<Rightarrow> bool" where
  "internal_payment lib client x \<longleftrightarrow>
     d_asset x = AssetETH \<and> d_log_index x \<le> -2 \<and>
     (\<exists>traces trace c. TraceBlockByNumber client (d_block_number x) = Inr traces \<and> trace \<in> set traces \<and>
        tt_error trace = [] \<and> cf_error (tt_result trace) = [] \<and> live_under (tt_result trace) c \<and>
        cf_type c = ''CALL'' \<and> cf_to c = Some (HexToAddress lib (d_address x)) \<and>
        cf_value c = Some (d_amount x) \<and> d_tx_hash x = HashHex lib (tt_hash trace))"

definition token_payment ::
    "evm_lib \<Rightarrow> scan_client \<Rightarrow> address list \<Rightarrow> (address \<Rightarrow> asset option) \<Rightarrow> u64 \<Rightarrow> u64 \<Rightarrow> deposit_row \<Rightarrow> bool" where
  "token_payment lib client as reg sf st x \<longleftrightarrow>
     (\<exists>logs l. FilterLogs client (token_query lib as sf st) = Inr logs \<and> l \<in> set logs \<and>
        \<not> lg_removed l \<and> length (lg_topics l) = 3 \<and> length (lg_data l) = 32 \<and>
        BytesToAddress lib (lg_topics l ! 2) = HexToAddress lib (d_address x) \<and>
        SetBytes (lg_data l) = d_amount x \<and>
        reg (to_lower (AddressHex lib (lg_address l))) = Some (d_asset x) \<and>
        d_tx_hash x = HashHex lib (lg_tx_hash l) \<and> d_log_index x = sint (lg_index l) \<and>
        d_block_number x = lg_block_number l)"

lemma known_address:
  assumes "known_addresses lib as a = Some addr"
  shows "addr \<in> set as \<and> a = HexToAddress lib addr"
  using map_of_SomeD [OF assms [unfolded known_addresses_def]] by auto

lemma known_addresses_dom:
  "addr \<in> set as \<Longrightarrow> \<exists>addr'. known_addresses lib as (HexToAddress lib addr) = Some addr'"
  by (cases "known_addresses lib as (HexToAddress lib addr)")
    (auto simp: known_addresses_def map_of_eq_None_iff image_image)

lemma native_transferE:
  assumes "native_transfer lib ch known block b tx = Some t"
  obtains a addr v where "rt_to tx = Some a" "known a = Some addr" "rt_value tx = Some v" "0 < v"
    "ot_chain t = ch" "ot_asset t = AssetETH" "ot_address t = addr" "ot_tx_hash t = HashHex lib (rt_hash tx)"
    "ot_log_index t = -1" "ot_amount t = v" "ot_block_number t = b"
  using assms by (auto simp: native_transfer_def nativeTransferLogIndex_def split: option.splits if_splits)

lemma native_transferI:
  assumes "rt_to tx = Some a" "known a = Some addr" "rt_value tx = Some v" "0 < v"
  shows "\<exists>t. native_transfer lib ch known block b tx = Some t \<and>
    transfer_key t = (ch, HashHex lib (rt_hash tx), -1)"
  using assms by (simp add: native_transfer_def nativeTransferLogIndex_def transfer_key_def)

lemma in_block_payment:
  assumes "in_block lib ch client as b t" "recorded_from t x"
  shows "d_chain x = ch \<and> d_block_number x = b \<and> d_address x \<in> set as \<and> 0 < d_amount x \<and>
    (native_payment lib client x \<or> internal_payment lib client x)"
proof -
  from assms(1) consider
    (native) block tx where "GetBlockByNumber client b = Inr block" "tx \<in> set (rb_transactions block)"
      "native_transfer lib ch (known_addresses lib as) block b tx = Some t"
  | (internal) block traces trace where "TraceBlockByNumber client b = Inr traces" "trace \<in> set traces"
      "t \<in> set (trace_transfers lib ch (known_addresses lib as) block b trace)"
    unfolding in_block_def by blast
  then show ?thesis
  proof cases
    case native
    from native(3) show ?thesis
      by (rule native_transferE)
        (use native(1,2) assms(2) known_address in \<open>fastforce simp: native_payment_def recorded_from_def\<close>)
  next
    case internal
    from internal(3) obtain i c addr v where c: "tt_error trace = []" "cf_error (tt_result trace) = []"
      "live_under (tt_result trace) c" "0 \<le> i" "hits (known_addresses lib as) c addr v"
      "t = internal_transfer lib ch block b (tt_hash trace) i addr v"
      by (rule trace_transfersE)
    from c(5) obtain a where a: "cf_type c = ''CALL''" "cf_value c = Some v" "0 < v" "cf_to c = Some a"
      "known_addresses lib as a = Some addr"
      by (auto simp: hits_def)
    note k = known_address [OF a(5)]
    have x: "d_chain x = ch" "d_asset x = AssetETH" "d_address x = addr" "d_tx_hash x = HashHex lib (tt_hash trace)"
      "d_log_index x = -2 - i" "d_amount x = v" "d_block_number x = b"
      using assms(2) unfolding recorded_from_def c(6) by simp_all
    have "internal_payment lib client x"
      unfolding internal_payment_def using internal c(1-4) a k x by auto
    then show ?thesis
      using x k a(3) by simp
  qed
qed

lemma classify_transfer:
  assumes "classify_log lib ch known reg l = Transfer t"
  obtains addr where "\<not> lg_removed l" "length (lg_topics l) = 3" "length (lg_data l) = 32"
    "known (BytesToAddress lib (lg_topics l ! 2)) = Some addr" "0 < SetBytes (lg_data l)"
    "reg (to_lower (AddressHex lib (lg_address l))) = Some (ot_asset t)" "ot_chain t = ch" "ot_address t = addr"
    "ot_amount t = SetBytes (lg_data l)" "ot_tx_hash t = HashHex lib (lg_tx_hash l)"
    "ot_log_index t = sint (lg_index l)" "ot_block_number t = lg_block_number l"
  using assms by (auto simp: classify_log_def Let_def split: option.splits if_splits)

lemma classify_transferI:
  assumes "\<not> lg_removed l" "length (lg_topics l) = 3" "length (lg_data l) = 32"
    "known (BytesToAddress lib (lg_topics l ! 2)) = Some addr" "0 < SetBytes (lg_data l)"
    "reg (to_lower (AddressHex lib (lg_address l))) = Some a"
  shows "\<exists>t. classify_log lib ch known reg l = Transfer t \<and>
    transfer_key t = (ch, HashHex lib (lg_tx_hash l), sint (lg_index l))"
  using assms by (simp add: classify_log_def transfer_key_def Let_def)

lemma set_transfers_of: "set (transfers_of cs) = {t. Transfer t \<in> set cs}"
  by (induction cs) (auto simp: transfers_of_def split: log_class.splits)

lemma scan_sound:
  assumes "Scanner_ScanDeposits lib ch client dis as reg sf st = Some (Inr (ts, us), dis')"
    and "t \<in> set ts" "recorded_from t x"
  shows "d_chain x = ch \<and> d_address x \<in> set as \<and> 0 < d_amount x \<and>
    (sf \<le> d_block_number x \<and> d_block_number x \<le> st \<and> (native_payment lib client x \<or> internal_payment lib client x)
     \<or> token_payment lib client as reg sf st x)"
proof -
  from assms(1,2) obtain native erc20 where
    n: "scan_blocks lib ch client as st sf dis [] = Some (Inr native, dis')"
    and e: "scanERC20Transfers lib ch client as reg sf st = Inr (erc20, us)" and ts: "ts = native @ erc20"
    by (auto simp: Scanner_ScanDeposits_def scanNativeTransfers_def split: if_splits option.splits sum.splits)
  show ?thesis
  proof (cases "t \<in> set native")
    case True
    then show ?thesis
      using scan_blocks_sound [OF n True] in_block_payment [OF _ assms(3)] by fastforce
  next
    case False
    then obtain logs l where l: "FilterLogs client (token_query lib as sf st) = Inr logs" "l \<in> set logs"
      "classify_log lib ch (known_addresses lib as) reg l = Transfer t"
      using e ts assms(2)
      by (auto simp: scanERC20Transfers_def Let_def set_transfers_of image_iff split: if_splits sum.splits)
    from l(3) show ?thesis
      by (rule classify_transfer)
        (use l(1,2) assms(3) known_address in \<open>fastforce simp: token_payment_def recorded_from_def\<close>)
  qed
qed

text \<open>And everything in the range that pays a known address is found.\<close>

definition transactions_found ::
    "evm_lib \<Rightarrow> chain \<Rightarrow> scan_client \<Rightarrow> address list \<Rightarrow> u64 \<Rightarrow> u64 \<Rightarrow> (chain \<times> string \<times> int) set \<Rightarrow> bool" where
  "transactions_found lib ch client as sf st keys \<longleftrightarrow>
     (\<forall>n. sf \<le> n \<and> n \<le> st \<longrightarrow> (\<exists>block. GetBlockByNumber client n = Inr block \<and>
        (\<forall>tx\<in>set (rb_transactions block). \<forall>addr\<in>set as. \<forall>v.
           rt_to tx = Some (HexToAddress lib addr) \<and> rt_value tx = Some v \<and> 0 < v \<longrightarrow>
           (ch, HashHex lib (rt_hash tx), -1) \<in> keys)))"

definition internal_found ::
    "evm_lib \<Rightarrow> chain \<Rightarrow> scan_client \<Rightarrow> address list \<Rightarrow> u64 \<Rightarrow> u64 \<Rightarrow> (chain \<times> string \<times> int) set \<Rightarrow> bool" where
  "internal_found lib ch client as sf st keys \<longleftrightarrow>
     (\<forall>n block traces. sf \<le> n \<and> n \<le> st \<and> GetBlockByNumber client n = Inr block \<and>
        TraceBlockByNumber client n = Inr traces \<longrightarrow> (\<forall>trace\<in>set traces.
          transfer_key ` set (trace_transfers lib ch (known_addresses lib as) block n trace) \<subseteq> keys))"

definition logs_found ::
    "evm_lib \<Rightarrow> chain \<Rightarrow> scan_client \<Rightarrow> address list \<Rightarrow> (address \<Rightarrow> asset option) \<Rightarrow> u64 \<Rightarrow> u64 \<Rightarrow>
     (chain \<times> string \<times> int) set \<Rightarrow> bool" where
  "logs_found lib ch client as reg sf st keys \<longleftrightarrow>
     (\<forall>logs. FilterLogs client (token_query lib as sf st) = Inr logs \<longrightarrow> (\<forall>l\<in>set logs. \<forall>addr\<in>set as. \<forall>a.
        \<not> lg_removed l \<and> length (lg_topics l) = 3 \<and> length (lg_data l) = 32 \<and>
        BytesToAddress lib (lg_topics l ! 2) = HexToAddress lib addr \<and> 0 < SetBytes (lg_data l) \<and>
        reg (to_lower (AddressHex lib (lg_address l))) = Some a \<longrightarrow>
        (ch, HashHex lib (lg_tx_hash l), sint (lg_index l)) \<in> keys))"

lemma transactions_found_mono:
  "transactions_found lib ch client as sf st keys \<Longrightarrow> keys \<subseteq> keys' \<Longrightarrow> transactions_found lib ch client as sf st keys'"
  unfolding transactions_found_def by (meson subset_iff)

lemma internal_found_mono:
  "internal_found lib ch client as sf st keys \<Longrightarrow> keys \<subseteq> keys' \<Longrightarrow> internal_found lib ch client as sf st keys'"
  unfolding internal_found_def by (meson subset_trans)

lemma logs_found_mono:
  "logs_found lib ch client as reg sf st keys \<Longrightarrow> keys \<subseteq> keys' \<Longrightarrow> logs_found lib ch client as reg sf st keys'"
  unfolding logs_found_def by (meson subset_iff)

lemma scan_parts:
  assumes "Scanner_ScanDeposits lib ch client dis as reg sf st = Some (Inr (ts, us), dis')" "sf \<le> st"
  obtains native erc20 where "scan_blocks lib ch client as st sf dis [] = Some (Inr native, dis')"
    "scanERC20Transfers lib ch client as reg sf st = Inr (erc20, us)" "ts = native @ erc20"
  using assms by (auto simp: Scanner_ScanDeposits_def scanNativeTransfers_def split: if_splits option.splits sum.splits)

lemma transactions_complete:
  assumes n: "scan_blocks lib ch client as st sf dis [] = Some (Inr ts, dis')"
  shows "transactions_found lib ch client as sf st (transfer_key ` set ts)"
  unfolding transactions_found_def
proof (intro allI impI, elim conjE)
  fix n assume r: "sf \<le> n" "n \<le> st"
  obtain block where b: "GetBlockByNumber client n = Inr block"
    "\<forall>tx\<in>set (rb_transactions block). \<forall>t. native_transfer lib ch (known_addresses lib as) block n tx = Some t \<longrightarrow> t \<in> set ts"
    using scan_blocks_complete [OF n r] unfolding block_scanned_def by blast
  have "(ch, HashHex lib (rt_hash tx), -1) \<in> transfer_key ` set ts"
    if tx: "tx \<in> set (rb_transactions block)" "addr \<in> set as" "rt_to tx = Some (HexToAddress lib addr)"
      "rt_value tx = Some v" "0 < v" for tx addr v
  proof -
    obtain addr' where "known_addresses lib as (HexToAddress lib addr) = Some addr'"
      using known_addresses_dom [OF tx(2)] by blast
    then obtain t where t: "native_transfer lib ch (known_addresses lib as) block n tx = Some t"
      "transfer_key t = (ch, HashHex lib (rt_hash tx), -1)"
      using native_transferI [OF tx(3) _ tx(4,5)] by blast
    then show ?thesis
      using b(2) tx(1) by (metis image_eqI)
  qed
  with b(1) show "\<exists>block. GetBlockByNumber client n = Inr block \<and>
        (\<forall>tx\<in>set (rb_transactions block). \<forall>addr\<in>set as. \<forall>v.
           rt_to tx = Some (HexToAddress lib addr) \<and> rt_value tx = Some v \<and> 0 < v \<longrightarrow>
           (ch, HashHex lib (rt_hash tx), -1) \<in> transfer_key ` set ts)"
    by blast
qed

lemma internal_complete:
  assumes n: "scan_blocks lib ch client as st sf False [] = Some (Inr ts, dis')" and "as \<noteq> []"
    and tr: "\<forall>m. sf \<le> m \<and> m \<le> st \<longrightarrow> \<not> isl (TraceBlockByNumber client m)"
  shows "internal_found lib ch client as sf st (transfer_key ` set ts)"
proof -
  have "\<not> dis'"
    using scan_blocks_mono [OF n] tr by blast
  then show ?thesis
    using scan_blocks_complete [OF n] assms(2) unfolding internal_found_def block_scanned_def
    by (metis image_mono sum.inject(2))
qed

lemma logs_complete:
  assumes "scanERC20Transfers lib ch client as reg sf st = Inr (ts, us)"
  shows "logs_found lib ch client as reg sf st (transfer_key ` set ts)"
  unfolding logs_found_def
proof (intro allI impI ballI, elim conjE)
  fix logs l addr a
  assume l: "FilterLogs client (token_query lib as sf st) = Inr logs" "l \<in> set logs" "addr \<in> set as"
    and c: "\<not> lg_removed l" "length (lg_topics l) = 3" "length (lg_data l) = 32"
    "BytesToAddress lib (lg_topics l ! 2) = HexToAddress lib addr" "0 < SetBytes (lg_data l)"
    "reg (to_lower (AddressHex lib (lg_address l))) = Some a"
  obtain addr' where k: "known_addresses lib as (BytesToAddress lib (lg_topics l ! 2)) = Some addr'"
    using known_addresses_dom [OF l(3)] c(4) by fastforce
  obtain t where t: "classify_log lib ch (known_addresses lib as) reg l = Transfer t"
    "transfer_key t = (ch, HashHex lib (lg_tx_hash l), sint (lg_index l))"
    using classify_transferI [where known = "known_addresses lib as" and reg = reg, OF c(1-3) k c(5,6)] by blast
  have "ts = transfers_of (map (classify_log lib ch (known_addresses lib as) reg) logs)"
    using assms l(1,3) by (auto simp: scanERC20Transfers_def Let_def split: if_splits)
  then have "t \<in> set ts"
    using t(1) l(2) by (auto simp: set_transfers_of) (metis image_eqI)
  then show "(ch, HashHex lib (lg_tx_hash l), sint (lg_index l)) \<in> transfer_key ` set ts"
    using t(2) by (metis image_eqI)
qed

subsection \<open>Under the watcher\<close>

lemma active_keys_modify:
  assumes "\<And>x. d_state (f x) \<noteq> DepositOrphaned" "\<And>x. deposit_key (f x) = deposit_key x"
  shows "deposit_key ` set (active_deposits d) \<subseteq>
    deposit_key ` set (active_deposits (d\<lparr>deposits := modify p f (deposits d)\<rparr>))"
proof
  fix k assume "k \<in> deposit_key ` set (active_deposits d)"
  then obtain x where x: "x \<in> set (deposits d)" "d_state x \<noteq> DepositOrphaned" "k = deposit_key x"
    by (auto simp: active_deposits_def)
  then have m: "(if p x then f x else x) \<in> set (active_deposits (d\<lparr>deposits := modify p f (deposits d)\<rparr>))"
    using assms(1) by (simp add: active_deposits_def modify_def)
  have "k = deposit_key (if p x then f x else x)"
    using assms(2) x(3) by simp
  then show "k \<in> deposit_key ` set (active_deposits (d\<lparr>deposits := modify p f (deposits d)\<rparr>))"
    using m by (rule image_eqI)
qed

lemma set_state_keys:
  assumes "s \<noteq> DepositOrphaned" "deposits d' = modify p (\<lambda>r. r\<lparr>d_state := s, d_updated_at := t\<rparr>) (deposits d)"
  shows "deposit_key ` set (active_deposits d) \<subseteq> deposit_key ` set (active_deposits d')"
proof -
  have "deposit_key (x\<lparr>d_state := s, d_updated_at := t\<rparr>) = deposit_key x" for x
    by (simp add: deposit_key_def)
  then show ?thesis
    using active_keys_modify [of "\<lambda>r. r\<lparr>d_state := s, d_updated_at := t\<rparr>" d p] assms
    by (simp add: active_deposits_def)
qed

lemma promote_keys:
  assumes "effect (promote s s' ch b) t d n d'" "s' \<noteq> DepositOrphaned"
  shows "deposit_key ` set (active_deposits d) \<subseteq> deposit_key ` set (active_deposits d')"
proof -
  have "deposits d' = modify (\<lambda>r. d_state r = s \<and> d_chain r = ch \<and> d_block_number r \<le> b)
      (\<lambda>r. r\<lparr>d_state := s', d_updated_at := t\<rparr>) (deposits d)"
    using assms(1) by (elim effect_promoteE) simp
  then show ?thesis
    by (rule set_state_keys [OF assms(2)])
qed

lemma credit_keys:
  assumes "effect (CreditFinalizedDeposits ch) t d n d'"
  shows "deposit_key ` set (active_deposits d) \<subseteq> deposit_key ` set (active_deposits d')"
proof -
  have "deposits d' = modify (\<lambda>x. d_id x \<in> ed_deposit_id ` set (eligible_deposits d ch))
      (\<lambda>r. r\<lparr>d_state := DepositCredited, d_updated_at := t\<rparr>) (deposits d)"
    using assms for_each_credit by (elim effect_CreditE) simp
  then show ?thesis
    by (rule set_state_keys [rotated]) simp
qed

lemma scan_keys:
  assumes "effect (scan_phase sc ch ads reg latest sf) t d r d'" "fst r \<noteq> 0"
  obtains ts us where "ScanDeposits sc ads reg (fst r) (fst (snd r)) = Inr (ts, us)"
    "transfer_key ` set ts \<subseteq> deposit_key ` set (active_deposits d')"
  using assms(1)
proof (cases rule: effect_scan_phaseE)
  case (2 ts us ins uns d1 d2)
  have "deposits d2 = deposits d1"
    by (rule effect_mapm_keeps [where P = "\<lambda>x. deposits x = deposits d1", OF 2(4)])
      (auto elim!: effect_observe_unsupportedE)
  then have "active_deposits d' = active_deposits d1"
    using 2(5) by (auto simp: active_deposits_def elim!: effect_SetCursorE)
  then show thesis
    using that [of ts us] observe_all_keys [OF 2(3)] 2(2,6) by simp
qed (use assms(2) in simp)

lemma cycle_keys:
  assumes "effect (poll_cycle sc ch ads reg latest sb fb) t d r d'" "er_scanned_from r \<noteq> 0"
  obtains ts us where "ScanDeposits sc ads reg (er_scanned_from r) (er_scanned_to r) = Inr (ts, us)"
    "transfer_key ` set ts \<subseteq> deposit_key ` set (active_deposits d')"
  using assms(1)
proof (cases rule: effect_poll_cycleE)
  case (1 sf st n m d1 k1 d2 d3 k2 d4 d5 k3)
  have "fst (sf, st, n, m) \<noteq> 0"
    using assms(2) 1(8) by simp
  from scan_keys [OF 1(2) this] obtain ts us where "ScanDeposits sc ads reg sf st = Inr (ts, us)"
    "transfer_key ` set ts \<subseteq> deposit_key ` set (active_deposits d1)"
    by auto
  moreover have "active_deposits d3 = active_deposits d2" "active_deposits d5 = active_deposits d4"
    using 1(4,6) by (auto simp: active_deposits_def elim!: effect_SetCursorE)
  ultimately show thesis
    using that [of ts us] promote_keys [OF 1(3)] promote_keys [OF 1(5)] credit_keys [OF 1(7)] 1(8) by auto
qed

lemma evm_scan_InrD:
  assumes "ScanDeposits (evm_scanner lib ch client dis) as reg sf st = Inr (ts, us)"
  obtains dis' where "Scanner_ScanDeposits lib ch client dis as reg sf st = Some (Inr (ts, us), dis')"
  using assms by (auto simp: evm_scanner_def split: option.splits)

subsection \<open>A sample chain of two blocks\<close>

definition sample_lib :: evm_lib where
  "sample_lib =
     \<lparr>HexToAddress = map of_char, AddressHex = (\<lambda>_. ''0xToken''), HashHex = (\<lambda>_. sample_hash),
      BytesToAddress = (\<lambda>bs. bs), BytesToHash = (\<lambda>bs. bs), Keccak256Hash = map of_char\<rparr>"

definition sample_trace :: tx_call_trace where
  "sample_trace =
     \<lparr>tt_hash = [7],
      tt_result = CallFrame ''CALL'' [1] (Some [2]) (Some 0) []
        [CallFrame ''CALL'' [2] (Some (HexToAddress sample_lib alice_address)) (Some 70) [] [],
         CallFrame ''CALL'' [2] (Some [3]) (Some 0) ''reverted''
           [CallFrame ''CALL'' [3] (Some (HexToAddress sample_lib alice_address)) (Some 80) [] []]],
      tt_error = []\<rparr>"

definition sample_client :: scan_client where
  "sample_client =
     \<lparr>BlockNumber = Inr 2,
      HeaderByNumber = (\<lambda>tag. Inr (Some \<lparr>bh_number = Some 1, bh_hash = [9]\<rparr>)),
      FilterLogs = (\<lambda>q. Inr []),
      GetBlockByNumber = (\<lambda>b. Inr \<lparr>rb_hash = [9], rb_transactions =
        (if b = 1 then [\<lparr>rt_hash = [8], rt_to = Some (HexToAddress sample_lib bob_address), rt_value = Some 500\<rparr>]
         else [])\<rparr>),
      TraceBlockByNumber = (\<lambda>b. Inr (if b = 1 then [sample_trace] else []))\<rparr>"

lemma sample_chain_poll: "isl (fst (TrackDeposits_Execute (evm_scanner sample_lib ChainBase sample_client False)
    ChainBase (sample_world sample))) = False"
  by code_simp

lemma sample_chain_rows: "map (\<lambda>x. (d_address x, d_log_index x, d_amount x))
    (deposits (db (snd (TrackDeposits_Execute (evm_scanner sample_lib ChainBase sample_client False)
    ChainBase (sample_world sample))))) = [(alice_address, -1, 1000), (bob_address, -1, 500), (alice_address, -2, 70)]"
  by code_simp

lemma sample_trace_calls: "tt_error sample_trace = []"
  by (simp add: sample_trace_def)

subsection \<open>The internal calls of a transaction\<close>

text \<open>The calls of a trace that took effect, in the order they were made, and what each pays.\<close>

definition live_calls :: "tx_call_trace \<Rightarrow> call_frame list" where
  "live_calls trace =
     (if tt_error trace \<noteq> [] then []
      else map fst (filter (\<lambda>(c, r). \<not> r) (preorder (cf_error (tt_result trace) \<noteq> []) (cf_calls (tt_result trace)))))"

definition payment :: "(byte list \<Rightarrow> address option) \<Rightarrow> call_frame \<Rightarrow> (address \<times> int) list" where
  "payment known c =
     (case (cf_to c, cf_value c) of
        (Some a, Some v) \<Rightarrow>
          (case known a of
             None \<Rightarrow> [] | Some addr \<Rightarrow> if cf_type c = ''CALL'' \<and> 0 < v then [(addr, v)] else [])
      | _ \<Rightarrow> [])"

lemma frame_payment:
  "map (\<lambda>t. (ot_address t, ot_amount t)) (frame_transfer lib ch known block b h i r c) =
     (if r then [] else payment known c)"
  by (simp add: frame_transfer_def payment_def split: option.split)

lemma number_drop: "concat (map (\<lambda>(i, x). f x) (number n xs)) = concat (map f xs)"
  by (induction xs arbitrary: n) auto

lemma concat_filter: "concat (map (\<lambda>(c, r). if r then [] else f c) xs) = concat (map f (map fst (filter (\<lambda>(c, r). \<not> r) xs)))"
  by (induction xs) auto

lemma live_calls_set:
  "set (live_calls trace) =
     {c. tt_error trace = [] \<and> cf_error (tt_result trace) = [] \<and> live_under (tt_result trace) c}"
proof -
  have "c \<in> set (live_calls trace) \<longleftrightarrow> tt_error trace = [] \<and> cf_error (tt_result trace) = [] \<and>
      live_under (tt_result trace) c" for c
    using live_under_split [of "tt_result trace" c] live_under_trans [of _ c "tt_result trace"]
      live_under.child [of c "tt_result trace"] preorder_live [of c "cf_error (tt_result trace) \<noteq> []" "cf_calls (tt_result trace)"]
    by (auto simp: live_calls_def image_iff)
  then show ?thesis by auto
qed

text \<open>C34: of the trace of a transaction the scanner records, in the order of the calls, exactly the
  plain calls with a positive value to a known address that took effect, that is, neither the
  transaction nor the call nor any call above it failed; each is recorded with its own log index,
  different from all others and from that of the top-level transfer.\<close>

theorem internal_transfers_exact:
  "let ts = trace_transfers lib ch known block b trace in
    map (\<lambda>t. (ot_address t, ot_amount t)) ts = concat (map (payment known) (live_calls trace)) \<and>
    set (live_calls trace) =
      {c. tt_error trace = [] \<and> cf_error (tt_result trace) = [] \<and> live_under (tt_result trace) c} \<and>
    distinct (map ot_log_index ts) \<and> (\<forall>t\<in>set ts. ot_log_index t < nativeTransferLogIndex)"
proof (cases "tt_error trace = []")
  case True
  let ?ts = "trace_transfers lib ch known block b trace"
  have "map (\<lambda>t. (ot_address t, ot_amount t)) ?ts = concat (map (payment known) (live_calls trace))"
    unfolding trace_transfers_number [OF True] live_calls_def map_concat
    using True concat_filter [of "payment known"]
      number_drop [of "\<lambda>(c, r). if r then [] else payment known c"]
    by (simp add: comp_def case_prod_unfold frame_payment)
  moreover have "ot_log_index t < nativeTransferLogIndex" if "t \<in> set ?ts" for t
    using that by (rule trace_transfersE) (simp add: nativeTransferLogIndex_def)
  ultimately show ?thesis
    using trace_indices [OF True] live_calls_set by (simp add: Let_def)
next
  case False
  then show ?thesis
    using live_calls_set [of trace] by (simp add: trace_transfers_def live_calls_def Let_def)
qed

lemma sample_trace_payments: "concat (map (payment (known_addresses sample_lib [alice_address])) (live_calls sample_trace)) =
    [(alice_address, 70)]"
  by code_simp

theorem internal_transfers_exact_witness:
  "map (\<lambda>t. (ot_address t, ot_amount t)) (trace_transfers sample_lib ChainBase
      (known_addresses sample_lib [alice_address]) \<lparr>rb_hash = [9], rb_transactions = []\<rparr> 1 sample_trace) =
    [(alice_address, 70)]"
  using internal_transfers_exact [of sample_lib ChainBase "known_addresses sample_lib [alice_address]"
      "\<lparr>rb_hash = [9], rb_transactions = []\<rparr>" 1 sample_trace]
  unfolding Let_def sample_trace_payments by (elim conjE)

text \<open>C35: a scan returns, with the transfers or with an error of the node, for every range that
  does not end at the last 64-bit block number.  For that one it returns only if a block cannot
  be fetched: the counter of the loop wraps around and starts again from block zero.\<close>

theorem scan_returns:
  "(toBlock \<noteq> -1 \<longrightarrow>
      (\<exists>r. Scanner_ScanDeposits lib ch client dis as reg fromBlock toBlock = Some r)) \<and>
   ((\<forall>b. \<exists>block. GetBlockByNumber client b = Inr block) \<longrightarrow>
      Scanner_ScanDeposits lib ch client dis as reg fromBlock (-1) = None)"
proof (intro conjI impI)
  assume "toBlock \<noteq> -1"
  then obtain r dis' where "scan_blocks lib ch client as toBlock fromBlock dis [] = Some (r, dis')"
    using scan_blocks_returns by fastforce
  then show "\<exists>r. Scanner_ScanDeposits lib ch client dis as reg fromBlock toBlock = Some r"
    by (auto simp: Scanner_ScanDeposits_def scanNativeTransfers_def split: sum.split)
next
  assume "\<forall>b. \<exists>block. GetBlockByNumber client b = Inr block"
  then have "GetBlockByNumber client b \<noteq> Inl e" for b e
    by (metis sum.distinct(1))
  from scan_blocks_diverges [OF this] show "Scanner_ScanDeposits lib ch client dis as reg fromBlock (-1) = None"
    using word_order.extremum [of fromBlock] by (simp add: Scanner_ScanDeposits_def scanNativeTransfers_def not_less)
qed

theorem scan_returns_witness:
  "(\<exists>r. Scanner_ScanDeposits sample_lib ChainBase sample_client False [bob_address] (\<lambda>_. None) 1 2 = Some r) \<and>
   Scanner_ScanDeposits sample_lib ChainBase sample_client False [bob_address] (\<lambda>_. None) 1 (-1) = None"
  using scan_returns [of 2 sample_lib ChainBase sample_client False "[bob_address]" "\<lambda>_. None" 1]
  by (simp add: sample_client_def)

subsection \<open>The watcher on the chain scanner\<close>

text \<open>C32: the watcher invents nothing.  Every deposit a poll cycle adds pays a positive amount to
  an address of the platform, and the node reported that payment: as a transaction of its block, as
  a call that took effect in a transaction of its block, both within the range scanned, or as a
  transfer log of a registered token contract.\<close>

theorem no_phantom_deposit:
  assumes "TrackDeposits_Execute (evm_scanner lib ch client dis) ch w = (Inr r, w')" "ledger_ok (db w)"
  shows "\<exists>new sb fb reg. list_all2 (forward ch sb fb) (deposits (db w) @ new) (deposits (db w')) \<and>
    registry_map (filter (\<lambda>r. tk_chain r = ch) (token_registry (db w))) = Inr reg \<and>
    (\<forall>x\<in>set new. d_chain x = ch \<and> 0 < d_amount x \<and> d_address x \<in> da_address ` set (deposit_addresses (db w)) \<and>
      (er_scanned_from r \<le> d_block_number x \<and> d_block_number x \<le> er_scanned_to r \<and>
         (native_payment lib client x \<or> internal_payment lib client x) \<or>
       token_payment lib client (map da_address (deposit_addresses (db w))) reg (er_scanned_from r) (er_scanned_to r) x))"
  using assms(1)
proof (rule execute_cycle)
  let ?as = "map da_address (deposit_addresses (db w))"
  fix reg latest sb fb
  assume reg: "registry_map (filter (\<lambda>r. tk_chain r = ch) (token_registry (db w))) = Inr reg"
    and e: "effect (poll_cycle (evm_scanner lib ch client dis) ch ?as reg latest sb fb) (clock w) (db w) r (db w')"
  obtain new where new: "scanned_rows (evm_scanner lib ch client dis) ?as reg (er_scanned_from r) (er_scanned_to r) (clock w) new"
    "list_all2 (forward ch sb fb) (deposits (db w) @ new) (deposits (db w'))"
    using cycle_deposits [OF e assms(2)] by blast
  have "d_chain x = ch \<and> d_address x \<in> set ?as \<and> 0 < d_amount x \<and>
      (er_scanned_from r \<le> d_block_number x \<and> d_block_number x \<le> er_scanned_to r \<and>
         (native_payment lib client x \<or> internal_payment lib client x) \<or>
       token_payment lib client ?as reg (er_scanned_from r) (er_scanned_to r) x)" if x: "x \<in> set new" for x
  proof -
    obtain ts us y where y: "ScanDeposits (evm_scanner lib ch client dis) ?as reg (er_scanned_from r) (er_scanned_to r) =
        Inr (ts, us)" "y \<in> set ts" "recorded_from y x"
      using new(1) x unfolding scanned_rows_def by blast
    from y(1) show ?thesis
      by (rule evm_scan_InrD) (rule scan_sound [OF _ y(2,3)])
  qed
  with new(2) reg show ?thesis
    by (intro exI [of _ new] exI [of _ sb] exI [of _ fb] exI [of _ reg]) simp
qed

theorem no_phantom_deposit_witness:
  "\<exists>new sb fb. list_all2 (forward ChainBase sb fb) (deposits sample @ new)
     (deposits (db (snd (TrackDeposits_Execute (evm_scanner sample_lib ChainBase sample_client False)
       ChainBase (sample_world sample))))) \<and> (\<forall>x\<in>set new. d_chain x = ChainBase \<and> 0 < d_amount x)"
proof -
  obtain r where "TrackDeposits_Execute (evm_scanner sample_lib ChainBase sample_client False) ChainBase (sample_world sample) =
      (Inr r, snd (TrackDeposits_Execute (evm_scanner sample_lib ChainBase sample_client False) ChainBase (sample_world sample)))"
    using succeeded_pair [OF sample_chain_poll] by blast
  from no_phantom_deposit [OF this] show ?thesis
    using ledger_sample by (auto simp: sample_world_def)
qed

text \<open>C33: and it misses nothing.  After a poll cycle that scanned a range, every transaction of
  the range with a positive value to an address of the platform, every transfer log of a registered
  token to one, and, when the node can trace the range, every such internal transfer, is an active
  deposit under its own transaction hash and log index.\<close>

theorem no_missed_deposit:
  assumes "TrackDeposits_Execute (evm_scanner lib ch client dis) ch w = (Inr r, w')"
    and "er_scanned_from r \<noteq> 0" "er_scanned_from r \<le> er_scanned_to r"
  shows "\<exists>reg. registry_map (filter (\<lambda>r. tk_chain r = ch) (token_registry (db w))) = Inr reg \<and>
    (let as = map da_address (deposit_addresses (db w)); sf = er_scanned_from r; st = er_scanned_to r;
         keys = deposit_key ` set (active_deposits (db w'))
     in transactions_found lib ch client as sf st keys \<and>
        logs_found lib ch client as reg sf st keys \<and>
        (\<not> dis \<and> as \<noteq> [] \<and> (\<forall>m. sf \<le> m \<and> m \<le> st \<longrightarrow> \<not> isl (TraceBlockByNumber client m)) \<longrightarrow>
           internal_found lib ch client as sf st keys))"
  using assms(1)
proof (rule execute_cycle)
  let ?as = "map da_address (deposit_addresses (db w))" and ?sf = "er_scanned_from r" and ?st = "er_scanned_to r"
  let ?keys = "deposit_key ` set (active_deposits (db w'))"
  fix reg latest sb fb
  assume reg: "registry_map (filter (\<lambda>r. tk_chain r = ch) (token_registry (db w))) = Inr reg"
    and e: "effect (poll_cycle (evm_scanner lib ch client dis) ch ?as reg latest sb fb) (clock w) (db w) r (db w')"
  obtain ts us where ts: "ScanDeposits (evm_scanner lib ch client dis) ?as reg ?sf ?st = Inr (ts, us)"
    and k: "transfer_key ` set ts \<subseteq> ?keys"
    by (rule cycle_keys [OF e assms(2)])
  from ts obtain dis' where "Scanner_ScanDeposits lib ch client dis ?as reg ?sf ?st = Some (Inr (ts, us), dis')"
    by (rule evm_scan_InrD)
  from this assms(3) obtain native erc20 where n: "scan_blocks lib ch client ?as ?st ?sf dis [] = Some (Inr native, dis')"
    and t: "scanERC20Transfers lib ch client ?as reg ?sf ?st = Inr (erc20, us)" and "ts = native @ erc20"
    by (rule scan_parts)
  with k have kn: "transfer_key ` set native \<subseteq> ?keys" and ke: "transfer_key ` set erc20 \<subseteq> ?keys"
    by auto
  have "internal_found lib ch client ?as ?sf ?st ?keys" if "\<not> dis" "?as \<noteq> []"
    "\<forall>m. ?sf \<le> m \<and> m \<le> ?st \<longrightarrow> \<not> isl (TraceBlockByNumber client m)"
    by (rule internal_found_mono [OF internal_complete [OF _ that(2,3)] kn]) (use n that(1) in simp)
  with reg transactions_found_mono [OF transactions_complete [OF n] kn] logs_found_mono [OF logs_complete [OF t] ke]
  show ?thesis
    unfolding Let_def by blast
qed

lemma sample_chain_range: "case fst (TrackDeposits_Execute (evm_scanner sample_lib ChainBase sample_client False)
    ChainBase (sample_world sample)) of Inl e \<Rightarrow> False | Inr r \<Rightarrow> er_scanned_from r = 1 \<and> er_scanned_to r = 2"
  by code_simp

theorem no_missed_deposit_witness:
  "transactions_found sample_lib ChainBase sample_client (map da_address (deposit_addresses sample)) 1 2
     (deposit_key ` set (active_deposits (db (snd (TrackDeposits_Execute
       (evm_scanner sample_lib ChainBase sample_client False) ChainBase (sample_world sample))))))"
proof -
  obtain r where r: "TrackDeposits_Execute (evm_scanner sample_lib ChainBase sample_client False) ChainBase (sample_world sample) =
      (Inr r, snd (TrackDeposits_Execute (evm_scanner sample_lib ChainBase sample_client False) ChainBase (sample_world sample)))"
    using succeeded_pair [OF sample_chain_poll] by blast
  from r have "fst (TrackDeposits_Execute (evm_scanner sample_lib ChainBase sample_client False) ChainBase (sample_world sample)) = Inr r"
    by (metis fst_conv)
  from sample_chain_range [unfolded this] have rng: "er_scanned_from r = 1" "er_scanned_to r = 2"
    by simp_all
  then have "er_scanned_from r \<noteq> 0" "er_scanned_from r \<le> er_scanned_to r"
    by simp_all
  note found = no_missed_deposit [OF r this]
  have "db (sample_world sample) = sample"
    by (simp add: sample_world_def)
  then show ?thesis
    using found unfolding Let_def rng by (elim exE conjE) simp
qed

end
