(* ===== verification/Http.thy ===== *)
theory Http
  imports Ledger
begin

unbundle bit_operations_syntax

text \<open>
  The HTTP front of the api process, before any endpoint: \<^verbatim>\<open>api/problem.go\<close>,
  \<^verbatim>\<open>api/middleware_auth.go\<close>, \<^verbatim>\<open>api/middleware_idempotency.go\<close> and
  \<^verbatim>\<open>postgres/idempotency_store.go\<close>.

  A handler is a computation from a request and a response writer to the writer after it; a panic
  is an error value.  A request carries the segments \<^verbatim>\<open>ServeMux\<close> matched and the query values
  \<^verbatim>\<open>URL.Query\<close> returned.  The record \<open>http_lib\<close> holds what stays a parameter: SHA-256, the JSON
  codec, the texts of errors, \<^verbatim>\<open>github.com/google/uuid\<close>, the parameter binding of
  \<^verbatim>\<open>github.com/oapi-codegen/runtime\<close>, and the answer of \<^verbatim>\<open>ServeMux\<close> to a request no route
  matches; nothing is assumed of them except where a theorem says so.  Other requests that commit between the lookup of a key and the transaction
  are the parameter \<open>rival\<close> of the middleware.
\<close>

subsection \<open>Requests and responses\<close>

datatype request_body = Body string | BrokenBody

record http_request =
  rq_method :: string
  rq_path :: string
  rq_segments :: "string list"
  rq_query :: "string \<Rightarrow> string list"
  rq_authorization :: string
  rq_idempotency_keys :: "string list"
  rq_body :: request_body

text \<open>\<^verbatim>\<open>r.Header.Get("Idempotency-Key")\<close>: the first value, or the empty string.\<close>

definition idempotency_key :: "http_request \<Rightarrow> string" where
  "idempotency_key req = (case rq_idempotency_keys req of [] \<Rightarrow> [] | k # _ \<Rightarrow> k)"

datatype jval = JStr string | JNum int | JTime time | JList "jval list" | JObj "(string \<times> jval) list"

text \<open>Request bodies as \<^verbatim>\<open>encoding/json\<close> decodes them into the structs of \<^verbatim>\<open>server.gen.go\<close>; an
  identifier is the canonical text of the decoded UUID.\<close>

record transfer_body =
  tb_source :: string
  tb_destination :: string
  tb_chain :: string
  tb_asset :: string
  tb_amount :: string

record withdrawal_body =
  wb_customer_id :: string
  wb_chain :: string
  wb_asset :: string
  wb_amount :: string
  wb_destination_address :: string

record approve_body =
  ap_actor :: string
  ap_reason :: string

text \<open>\<^verbatim>\<open>responseRecorder\<close>, and \<^verbatim>\<open>http.ResponseWriter\<close> as far as the handlers use it.\<close>

record recorder =
  rc_content_type :: string
  rc_status :: int
  rc_body :: string
  rc_wroteHeader :: bool

text \<open>How binding a query parameter fails: the value is required and missing, or it is malformed.\<close>

datatype bind_error = MissingParam | BadParam string

record http_lib =
  sha256 :: "string \<Rightarrow> byte list"
  json_encode :: "jval \<Rightarrow> string"
  error_text :: "error \<Rightarrow> string"
  uuid_parse :: "string \<Rightarrow> byte list option"
  uuid_text :: "byte list \<Rightarrow> string"
  decode_transfer :: "string \<Rightarrow> transfer_body option"
  decode_withdrawal :: "string \<Rightarrow> withdrawal_body option"
  decode_approve :: "string \<Rightarrow> approve_body option"
  bind_header :: "string \<Rightarrow> string + string"
  bind_path_uuid :: "string \<Rightarrow> string + string"
  bind_query :: "bool \<Rightarrow> string list \<Rightarrow> bind_error + string option"
  bind_query_int :: "string list \<Rightarrow> bind_error + int option"
  not_routed :: "http_request \<Rightarrow> recorder \<Rightarrow> recorder"

type_synonym handler = "http_request \<Rightarrow> recorder \<Rightarrow> recorder db_m"

definition newResponseRecorder :: recorder where
  "newResponseRecorder =
     \<lparr>rc_content_type = [], rc_status = 0, rc_body = [], rc_wroteHeader = False\<rparr>"

definition SetContentType :: "string \<Rightarrow> recorder \<Rightarrow> recorder" where
  "SetContentType ct r = r\<lparr>rc_content_type := ct\<rparr>"

definition WriteHeader :: "int \<Rightarrow> recorder \<Rightarrow> recorder" where
  "WriteHeader status r =
     (if rc_wroteHeader r then r else r\<lparr>rc_status := status, rc_wroteHeader := True\<rparr>)"

definition Write :: "string \<Rightarrow> recorder \<Rightarrow> recorder" where
  "Write b r =
     (let r' = (if rc_wroteHeader r then r else WriteHeader 200 r) in r'\<lparr>rc_body := rc_body r' @ b\<rparr>)"

definition result_of :: "recorder \<Rightarrow> stored_response" where
  "result_of r =
     \<lparr>sr_status = (if rc_wroteHeader r then rc_status r else 200), sr_body = rc_body r,
      sr_content_type = rc_content_type r\<rparr>"

definition problemTypeBase :: string where
  "problemTypeBase = ''https://digital-asset-wallet-platform.dev/problems/''"

definition WriteProblem ::
    "http_lib \<Rightarrow> int \<Rightarrow> string \<Rightarrow> string \<Rightarrow> string \<Rightarrow> recorder \<Rightarrow> recorder" where
  "WriteProblem lib status title detail inst r =
     Write (json_encode lib (JObj [(''detail'', JStr detail), (''instance'', JStr inst),
         (''status'', JNum status), (''title'', JStr title), (''type'', JStr (problemTypeBase @ title))]))
       (WriteHeader status (SetContentType ''application/problem+json'' r))"

definition replay :: "stored_response \<Rightarrow> recorder \<Rightarrow> recorder" where
  "replay resp r =
     Write (sr_body resp) (WriteHeader (sr_status resp)
       (if sr_content_type resp \<noteq> [] then SetContentType (sr_content_type resp) r else r))"

subsection \<open>Authentication\<close>

definition bearerToken :: "string \<Rightarrow> string option" where
  "bearerToken header =
     (if take (length ''Bearer '') header \<noteq> ''Bearer '' then None
      else let token = trim_prefix ''Bearer '' header in if token = [] then None else Some token)"

definition ConstantTimeCompare :: "string \<Rightarrow> string \<Rightarrow> 64 word" where
  "ConstantTimeCompare x y =
     (if length x \<noteq> length y then 0
      else if foldl (\<lambda>v (a, b). v OR (of_char a XOR of_char b)) (0 :: byte) (zip x y) = 0 then 1 else 0)"

definition tokenIsValid :: "string list \<Rightarrow> string \<Rightarrow> bool" where
  "tokenIsValid tokens presented =
     (foldl (\<lambda>match t. match OR ConstantTimeCompare t presented) 0 tokens = 1)"

definition AuthMiddleware :: "http_lib \<Rightarrow> string list \<Rightarrow> handler \<Rightarrow> handler" where
  "AuthMiddleware lib validTokens next_handler req r =
     (case bearerToken (rq_authorization req) of
        Some token \<Rightarrow>
          if tokenIsValid validTokens token then next_handler req r
          else ret (WriteProblem lib 401 ''unauthorized'' ''a valid bearer token is required'' (rq_path req) r)
      | None \<Rightarrow>
          ret (WriteProblem lib 401 ''unauthorized'' ''a valid bearer token is required'' (rq_path req) r))"

subsection \<open>The idempotency store\<close>

definition Lookup :: "string \<Rightarrow> stored_entry option db_m" where
  "Lookup key = query (\<lambda>d. map_of (idempotency_keys d) key)"

definition Insert :: "string \<Rightarrow> byte list \<Rightarrow> stored_response \<Rightarrow> unit db_m" where
  "Insert key requestHash resp =
     map_error (dup_as ErrKeyConflict)
       (stmt (insert_idempotency_key key \<lparr>se_request_hash = requestHash, se_response = resp\<rparr>))"

subsection \<open>The idempotency middleware\<close>

definition maxRequestBodyBytes :: int where
  "maxRequestBodyBytes = 1048576"

definition isMutatingMethod :: "string \<Rightarrow> bool" where
  "isMutatingMethod meth \<longleftrightarrow>
     meth = ''POST'' \<or> meth = ''PUT'' \<or> meth = ''PATCH'' \<or> meth = ''DELETE''"

definition requestHash :: "http_lib \<Rightarrow> string \<Rightarrow> string \<Rightarrow> string \<Rightarrow> byte list" where
  "requestHash lib meth path body =
     sha256 lib (meth @ [CHR 0x0A] @ path @ [CHR 0x0A] @ body)"

definition replayOrConflict ::
    "http_lib \<Rightarrow> http_request \<Rightarrow> stored_entry \<Rightarrow> byte list \<Rightarrow> recorder \<Rightarrow> recorder" where
  "replayOrConflict lib req entry hash r =
     (if se_request_hash entry \<noteq> hash
      then WriteProblem lib 409 ''idempotency-key-reused''
        ''this Idempotency-Key was already used with a different request body'' (rq_path req) r
      else replay (se_response entry) r)"

text \<open>From the begin of the transaction on: run the handler in it, then commit or roll back.\<close>

definition run_in_transaction ::
    "http_lib \<Rightarrow> handler \<Rightarrow> byte list \<Rightarrow> http_request \<Rightarrow> recorder \<Rightarrow> recorder db_m" where
  "run_in_transaction lib next_handler hash req r = (\<lambda>w.
     let problem = (\<lambda>title detail. WriteProblem lib 500 title detail (rq_path req) r);
         key = idempotency_key req in
     (case next_outcome w of (begun, w1) \<Rightarrow>
       if begun \<noteq> Ok then (Inr (problem ''transaction-begin-failed'' (error_text lib ErrConnection)), w1)
       else (case next_handler req newResponseRecorder w1 of
           (Inl panic, w2) \<Rightarrow> (Inl panic, w2\<lparr>db := db w\<rparr>)
         | (Inr rec, w2) \<Rightarrow>
             let captured = result_of rec; rolled_back = w2\<lparr>db := db w\<rparr> in
             if \<not> rc_wroteHeader rec
             then (Inr (problem ''empty-handler-response'' ''the handler produced no response''), rolled_back)
             else if sr_status captured < 200 \<or> sr_status captured \<ge> 300
             then (Inr (replay captured r), rolled_back)
             else (case Insert key hash captured w2 of
                 (Inl insertErr, w3) \<Rightarrow>
                   if insertErr = ErrKeyConflict then
                     (case Lookup key (w3\<lparr>db := db w\<rparr>) of
                        (Inr (Some entry), w4) \<Rightarrow> (Inr (replayOrConflict lib req entry hash r), w4)
                      | (_, w4) \<Rightarrow> (Inr (problem ''idempotency-conflict-unresolved''
                          ''a concurrent request won the race but its result could not be read back''), w4))
                   else (Inr (problem ''idempotency-insert-failed'' (error_text lib insertErr)),
                         w3\<lparr>db := db w\<rparr>)
               | (Inr _, w3) \<Rightarrow>
                   (case next_outcome w3 of
                      (Ok, w4) \<Rightarrow> (Inr (replay captured r), w4)
                    | (Lost, w4) \<Rightarrow> (Inr (problem ''transaction-commit-failed''
                        (error_text lib ErrConnection)), w4\<lparr>db := db w\<rparr>)
                    | (Late, w4) \<Rightarrow> (Inr (problem ''transaction-commit-failed''
                        (error_text lib ErrConnection)), w4))))))"

definition IdempotencyMiddleware ::
    "http_lib \<Rightarrow> (database \<Rightarrow> database) \<Rightarrow> handler \<Rightarrow> handler" where
  "IdempotencyMiddleware lib rival next_handler req r =
     (let problem = (\<lambda>status title detail. ret (WriteProblem lib status title detail (rq_path req) r));
          key = idempotency_key req in
      if \<not> isMutatingMethod (rq_method req) then next_handler req r
      else if key = []
      then problem 400 ''missing-idempotency-key'' ''Idempotency-Key header is required''
      else (case rq_body req of
          BrokenBody \<Rightarrow> problem 400 ''unreadable-body'' ''request body could not be read''
        | Body body \<Rightarrow>
            if int (length body) > maxRequestBodyBytes
            then problem 413 ''request-body-too-large'' ''request body exceeds the maximum allowed size''
            else
              let hash = requestHash lib (rq_method req) (rq_path req) body in
              (\<lambda>w. case Lookup key w of
                 (Inl e, w1) \<Rightarrow> problem 500 ''idempotency-lookup-failed'' (error_text lib e) w1
               | (Inr (Some entry), w1) \<Rightarrow> (Inr (replayOrConflict lib req entry hash r), w1)
               | (Inr None, w1) \<Rightarrow>
                   run_in_transaction lib next_handler hash req r (w1\<lparr>db := rival (db w1)\<rparr>))))"

subsection \<open>Response writers\<close>

lemma status_WriteProblem [simp]:
  "\<not> rc_wroteHeader r \<Longrightarrow> rc_status (WriteProblem lib s title detail inst r) = s"
  "rc_wroteHeader (WriteProblem lib s title detail inst r)"
  by (simp_all add: WriteProblem_def Write_def WriteHeader_def SetContentType_def Let_def)

lemma status_replay [simp]:
  "\<not> rc_wroteHeader r \<Longrightarrow> rc_status (replay resp r) = sr_status resp"
  "rc_wroteHeader (replay resp r)"
  by (simp_all add: replay_def Write_def WriteHeader_def SetContentType_def Let_def)

lemma fresh_writer [simp]: "\<not> rc_wroteHeader newResponseRecorder"
  by (simp add: newResponseRecorder_def)

text \<open>A response goes to the client byte for byte as it was captured.\<close>

lemma result_replay: "result_of (replay resp newResponseRecorder) = resp"
  by (simp add: replay_def result_of_def Write_def WriteHeader_def SetContentType_def Let_def
      newResponseRecorder_def)

subsection \<open>The token check\<close>

lemma unat_byte_of_char: "unat (of_char c :: byte) = of_char c"
proof -
  have "unat (of_nat (of_char c) :: byte) = of_char c"
    by (simp add: unat_of_nat)
  then show ?thesis
    by (simp add: of_nat_of_char)
qed

lemma xor_of_char: "(of_char a XOR of_char b :: byte) = 0 \<longleftrightarrow> a = b"
proof
  assume "(of_char a XOR of_char b :: byte) = 0"
  then have "(of_char a :: byte) = of_char b"
    by (metis xor.right_neutral xor_self_eq xor.assoc)
  then have "(of_char a :: nat) = of_char b"
    by (metis unat_byte_of_char)
  then show "a = b" by simp
qed simp

lemma compare_fold:
  "foldl (\<lambda>v (a, b). v OR (of_char a XOR of_char b)) (v0 :: byte) ps = 0 \<longleftrightarrow>
     v0 = 0 \<and> (\<forall>(a, b)\<in>set ps. a = (b :: char))"
proof (induction ps arbitrary: v0)
  case (Cons p ps)
  show ?case
    using Cons.IH [of "v0 OR (of_char (fst p) XOR of_char (snd p))"]
    by (cases p) (auto simp: xor_of_char or_eq_0_iff)
qed simp

lemma compare_equal: "ConstantTimeCompare s t = (if s = t then 1 else 0)"
proof -
  have "(\<forall>(a, b)\<in>set (zip s t). a = b) \<longleftrightarrow> s = t" if "length s = length t"
    using that by (induction rule: list_induct2) auto
  then show ?thesis
    using compare_fold [of 0 "zip s t"] by (auto simp: ConstantTimeCompare_def)
qed

lemma tokens_fold:
  "foldl (\<lambda>match t. match OR ConstantTimeCompare t p) (if b then 1 else 0) tokens =
     (if b \<or> p \<in> set tokens then 1 else 0)"
proof (induction tokens arbitrary: b)
  case (Cons t ts)
  have "(if b then 1 else 0 :: 64 word) OR ConstantTimeCompare t p = (if b \<or> t = p then 1 else 0)"
    by (simp add: compare_equal)
  then show ?case
    using Cons.IH [of "b \<or> t = p"] by auto
qed simp

lemma tokenIsValid_member: "tokenIsValid tokens p \<longleftrightarrow> p \<in> set tokens"
  using tokens_fold [of p False tokens] by (auto simp: tokenIsValid_def)

lemma bearerToken_Some: "bearerToken h = Some t \<longleftrightarrow> t \<noteq> [] \<and> h = ''Bearer '' @ t"
proof -
  obtain p where p: "p = ''Bearer ''"
    by simp
  have "take (length p) h = p \<Longrightarrow> h = p @ drop (length p) h"
    by (metis append_take_drop_id)
  then show ?thesis
    unfolding bearerToken_def trim_prefix_def p [symmetric] by (auto simp: Let_def)
qed

subsection \<open>Inversion of the store\<close>

lemma quiet_Lookup [simp]: "quiet (Lookup k)"
  by (simp add: Lookup_def)

lemma quiet_Insert [simp]: "quiet (Insert k h resp)"
  by (simp add: Insert_def)

lemma stored_once: "insert_idempotency_key k e d = Inr ((), d') \<longleftrightarrow>
    k \<notin> fst ` set (idempotency_keys d) \<and> d' = d\<lparr>idempotency_keys := idempotency_keys d @ [(k, e)]\<rparr>"
  by (auto simp: insert_idempotency_key_def m_success)

lemma effect_Insert [m_success]:
  "effect (Insert k h resp) t d u d' \<longleftrightarrow> k \<notin> fst ` set (idempotency_keys d) \<and>
     d' = d\<lparr>idempotency_keys := idempotency_keys d @
       [(k, \<lparr>se_request_hash = h, se_response = resp\<rparr>)]\<rparr>"
  by (simp add: Insert_def m_success stored_once)

lemma Lookup_world:
  assumes "Lookup k w = (x, w')"
  shows "db w' = db w" "clock w' = clock w" "wire w' = wire w"
    "x = Inr y \<Longrightarrow> y = map_of (idempotency_keys (db w)) k"
  using assms by (auto simp: Lookup_def query_def stmt_def split: prod.splits if_splits
      dest!: next_outcome_world)

subsection \<open>What a request leaves behind\<close>

text \<open>A committed request: the effect of its handler, which answered with success, and the row that
  remembers the answer, in one transaction.\<close>

definition committed ::
    "handler \<Rightarrow> byte list \<Rightarrow> http_request \<Rightarrow> time \<Rightarrow> database \<Rightarrow> recorder \<Rightarrow> database \<Rightarrow> bool" where
  "committed h hash req t d rec d' \<longleftrightarrow>
     (\<exists>d1. effect (h req newResponseRecorder) t d rec d1 \<and> rc_wroteHeader rec \<and>
        200 \<le> rc_status rec \<and> rc_status rec < 300 \<and>
        idempotency_key req \<notin> fst ` set (idempotency_keys d1) \<and>
        d' = d1\<lparr>idempotency_keys := idempotency_keys d1 @ [(idempotency_key req,
          \<lparr>se_request_hash = hash, se_response = result_of rec\<rparr>)]\<rparr>)"

lemma run_in_transaction_db:
  assumes "run_in_transaction lib h hash req r w = (res, w')" "\<And>rec. quiet (h req rec)"
  shows "db w' = db w \<or> (\<exists>rec. committed h hash req (clock w) (db w) rec (db w'))"
proof -
  obtain o1 w1 where o1: "next_outcome w = (o1, w1)"
    by fastforce
  note w1 = next_outcome_world [OF o1]
  obtain x w2 where x: "h req newResponseRecorder w1 = (x, w2)"
    by fastforce
  show ?thesis
  proof (cases x)
    case (Inr rec)
    obtain y w3 where y: "Insert (idempotency_key req) hash (result_of rec) w2 = (y, w3)"
      by fastforce
    obtain o4 w4 where o4: "next_outcome w3 = (o4, w4)"
      by fastforce
    have c: "committed h hash req (clock w) (db w) rec (db w3)"
      if "y = Inr u" "rc_wroteHeader rec" "\<not> rc_status rec < 200" "\<not> 300 \<le> rc_status rec" for u
    proof -
      have "effect (h req newResponseRecorder) (clock w1) (db w1) rec (db w2)"
        using x [unfolded Inr] by (rule effectI)
      then have "effect (h req newResponseRecorder) (clock w) (db w) rec (db w2)"
        using w1 by simp
      moreover have "effect (Insert (idempotency_key req) hash (result_of rec)) (clock w2) (db w2) u (db w3)"
        using y [unfolded that(1)] by (rule effectI)
      ultimately show ?thesis
        unfolding committed_def effect_Insert using that(2-4) by (intro exI [of _ "db w2"]) auto
    qed
    show ?thesis
      using assms(1) o1 w1 x Inr y o4 c next_outcome_world [OF o4]
      by (auto simp: run_in_transaction_def Let_def result_of_def
          split: if_splits sum.splits prod.splits option.splits outcome.splits dest!: Lookup_world(1))
  qed (use assms(1) o1 x w1 in \<open>auto simp: run_in_transaction_def Let_def split: if_splits\<close>)
qed

text \<open>The whole middleware around a mutating handler: whatever fails, the database is as before, or
  as the rival left it, or has gained exactly one committed request.\<close>

lemma idempotency_db:
  assumes "IdempotencyMiddleware lib rival h req r w = (res, w')" "isMutatingMethod (rq_method req)"
    and "\<And>rec. quiet (h req rec)"
  shows "db w' = db w \<or> db w' = rival (db w) \<or>
    (\<exists>body rec. rq_body req = Body body \<and> idempotency_key req \<noteq> [] \<and>
       map_of (idempotency_keys (db w)) (idempotency_key req) = None \<and>
       committed h (requestHash lib (rq_method req) (rq_path req) body) req (clock w) (rival (db w)) rec (db w'))"
proof -
  obtain x w1 where x: "Lookup (idempotency_key req) w = (x, w1)"
    by fastforce
  note w1 = Lookup_world [OF x]
  show ?thesis
  proof (cases "idempotency_key req = [] \<or> rq_body req = BrokenBody \<or> w' = w \<or> w' = w1")
    case False
    then obtain body where b: "rq_body req = Body body"
      by (cases "rq_body req") auto
    with False assms(1,2) x have "x = Inr None"
      "run_in_transaction lib h (requestHash lib (rq_method req) (rq_path req) body) req r
         (w1\<lparr>db := rival (db w1)\<rparr>) = (res, w')"
      by (auto simp: IdempotencyMiddleware_def Let_def split: if_splits sum.splits option.splits)
    from run_in_transaction_db [OF this(2) assms(3)] this(1) show ?thesis
      using b w1 False by auto
  qed (use assms(1,2) w1(1) in \<open>auto simp: IdempotencyMiddleware_def Let_def split: request_body.splits if_splits\<close>)
qed

lemma quiet_run_in_transaction:
  assumes "\<And>rec. quiet (h req rec)"
  shows "quiet (run_in_transaction lib h hash req r)"
  using assms quiet_Insert quiet_Lookup
  by (auto simp: quiet_def run_in_transaction_def Let_def split_beta
      split: sum.splits option.splits outcome.splits)

lemma quiet_idempotency:
  assumes "\<And>rec. quiet (h req rec)" "IdempotencyMiddleware lib rival h req r w = (res, w')"
  shows "clock w' = clock w" "wire w' = wire w"
proof -
  obtain x w1 where x: "Lookup (idempotency_key req) w = (x, w1)"
    by fastforce
  have q: "quiet (run_in_transaction lib h hash req r)" for hash
    by (rule quiet_run_in_transaction) (rule assms(1))
  have "clock w' = clock w \<and> wire w' = wire w"
    using assms x Lookup_world(2,3) [OF x] quietD [OF q] quietD [where c = "h req r"]
    by (fastforce simp: IdempotencyMiddleware_def Let_def
        split: request_body.splits if_splits sum.splits option.splits)
  then show "clock w' = clock w" "wire w' = wire w" by auto
qed

text \<open>A request whose key is stored runs nothing.\<close>

lemma idempotency_stored:
  assumes "isMutatingMethod (rq_method req)" "rq_body req = Body body" "int (length body) \<le> maxRequestBodyBytes"
    and "idempotency_key req \<noteq> []" "next_outcome w = (Ok, w0)"
    and "map_of (idempotency_keys (db w)) (idempotency_key req) = Some e"
  shows "IdempotencyMiddleware lib rival h req r w =
    (Inr (replayOrConflict lib req e (requestHash lib (rq_method req) (rq_path req) body) r), w0)"
  using assms next_outcome_world [OF assms(5)]
  by (simp add: IdempotencyMiddleware_def Lookup_def query_def stmt_def Let_def)

end
