(* ===== verification/Customers.thy ===== *)
theory Customers
  imports Samples
begin

text \<open>
  Customers: \<^verbatim>\<open>core/create_customer.go\<close> with \<^verbatim>\<open>postgres/customer_repo.go\<close>, and the readers
  \<^verbatim>\<open>postgres/customer_reader.go\<close> and \<^verbatim>\<open>postgres/balance_repo.go\<close> behind \<^verbatim>\<open>core/get_customer.go\<close> and
  \<^verbatim>\<open>core/get_customer_balances.go\<close>.

  The parameters \<open>uuid_parse\<close> (\<^verbatim>\<open>github.com/google/uuid\<close>) and \<open>derive\<close> (the port
  \<^verbatim>\<open>DepositAddressDeriver\<close>, CREATE2 of go-ethereum) stand for code outside the repository.
\<close>

subsection \<open>Provisioning\<close>

definition account_row_of :: "account \<Rightarrow> account_row" where
  "account_row_of a =
     \<lparr>a_id = acc_id a, a_customer_id = Some (acc_customer_id a), a_chain = acc_chain a,
      a_asset = acc_asset a, a_type = acc_type a, a_created_at = acc_created_at a\<rparr>"

definition CreateCustomer :: "customer \<Rightarrow> account list \<Rightarrow> address \<Rightarrow> unit db_m" where
  "CreateCustomer customer accs depositAddress =
     bindm (stmt (insert_customer \<lparr>c_id = cu_id customer, c_created_at = cu_created_at customer\<rparr>)) (\<lambda>_.
     bindm (for_each (\<lambda>a. stmt (insert_account (account_row_of a))) accs) (\<lambda>_.
     bindm (stmt (insert_deposit_address
       \<lparr>da_customer_id = cu_id customer, da_address = depositAddress,
        da_created_at = cu_created_at customer\<rparr>)) (\<lambda>_.
     query (\<lambda>_. ()))))"

definition accountTypes :: "account_type list" where
  "accountTypes = [AccountTypeAvailable, AccountTypeHold]"

definition provisioned :: "(chain \<times> asset \<times> account_type) list" where
  "provisioned = concat (map (\<lambda>(ch, a). map (\<lambda>ty. (ch, a, ty)) accountTypes) SupportedChainAssetPairs)"

definition new_account :: "uuid \<Rightarrow> time \<Rightarrow> chain \<times> asset \<times> account_type \<Rightarrow> account db_m" where
  "new_account customerID now k =
     (case k of (ch, a, ty) \<Rightarrow>
       bindm newUUIDv7 (\<lambda>accountID.
       ret \<lparr>acc_id = accountID, acc_customer_id = customerID, acc_chain = ch, acc_asset = a,
            acc_type = ty, acc_created_at = now\<rparr>))"

definition CreateCustomer_Execute ::
    "(string \<Rightarrow> byte list option) \<Rightarrow> (byte list \<Rightarrow> error + address) \<Rightarrow> customer db_m" where
  "CreateCustomer_Execute uuid_parse derive =
     bindm time_now (\<lambda>now.
     bindm newUUIDv7 (\<lambda>customerID.
     bindm (lift_result (customerSalt uuid_parse customerID)) (\<lambda>salt.
     bindm (lift_result (derive salt)) (\<lambda>depositAddress.
     bindm (mapm (new_account customerID now) provisioned) (\<lambda>accs.
     bindm (CreateCustomer
       \<lparr>cu_id = customerID, cu_created_at = now, cu_deposit_address = depositAddress\<rparr>
       accs depositAddress) (\<lambda>_.
     ret \<lparr>cu_id = customerID, cu_created_at = now, cu_deposit_address = depositAddress\<rparr>))))))"

subsection \<open>Readers\<close>

definition GetCustomer :: "uuid \<Rightarrow> customer db_m" where
  "GetCustomer customerID =
     bindm (query (\<lambda>d.
       [(c, a). c \<leftarrow> customers d, a \<leftarrow> deposit_addresses d,
                da_customer_id a = c_id c \<and> c_id c = customerID])) (\<lambda>rows.
     (case rows of
        [] \<Rightarrow> raise ErrCustomerNotFound
      | (c, a) # _ \<Rightarrow>
          ret \<lparr>cu_id = c_id c, cu_created_at = c_created_at c, cu_deposit_address = da_address a\<rparr>))"

text \<open>\<^verbatim>\<open>GROUP BY a.chain, a.asset ORDER BY a.chain, a.asset\<close> over the left join with the postings.\<close>

definition available_accounts :: "database \<Rightarrow> uuid \<Rightarrow> account_row list" where
  "available_accounts d customerID =
     filter (\<lambda>r. a_customer_id r = Some customerID \<and> a_type r = AccountTypeAvailable) (accounts d)"

definition CustomerBalances :: "uuid \<Rightarrow> account_balance list db_m" where
  "CustomerBalances customerID =
     bindm (query (\<lambda>d. customerID \<in> c_id ` set (customers d))) (\<lambda>exists.
     if \<not> exists then raise ErrCustomerNotFound else
     query (\<lambda>d.
       let rows = available_accounts d customerID in
       map (\<lambda>(ch, a). \<lparr>ab_chain = ch, ab_asset = a,
              ab_balance = total_of (\<lambda>r. a_chain r = ch \<and> a_asset r = a)
                             (\<lambda>r. balance d (a_id r)) rows\<rparr>)
         (sort (remdups (map (\<lambda>r. (a_chain r, a_asset r)) rows)))))"

subsection \<open>Effects\<close>

lemma quiet_CreateCustomer [simp]: "quiet (CreateCustomer c as x)"
  by (simp add: CreateCustomer_def)

lemma quiet_new_account [simp]: "quiet (new_account c t k)"
  by (simp add: new_account_def split: prod.split)

lemma quiet_CreateCustomer_Execute [simp]: "quiet (CreateCustomer_Execute up de)"
  by (simp add: CreateCustomer_Execute_def)

lemma effect_for_each_insert_account:
  assumes "effect (for_each (\<lambda>a. stmt (insert_account (account_row_of a))) accs) t d u d'"
  shows "d' = d\<lparr>accounts := accounts d @ map account_row_of accs\<rparr> \<and>
    distinct (map acc_id accs) \<and> set (map acc_id accs) \<inter> a_id ` set (accounts d) = {} \<and>
    (schema_ok d \<longrightarrow> schema_ok d')"
  using assms
proof (induction accs arbitrary: d)
  case (Cons a as)
  then obtain d1 where d1: "insert_account (account_row_of a) d = Inr ((), d1)"
    "effect (for_each (\<lambda>a. stmt (insert_account (account_row_of a))) as) t d1 u d'"
    by (auto simp: m_success elim!: effect_bindmE)
  moreover from d1(1) have "d1 = d\<lparr>accounts := accounts d @ [account_row_of a]\<rparr>"
    "acc_id a \<notin> a_id ` set (accounts d)" "schema_ok d \<Longrightarrow> schema_ok d1"
    using schema_insert_account by (auto simp: insert_account_def m_success account_row_of_def)
  ultimately show ?case
    using Cons.IH [OF d1(2)] by (auto simp: account_row_of_def)
qed (simp add: m_success)

lemma effect_new_account [m_success]:
  "effect (new_account c now (ch, a, ty)) t d x d' \<longleftrightarrow>
     d' = d \<and> (\<exists>i. x = \<lparr>acc_id = i, acc_customer_id = c, acc_chain = ch, acc_asset = a,
                       acc_type = ty, acc_created_at = now\<rparr>)"
proof
  assume "d' = d \<and> (\<exists>i. x = \<lparr>acc_id = i, acc_customer_id = c, acc_chain = ch, acc_asset = a,
                       acc_type = ty, acc_created_at = now\<rparr>)"
  then obtain i where x: "d' = d" "x = \<lparr>acc_id = i, acc_customer_id = c, acc_chain = ch, acc_asset = a,
                       acc_type = ty, acc_created_at = now\<rparr>"
    by blast
  have "new_account c now (ch, a, ty) \<lparr>db = d, uuids = [i], clock = t, outcomes = [], wire = []\<rparr> =
      (Inr x, \<lparr>db = d, uuids = [], clock = t, outcomes = [], wire = []\<rparr>)"
    by (simp add: new_account_def x bindm_def newUUIDv7_def)
  then show "effect (new_account c now (ch, a, ty)) t d x d'"
    using effectI [of "new_account c now (ch, a, ty)"
        "\<lparr>db = d, uuids = [i], clock = t, outcomes = [], wire = []\<rparr>" x]
    by (simp add: x)
qed (auto simp: new_account_def m_success elim!: effect_bindmE)

lemma effect_mapm_new_account:
  assumes "effect (mapm (new_account c now) ks) t d accs d'"
  shows "d' = d \<and>
    map account_key (map account_row_of accs) = map (\<lambda>(ch, a, ty). (Some c, ch, a, ty)) ks"
  using assms
proof (induction ks arbitrary: accs)
  case (Cons k ks)
  then obtain y ys where "accs = y # ys" "effect (new_account c now k) t d y d"
    "effect (mapm (new_account c now) ks) t d ys d'"
    by (cases k) (auto simp: m_success elim!: effect_bindmE)
  with Cons.IH [of ys] show ?case
    by (cases k) (auto simp: m_success account_key_def account_row_of_def)
qed (simp add: m_success)

lemma effect_CreateCustomer_ExecuteE:
  assumes "effect (CreateCustomer_Execute up de) t d cu d'"
  obtains salt accs where
    "cu = \<lparr>cu_id = cu_id cu, cu_created_at = t, cu_deposit_address = cu_deposit_address cu\<rparr>"
    "customerSalt up (cu_id cu) = Inr salt" "de salt = Inr (cu_deposit_address cu)"
    "map account_key accs = map (\<lambda>(ch, a, ty). (Some (cu_id cu), ch, a, ty)) provisioned"
    "cu_id cu \<notin> c_id ` set (customers d)"
    "distinct (map a_id accs)" "set (map a_id accs) \<inter> a_id ` set (accounts d) = {}"
    "d' = d\<lparr>customers := customers d @ [\<lparr>c_id = cu_id cu, c_created_at = t\<rparr>],
            accounts := accounts d @ accs,
            deposit_addresses := deposit_addresses d @
              [\<lparr>da_customer_id = cu_id cu, da_address = cu_deposit_address cu, da_created_at = t\<rparr>]\<rparr>"
    "schema_ok d \<longrightarrow> schema_ok d'"
proof -
  from assms obtain salt accs d0 where
    e: "cu = \<lparr>cu_id = cu_id cu, cu_created_at = t, cu_deposit_address = cu_deposit_address cu\<rparr>"
    "customerSalt up (cu_id cu) = Inr salt" "de salt = Inr (cu_deposit_address cu)"
    and m: "effect (mapm (new_account (cu_id cu) t) provisioned) t d accs d0"
    and c0: "effect (CreateCustomer cu accs (cu_deposit_address cu)) t d0 () d'"
    by (auto simp: CreateCustomer_Execute_def m_success elim!: effect_bindmE)
  have c: "effect (CreateCustomer cu accs (cu_deposit_address cu)) t d () d'"
    using c0 effect_mapm_new_account [OF m] by simp
  from c obtain d1 d2 where
    1: "insert_customer \<lparr>c_id = cu_id cu, c_created_at = cu_created_at cu\<rparr> d = Inr ((), d1)" and
    2: "effect (for_each (\<lambda>a. stmt (insert_account (account_row_of a))) accs) t d1 () d2" and
    3: "insert_deposit_address \<lparr>da_customer_id = cu_id cu, da_address = cu_deposit_address cu,
        da_created_at = cu_created_at cu\<rparr> d2 = Inr ((), d')"
    by (auto simp: CreateCustomer_def m_success elim!: effect_bindmE)
  have t: "cu_created_at cu = t"
    using e(1) by (metis customer.select_convs(2))
  show thesis
  proof (rule that [of salt "map account_row_of accs"])
    show "map account_key (map account_row_of accs) =
        map (\<lambda>(ch, a, ty). (Some (cu_id cu), ch, a, ty)) provisioned"
      using effect_mapm_new_account [OF m] by simp
    show "cu_id cu \<notin> c_id ` set (customers d)"
      using 1 by (simp add: insert_customer_def m_success)
    show "distinct (map a_id (map account_row_of accs))"
      "set (map a_id (map account_row_of accs)) \<inter> a_id ` set (accounts d) = {}"
      using effect_for_each_insert_account [OF 2] 1
      by (auto simp: insert_customer_def m_success account_row_of_def comp_def)
    show "d' = d\<lparr>customers := customers d @ [\<lparr>c_id = cu_id cu, c_created_at = t\<rparr>],
            accounts := accounts d @ map account_row_of accs,
            deposit_addresses := deposit_addresses d @
              [\<lparr>da_customer_id = cu_id cu, da_address = cu_deposit_address cu, da_created_at = t\<rparr>]\<rparr>"
      using effect_for_each_insert_account [OF 2] 1 3 t
      by (auto simp: insert_customer_def insert_deposit_address_def m_success)
    show "schema_ok d \<longrightarrow> schema_ok d'"
      using schema_insert_customer [OF 1] effect_for_each_insert_account [OF 2]
        schema_insert_deposit_address [OF 3] by blast
  qed (use e in simp_all)
qed

subsection \<open>The ledger of a new customer\<close>

lemma balance_unknown:
  assumes "journal_ok d" "i \<notin> a_id ` set (accounts d)"
  shows "balance d i = 0"
proof -
  have "filter (\<lambda>p. p_account_id p = i) (postings d) = []"
    using assms by (auto simp: filter_empty_conv journal_ok_def)
  then show ?thesis by (simp add: balance_def)
qed

lemma held_unknown:
  assumes "withdrawals_ok d" "c \<notin> c_id ` set (customers d)"
  shows "held d c ch a = 0"
  unfolding held_def
  by (rule total_of_0) (use assms in \<open>auto simp: withdrawals_ok_def withdrawal_checks_def\<close>)

lemma total_of_const_0: "(\<And>r. r \<in> set rs \<Longrightarrow> f r = 0) \<Longrightarrow> total_of p f rs = 0"
  by (induction rs) auto

lemma provisioned_types: "(ch, a, ty) \<in> set provisioned \<Longrightarrow> ty = AccountTypeAvailable \<or> ty = AccountTypeHold"
  by (auto simp: provisioned_def accountTypes_def)

lemma ledger_create_customer:
  assumes "effect (CreateCustomer_Execute up de) t d cu d'" "ledger_ok d"
  shows "ledger_ok d'"
proof -
  have ok: "journal_ok d" "withdrawals_ok d" "schema_ok d"
    using assms(2) by (auto simp: ledger_ok_def schema_ok_def)
  from assms(1) obtain accs where e:
    "map account_key accs = map (\<lambda>(ch, a, ty). (Some (cu_id cu), ch, a, ty)) provisioned"
    "cu_id cu \<notin> c_id ` set (customers d)"
    "set (map a_id accs) \<inter> a_id ` set (accounts d) = {}"
    and d': "d' = d\<lparr>customers := customers d @ [\<lparr>c_id = cu_id cu, c_created_at = t\<rparr>],
            accounts := accounts d @ accs,
            deposit_addresses := deposit_addresses d @
              [\<lparr>da_customer_id = cu_id cu, da_address = cu_deposit_address cu, da_created_at = t\<rparr>]\<rparr>"
    and s: "schema_ok d'"
    using ok(3) by (elim effect_CreateCustomer_ExecuteE) blast
  have b: "balance d (a_id r) = 0" if "r \<in> set accs" for r
    using that e(3) by (intro balance_unknown [OF ok(1)]) auto
  have k: "\<exists>ch a ty. account_key r = (Some (cu_id cu), ch, a, ty) \<and> ty \<noteq> AccountTypeTreasury"
    if "r \<in> set accs" for r
  proof -
    have "account_key r \<in> set (map account_key accs)"
      using that by simp
    then show ?thesis
      unfolding e(1) by (auto dest!: provisioned_types)
  qed
  have "account_matches d r" if "r \<in> set accs" for r
    using k [OF that] b [OF that] held_unknown [OF ok(2) e(2)]
    by (auto simp: account_matches_def account_key_def split: account_type.splits)
  then have "books d'"
    using assms(2) by (auto simp: d' books_def ledger_ok_def)
  moreover have "pair_total d' ch a = pair_total d ch a" for ch a
    using total_of_const_0 [of accs "\<lambda>r. balance d (a_id r)"] b by (simp add: d' pair_total_def)
  ultimately show ?thesis
    using assms(2) s by (auto simp: d' ledger_ok_def pairs_balanced_def)
qed

subsection \<open>Properties\<close>

lemma provisioned_available:
  "filter (\<lambda>(o', ch, a, ty). o' = Some c \<and> ty = AccountTypeAvailable)
     (map (\<lambda>(ch, a, ty). (Some c, ch, a, ty)) provisioned) =
   map (\<lambda>(ch, a). (Some c, ch, a, AccountTypeAvailable)) SupportedChainAssetPairs"
  by (simp add: provisioned_def accountTypes_def SupportedChainAssetPairs_def)

lemma new_available_accounts:
  assumes "map account_key accs = map (\<lambda>(ch, a, ty). (Some c, ch, a, ty)) provisioned"
    and "accounts_ok d" "c \<notin> c_id ` set (customers d)" "accounts d' = accounts d @ accs"
  shows "map (\<lambda>r. (a_chain r, a_asset r)) (available_accounts d' c) = SupportedChainAssetPairs"
    "set (available_accounts d' c) \<subseteq> set accs"
proof -
  let ?Q = "\<lambda>(o', ch, a, ty). o' = Some c \<and> ty = AccountTypeAvailable"
  have "\<forall>r\<in>set (accounts d). a_customer_id r \<noteq> Some c"
    using assms(2,3) unfolding accounts_ok_def by (metis elem_set)
  then have old: "available_accounts d' c = filter (\<lambda>r. ?Q (account_key r)) accs"
    by (auto simp: available_accounts_def assms(4) account_key_def filter_empty_conv)
  have "map account_key (filter (\<lambda>r. ?Q (account_key r)) accs) = filter ?Q (map account_key accs)"
    by (simp add: filter_map comp_def)
  also have "\<dots> = map (\<lambda>(ch, a). (Some c, ch, a, AccountTypeAvailable)) SupportedChainAssetPairs"
    unfolding assms(1) provisioned_available ..
  finally have "map (\<lambda>(o', ch, a, ty). (ch, a)) (map account_key (available_accounts d' c)) =
      map (\<lambda>(o', ch, a, ty). (ch, a)) (map (\<lambda>(ch, a). (Some c, ch, a, AccountTypeAvailable)) SupportedChainAssetPairs)"
    unfolding old by simp
  then show "map (\<lambda>r. (a_chain r, a_asset r)) (available_accounts d' c) = SupportedChainAssetPairs"
    by (simp add: account_key_def comp_def case_prod_beta)
  show "set (available_accounts d' c) \<subseteq> set accs"
    unfolding old by auto
qed


definition sample_derive :: "byte list \<Rightarrow> error + address" where
  "sample_derive salt = Inr (''0x'' @ replicate 40 (CHR ''c''))"

lemma sample_customer_fst:
  "isl (fst (in_tx (CreateCustomer_Execute (\<lambda>s. Some (replicate 16 1)) sample_derive) (sample_world sample))) = False"
  by code_simp


end
