(* ===== verification/Transfers.thy ===== *)
theory Transfers
  imports Samples
begin

text \<open>
  Internal transfers: \<^verbatim>\<open>core/create_transfer.go\<close> (validation) and
  \<^verbatim>\<open>postgres/transfer_repo.go\<close> (the locked, balance-checked movement).  \<open>CreateTransfer\<close> is the
  repository method, \<open>CreateTransfer_Execute\<close> the use case.
\<close>

subsection \<open>The repository\<close>

definition transfer_accounts ::
    "transfer_request \<Rightarrow> account_row \<Rightarrow> bool" where
  "transfer_accounts req r \<longleftrightarrow>
     a_chain r = tr_chain req \<and> a_asset r = tr_asset req \<and>
     (a_customer_id r = Some (tr_source req) \<or> a_customer_id r = Some (tr_destination req)) \<and>
     a_type r = AccountTypeAvailable"

definition CreateTransfer :: "transfer_request \<Rightarrow> transfer db_m" where
  "CreateTransfer req =
     bindm (locked_accounts (transfer_accounts req)) (\<lambda>rows.
     (case account_by a_customer_id rows (Some (tr_source req)) of
        None \<Rightarrow> raise ErrCustomerNotFound
      | Some sourceAccountID \<Rightarrow>
     (case account_by a_customer_id rows (Some (tr_destination req)) of
        None \<Rightarrow> raise ErrCustomerNotFound
      | Some destAccountID \<Rightarrow>
     bindm (query (\<lambda>d. balance d sourceAccountID)) (\<lambda>bal.
     bindm (deref (tr_amount req)) (\<lambda>amount.
     if bal < amount then raise ErrInsufficientBalance else
     bindm time_now (\<lambda>now.
     bindm (post_entry (dup_as ErrDuplicateTransferCause) ''internal_transfer''
              (tr_idempotency_key req) sourceAccountID destAccountID amount now) (\<lambda>je.
     ret \<lparr>tf_id = je, tf_source = tr_source req, tf_destination = tr_destination req,
          tf_chain = tr_chain req, tf_asset = tr_asset req, tf_amount = amount,
          tf_created_at = now\<rparr>)))))))"

subsection \<open>The use case\<close>

definition CreateTransfer_Execute :: "transfer_request \<Rightarrow> transfer db_m" where
  "CreateTransfer_Execute req =
     (if tr_source req = tr_destination req then raise ErrSelfTransfer
      else if (case tr_amount req of None \<Rightarrow> True | Some x \<Rightarrow> x \<le> 0) then raise ErrNonPositiveAmount
      else CreateTransfer req)"

subsection \<open>What a transfer promises\<close>

text \<open>The outcome of a request on a database, with no fault of the connection and the fresh journal
  entry id \<open>je\<close>: every branch of the use case, in the order in which it is decided.\<close>

definition transfer_outcome :: "database \<Rightarrow> time \<Rightarrow> uuid \<Rightarrow> transfer_request \<Rightarrow> error + transfer" where
  "transfer_outcome d now je req =
     (if tr_source req = tr_destination req then Inl ErrSelfTransfer else
      case tr_amount req of
        None \<Rightarrow> Inl ErrNonPositiveAmount
      | Some amount \<Rightarrow>
      if amount \<le> 0 then Inl ErrNonPositiveAmount else
      (case (account_of d (Some (tr_source req)) (tr_chain req) (tr_asset req) AccountTypeAvailable,
             account_of d (Some (tr_destination req)) (tr_chain req) (tr_asset req)
               AccountTypeAvailable) of
        (Some src, Some dst) \<Rightarrow>
          if balance d src < amount then Inl ErrInsufficientBalance
          else if (''internal_transfer'', tr_idempotency_key req) \<in> cause ` set (journal_entries d)
          then Inl ErrDuplicateTransferCause
          else if \<not> numeric78 amount then Inl (PgError ''constraint'')
          else Inr \<lparr>tf_id = je, tf_source = tr_source req, tf_destination = tr_destination req,
                    tf_chain = tr_chain req, tf_asset = tr_asset req, tf_amount = amount,
                    tf_created_at = now\<rparr>
      | _ \<Rightarrow> Inl ErrCustomerNotFound))"

subsection \<open>Effects\<close>

lemma quiet_CreateTransfer [simp]: "quiet (CreateTransfer req)"
  by (auto simp: CreateTransfer_def split: option.split intro!: quiet_bindm)

lemma quiet_CreateTransfer_Execute [simp]: "quiet (CreateTransfer_Execute req)"
  by (simp add: CreateTransfer_Execute_def)

lemma transfer_accounts_source:
  assumes "accounts_ok d"
  shows "account_by a_customer_id (sort_key a_id (filter (transfer_accounts req) (accounts d)))
      (Some (tr_source req)) =
    account_of d (Some (tr_source req)) (tr_chain req) (tr_asset req) AccountTypeAvailable"
  by (rule account_by_account_of [OF assms]) (auto simp: transfer_accounts_def account_key_def)

lemma transfer_accounts_destination:
  assumes "accounts_ok d"
  shows "account_by a_customer_id (sort_key a_id (filter (transfer_accounts req) (accounts d)))
      (Some (tr_destination req)) =
    account_of d (Some (tr_destination req)) (tr_chain req) (tr_asset req) AccountTypeAvailable"
  by (rule account_by_account_of [OF assms]) (auto simp: transfer_accounts_def account_key_def)

lemma effect_CreateTransferE:
  assumes "effect (CreateTransfer req) t d tf d'" "accounts_ok d"
  obtains src dst amount p1 p2 where
    "account_of d (Some (tr_source req)) (tr_chain req) (tr_asset req) AccountTypeAvailable = Some src"
    "account_of d (Some (tr_destination req)) (tr_chain req) (tr_asset req) AccountTypeAvailable =
       Some dst"
    "tr_amount req = Some amount" "amount \<le> balance d src"
    "d' = posted d (tf_id tf) p1 p2 ''internal_transfer'' (tr_idempotency_key req) src dst amount t"
    "fresh_entry d (tf_id tf) p1 p2 ''internal_transfer'' (tr_idempotency_key req) src dst amount"
    "tf = \<lparr>tf_id = tf_id tf, tf_source = tr_source req, tf_destination = tr_destination req,
          tf_chain = tr_chain req, tf_asset = tr_asset req, tf_amount = amount, tf_created_at = t\<rparr>"
  using assms(1)
  by (auto simp: CreateTransfer_def m_success transfer_accounts_source [OF assms(2)]
      transfer_accounts_destination [OF assms(2)] split: option.splits if_splits
      elim!: effect_bindmE effect_post_entryE intro: that)

lemma effect_transferE:
  assumes "effect (CreateTransfer_Execute req) t d tf d'" "accounts_ok d"
  obtains src dst amount p1 p2 where
    "tr_source req \<noteq> tr_destination req" "0 < amount"
    "account_of d (Some (tr_source req)) (tr_chain req) (tr_asset req) AccountTypeAvailable = Some src"
    "account_of d (Some (tr_destination req)) (tr_chain req) (tr_asset req) AccountTypeAvailable =
       Some dst"
    "tr_amount req = Some amount" "amount \<le> balance d src"
    "d' = posted d (tf_id tf) p1 p2 ''internal_transfer'' (tr_idempotency_key req) src dst amount t"
    "fresh_entry d (tf_id tf) p1 p2 ''internal_transfer'' (tr_idempotency_key req) src dst amount"
  using assms
  by (auto simp: CreateTransfer_Execute_def m_success split: if_splits option.splits
      elim!: effect_CreateTransferE intro: that)

lemma transfer_accounts_differ:
  assumes "accounts_ok d" "tr_source req \<noteq> tr_destination req"
    "account_of d (Some (tr_source req)) ch a ty = Some src"
    "account_of d (Some (tr_destination req)) ch a ty = Some dst"
  shows "src \<noteq> dst"
proof -
  obtain r s where "r \<in> set (accounts d)" "s \<in> set (accounts d)" "a_id r = src" "a_id s = dst"
    "account_key r \<noteq> account_key s"
    using assms(2-4) unfolding account_of_Some [OF assms(1)] by fastforce
  then show ?thesis
    using accounts_same_id [OF assms(1)] by blast
qed

text \<open>A transfer keeps the ledger.\<close>

lemma ledger_transfer:
  assumes "effect (CreateTransfer_Execute req) t d tf d'" "ledger_ok d"
  shows "ledger_ok d'"
proof -
  have ok: "accounts_ok d" "books d"
    using assms(2) by (auto simp: ledger_ok_def schema_ok_def)
  from assms(1) ok(1) obtain src dst amount p1 p2 where e:
    "tr_source req \<noteq> tr_destination req" "0 < amount" "amount \<le> balance d src"
    "account_of d (Some (tr_source req)) (tr_chain req) (tr_asset req) AccountTypeAvailable = Some src"
    "account_of d (Some (tr_destination req)) (tr_chain req) (tr_asset req) AccountTypeAvailable =
       Some dst"
    "d' = posted d (tf_id tf) p1 p2 ''internal_transfer'' (tr_idempotency_key req) src dst amount t"
    "fresh_entry d (tf_id tf) p1 p2 ''internal_transfer'' (tr_idempotency_key req) src dst amount"
    by (rule effect_transferE)
  from e(4,5) obtain r s where rs: "r \<in> set (accounts d)" "s \<in> set (accounts d)"
    "account_key r = (Some (tr_source req), tr_chain req, tr_asset req, AccountTypeAvailable)"
    "account_key s = (Some (tr_destination req), tr_chain req, tr_asset req, AccountTypeAvailable)"
    and ids: "src = a_id r" "dst = a_id s"
    by (auto simp: account_of_Some [OF ok(1)])
  have "0 \<le> balance d src" "0 \<le> balance d dst"
    using available_nonneg [OF ok(2)] rs ids by blast+
  then show ?thesis
    unfolding e(6) ids
    using rs e(1-3,7) ids assms(2)
    by (intro ledger_posted) (auto simp: account_matches_def account_key_def balance_posted)
qed

subsection \<open>Properties\<close>

text \<open>C1: a completed transfer moves exactly the requested amount.  The source had it, the source's
  available account loses it, the destination's gains it, no other account changes, and neither
  withdrawals nor deposits are touched.\<close>

theorem transfer_exact:
  assumes "in_tx (CreateTransfer_Execute req) w = (Inr tf, w')" "accounts_ok (db w)"
  shows "\<exists>src dst amount.
    account_of (db w) (Some (tr_source req)) (tr_chain req) (tr_asset req) AccountTypeAvailable =
      Some src \<and>
    account_of (db w) (Some (tr_destination req)) (tr_chain req) (tr_asset req)
      AccountTypeAvailable = Some dst \<and>
    src \<noteq> dst \<and> tr_amount req = Some amount \<and> 0 < amount \<and> amount \<le> balance (db w) src \<and>
    balance (db w') src = balance (db w) src - amount \<and>
    balance (db w') dst = balance (db w) dst + amount \<and>
    (\<forall>z. z \<noteq> src \<and> z \<noteq> dst \<longrightarrow> balance (db w') z = balance (db w) z) \<and>
    withdrawals (db w') = withdrawals (db w) \<and> deposits (db w') = deposits (db w)"
proof -
  from in_tx_Inr [OF assms(1)] assms(2) obtain src dst amount p1 p2 where e:
    "tr_source req \<noteq> tr_destination req" "0 < amount" "tr_amount req = Some amount"
    "amount \<le> balance (db w) src"
    "account_of (db w) (Some (tr_source req)) (tr_chain req) (tr_asset req) AccountTypeAvailable =
       Some src"
    "account_of (db w) (Some (tr_destination req)) (tr_chain req) (tr_asset req)
       AccountTypeAvailable = Some dst"
    and d': "db w' = posted (db w) (tf_id tf) p1 p2 ''internal_transfer'' (tr_idempotency_key req)
      src dst amount (clock w)"
    and f: "fresh_entry (db w) (tf_id tf) p1 p2 ''internal_transfer'' (tr_idempotency_key req)
      src dst amount"
    by (rule effect_transferE)
  have p: "posts (db w) src dst amount (db w')"
    unfolding d' by (rule posts_posted [OF f])
  have "src \<noteq> dst"
    by (rule transfer_accounts_differ [OF assms(2) e(1,5,6)])
  then show ?thesis
    using e p d' entries.debit_side [OF p] entries.credit_side [OF p] entries.other_accounts [OF p]
    by auto
qed

definition sample_transfer :: transfer_request where
  "sample_transfer = \<lparr>tr_source = alice, tr_destination = bob, tr_chain = ChainBase,
     tr_asset = AssetETH, tr_amount = Some 400, tr_idempotency_key = ''k1''\<rparr>"

lemma sample_transfer_fst:
  "fst (in_tx (CreateTransfer_Execute sample_transfer) (sample_world sample)) =
     Inr \<lparr>tf_id = ''u1'', tf_source = alice, tf_destination = bob, tf_chain = ChainBase,
          tf_asset = AssetETH, tf_amount = 400, tf_created_at = 10\<rparr>"
  by code_simp

lemma sample_transfer_runs:
  "in_tx (CreateTransfer_Execute sample_transfer) (sample_world sample) =
     (Inr \<lparr>tf_id = ''u1'', tf_source = alice, tf_destination = bob, tf_chain = ChainBase,
          tf_asset = AssetETH, tf_amount = 400, tf_created_at = 10\<rparr>,
      snd (in_tx (CreateTransfer_Execute sample_transfer) (sample_world sample)))"
  by (simp add: prod_eq_iff sample_transfer_fst)

lemma accounts_ok_sample: "accounts_ok sample"
  using schema_sample by (simp add: schema_ok_def)

theorem transfer_exact_witness:
  "\<exists>src dst amount.
    account_of sample (Some alice) ChainBase AssetETH AccountTypeAvailable = Some src \<and>
    account_of sample (Some bob) ChainBase AssetETH AccountTypeAvailable = Some dst \<and>
    amount = 400 \<and>
    balance (db (snd (in_tx (CreateTransfer_Execute sample_transfer) (sample_world sample)))) src =
      balance sample src - amount \<and>
    balance (db (snd (in_tx (CreateTransfer_Execute sample_transfer) (sample_world sample)))) dst =
      balance sample dst + amount"
  using transfer_exact [OF sample_transfer_runs] accounts_ok_sample
  by (simp add: sample_world_def) (auto simp: sample_transfer_def)

text \<open>C2: every branch of a transfer request.  Without a fault of the connection, and with three
  fresh identifiers, the use case returns what \<open>transfer_outcome\<close> says, errors included, in the
  order of the checks.\<close>

theorem transfer_refines_outcome:
  assumes "outcomes w = []" "uuids w = je # p1 # p2 # us" "accounts_ok (db w)"
    and "je \<notin> j_id ` set (journal_entries (db w))"
    and "p1 \<noteq> p2" "p1 \<notin> p_id ` set (postings (db w))" "p2 \<notin> p_id ` set (postings (db w))"
  shows "fst (CreateTransfer_Execute req w) = transfer_outcome (db w) (clock w) je req"
proof -
  let ?s = "account_of (db w) (Some (tr_source req)) (tr_chain req) (tr_asset req) AccountTypeAvailable"
  let ?t = "account_of (db w) (Some (tr_destination req)) (tr_chain req) (tr_asset req)
    AccountTypeAvailable"
  have in_ids: "src \<in> a_id ` set (accounts (db w))" if "account_of (db w) c ch a ty = Some src"
    for c ch a ty src
    using that by (auto simp: account_of_Some [OF assms(3)])
  show ?thesis
  proof (cases "tr_source req = tr_destination req \<or> tr_amount req = None \<or> ?s = None \<or> ?t = None")
    case True
    then show ?thesis
      using assms(1) by (auto simp: transfer_outcome_def CreateTransfer_Execute_def CreateTransfer_def
          bindm_def locked_accounts_def m_simps transfer_accounts_source [OF assms(3)]
          transfer_accounts_destination [OF assms(3)] split: option.splits)
  next
    case False
    then obtain src dst amount where *: "?s = Some src" "?t = Some dst" "tr_amount req = Some amount"
      by auto
    show ?thesis
      using False * assms in_ids [OF *(1)] in_ids [OF *(2)]
      by (auto simp: transfer_outcome_def CreateTransfer_Execute_def CreateTransfer_def
          bindm_def map_error_def locked_accounts_def m_simps transfer_accounts_source [OF assms(3)]
          transfer_accounts_destination [OF assms(3)] post_entry_def post_batch_def
          insert_journal_entry_def insert_posting_def constrained_def dup_as_def cause_def
          numeric78_def)
  qed
qed


theorem transfer_refines_outcome_witness:
  "fst (CreateTransfer_Execute sample_transfer (sample_world sample)) =
     transfer_outcome sample 10 ''u1'' sample_transfer \<and>
   transfer_outcome sample 10 ''u1'' (sample_transfer\<lparr>tr_amount := Some 1001\<rparr>) =
     Inl ErrInsufficientBalance"
proof
  show "fst (CreateTransfer_Execute sample_transfer (sample_world sample)) =
      transfer_outcome sample 10 ''u1'' sample_transfer"
    using transfer_refines_outcome [of "sample_world sample" "''u1''" "''u2''" "''u3''" _ sample_transfer]
      accounts_ok_sample
    by (simp add: sample_world_def sample_def posted_def sample_customers_def seeded_def)
qed code_simp

text \<open>C3: an idempotency key moves money at most once.  Once a transfer with a key is in the
  journal, no later transfer with that key completes, whatever its other fields.\<close>

theorem transfer_key_once:
  assumes "in_tx (CreateTransfer_Execute req) w = (Inr tf, w1)" "accounts_ok (db w)"
    and "accounts_ok (db w2)" "set (journal_entries (db w1)) \<subseteq> set (journal_entries (db w2))"
    and "tr_idempotency_key req' = tr_idempotency_key req"
  shows "in_tx (CreateTransfer_Execute req') w2 \<noteq> (Inr tf', w3)"
proof
  assume r: "in_tx (CreateTransfer_Execute req') w2 = (Inr tf', w3)"
  from in_tx_Inr [OF assms(1)] assms(2)
  have "(''internal_transfer'', tr_idempotency_key req) \<in> cause ` set (journal_entries (db w1))"
    by (elim effect_transferE) (auto simp: posted_def cause_def)
  then have "(''internal_transfer'', tr_idempotency_key req') \<in> cause ` set (journal_entries (db w2))"
    using assms(4,5) by auto
  moreover from in_tx_Inr [OF r] assms(3)
  have "(''internal_transfer'', tr_idempotency_key req') \<notin> cause ` set (journal_entries (db w2))"
    by (elim effect_transferE) (assumption, rule fresh_entry_cause)
  ultimately show False by contradiction
qed

lemma accounts_ok_after_sample_transfer:
  "accounts_ok (db (snd (in_tx (CreateTransfer_Execute sample_transfer) (sample_world sample))))"
  by code_simp

theorem transfer_key_once_witness:
  "\<forall>tf0 w0. in_tx (CreateTransfer_Execute (sample_transfer\<lparr>tr_amount := Some 1\<rparr>))
     (snd (in_tx (CreateTransfer_Execute sample_transfer) (sample_world sample))) \<noteq> (Inr tf0, w0)"
  using transfer_key_once [OF sample_transfer_runs, of _ "sample_transfer\<lparr>tr_amount := Some 1\<rparr>"]
    accounts_ok_sample accounts_ok_after_sample_transfer
  by (simp add: sample_world_def)

end
