(* ===== verification/History.thy ===== *)
theory History
  imports Deposits Samples
begin

text \<open>
  The transaction history: \<^verbatim>\<open>core/list_customer_transactions.go\<close> and
  \<^verbatim>\<open>postgres/transaction_repo.go\<close>, with the signed page cursor.

  \<^verbatim>\<open>encoding/base64\<close> (raw URL alphabet) and the functions of \<^verbatim>\<open>strings\<close> are modelled on byte
  strings.  The record \<open>cursor_lib\<close> holds what stays a parameter: HMAC-SHA256 under the
  repository's key, the format and parse functions of \<^verbatim>\<open>time\<close> for RFC 3339 with nanoseconds, and
  \<^verbatim>\<open>uuid.Parse\<close>.

  The locale \<open>keyset\<close> is the contract of keyset pagination: rows strictly ordered by a key, read a
  page at a time strictly below the last key seen.  Its lemma says that following the cursors reads
  every row exactly once, in order; it is interpreted on the history of a customer.
\<close>

subsection \<open>strings and encoding/base64\<close>

text \<open>The URL alphabet: \<^verbatim>\<open>A-Z\<close>, \<^verbatim>\<open>a-z\<close>, \<^verbatim>\<open>0-9\<close>, \<^verbatim>\<open>-\<close> and \<^verbatim>\<open>_\<close>.\<close>

definition base64_char :: "nat \<Rightarrow> char" where
  "base64_char n =
     (if n < 26 then char_of (n + 65) else if n < 52 then char_of (n + 71)
      else if n < 62 then char_of (n - 4) else if n = 62 then CHR ''-'' else CHR ''_'')"

definition base64_val :: "char \<Rightarrow> nat option" where
  "base64_val c = (let n = (of_char c :: nat) in
     if 65 \<le> n \<and> n \<le> 90 then Some (n - 65)
     else if 97 \<le> n \<and> n \<le> 122 then Some (n - 71)
     else if 48 \<le> n \<and> n \<le> 57 then Some (n + 4)
     else if n = 45 then Some 62
     else if n = 95 then Some 63
     else None)"

fun base64_groups :: "nat list \<Rightarrow> nat list" where
  "base64_groups [] = []"
| "base64_groups [a] = [a div 4, (a mod 4) * 16]"
| "base64_groups [a, b] = [a div 4, (a mod 4) * 16 + b div 16, (b mod 16) * 4]"
| "base64_groups (a # b # c # rest) =
     [a div 4, (a mod 4) * 16 + b div 16, (b mod 16) * 4 + c div 64, c mod 64] @ base64_groups rest"

definition base64_encode :: "string \<Rightarrow> string" where
  "base64_encode s = map base64_char (base64_groups (map of_char s))"

fun base64_bytes :: "nat list \<Rightarrow> nat list option" where
  "base64_bytes [] = Some []"
| "base64_bytes [x] = None"
| "base64_bytes [x, y] = Some [x * 4 + y div 16]"
| "base64_bytes [x, y, z] = Some [x * 4 + y div 16, (y mod 16) * 16 + z div 4]"
| "base64_bytes (x # y # z # u # rest) =
     map_option (\<lambda>bs. [x * 4 + y div 16, (y mod 16) * 16 + z div 4, (z mod 4) * 64 + u] @ bs)
       (base64_bytes rest)"

text \<open>The decoder skips line ends and ignores the unused low bits of the last character.\<close>

definition base64_decode :: "string \<Rightarrow> string option" where
  "base64_decode s =
     (case those (map base64_val (filter (\<lambda>c. c \<noteq> CHR 0x0A \<and> c \<noteq> CHR 0x0D) s)) of
        None \<Rightarrow> None
      | Some vs \<Rightarrow> map_option (map char_of) (base64_bytes vs))"

fun cut :: "char \<Rightarrow> string \<Rightarrow> (string \<times> string) option" where
  "cut c [] = None"
| "cut c (x # xs) = (if x = c then Some ([], xs) else map_option (\<lambda>(a, b). (x # a, b)) (cut c xs))"

fun split_on :: "char \<Rightarrow> string \<Rightarrow> string list" where
  "split_on c [] = [[]]"
| "split_on c (x # xs) =
     (if x = c then [] # split_on c xs
      else (case split_on c xs of [] \<Rightarrow> [[x]] | y # ys \<Rightarrow> (x # y) # ys))"

fun join_with :: "string \<Rightarrow> string list \<Rightarrow> string" where
  "join_with sep [] = []"
| "join_with sep [s] = s"
| "join_with sep (s # t # ts) = s @ sep @ join_with sep (t # ts)"

subsection \<open>The signed cursor\<close>

record cursor_lib =
  hmac :: "string \<Rightarrow> string"
  time_format :: "time \<Rightarrow> string"
  time_parse :: "string \<Rightarrow> time option"
  uuid_valid :: "string \<Rightarrow> bool"

definition cursorFieldSeparator :: char where
  "cursorFieldSeparator = CHR ''|''"

definition cursorPartSeparator :: char where
  "cursorPartSeparator = CHR ''.''"

definition encodeCursor :: "cursor_lib \<Rightarrow> uuid \<Rightarrow> time \<Rightarrow> uuid \<Rightarrow> uuid \<Rightarrow> string" where
  "encodeCursor lib customerID createdAt journalEntryID postingID =
     (let payload = join_with [cursorFieldSeparator]
        [customerID, time_format lib createdAt, journalEntryID, postingID]
      in base64_encode payload @ [cursorPartSeparator] @ base64_encode (hmac lib payload))"

definition decodeCursor :: "cursor_lib \<Rightarrow> uuid \<Rightarrow> string \<Rightarrow> error + time \<times> uuid \<times> uuid" where
  "decodeCursor lib customerID cursor =
     (case cut cursorPartSeparator cursor of
        None \<Rightarrow> Inl ErrInvalidCursor
      | Some (encodedPayload, encodedMAC) \<Rightarrow>
     (case base64_decode encodedPayload of
        None \<Rightarrow> Inl ErrInvalidCursor
      | Some payload \<Rightarrow>
     (case base64_decode encodedMAC of
        None \<Rightarrow> Inl ErrInvalidCursor
      | Some gotMAC \<Rightarrow>
     if gotMAC \<noteq> hmac lib payload then Inl ErrInvalidCursor
     else
       let fields = split_on cursorFieldSeparator payload in
       if length fields \<noteq> 4 then Inl ErrInvalidCursor
       else if fields ! 0 \<noteq> customerID then Inl ErrInvalidCursor
       else (case time_parse lib (fields ! 1) of
           None \<Rightarrow> Inl ErrInvalidCursor
         | Some createdAt \<Rightarrow>
             if \<not> uuid_valid lib (fields ! 2) then Inl ErrInvalidCursor
             else if \<not> uuid_valid lib (fields ! 3) then Inl ErrInvalidCursor
             else Inr (createdAt, fields ! 2, fields ! 3)))))"

subsection \<open>The repository\<close>

definition transactionStatus :: "string \<Rightarrow> string" where
  "transactionStatus causeType =
     (if causeType = depositCreditCauseType then ''credited'' else ''completed'')"

type_synonym history_key = "time \<times> uuid \<times> uuid"

definition history_key :: "journal_entry_row \<times> posting_row \<times> account_row \<Rightarrow> history_key" where
  "history_key x = (case x of (j, p, a) \<Rightarrow> (j_created_at j, j_id j, p_id p))"

text \<open>The join of the query, newest first.\<close>

definition history_rows ::
    "database \<Rightarrow> uuid \<Rightarrow> (journal_entry_row \<times> posting_row \<times> account_row) list" where
  "history_rows d customerID =
     rev (sort_key history_key
       [(j, p, a). j \<leftarrow> journal_entries d,
                   p \<leftarrow> filter (\<lambda>p. p_journal_entry_id p = j_id j) (postings d),
                   a \<leftarrow> filter (\<lambda>a. a_id a = p_account_id p \<and> a_customer_id a = Some customerID \<and>
                                a_type a = AccountTypeAvailable) (accounts d)])"

definition pagedTransaction :: "journal_entry_row \<times> posting_row \<times> account_row \<Rightarrow> transaction \<times> uuid" where
  "pagedTransaction x = (case x of (j, p, a) \<Rightarrow>
     (\<lparr>tn_id = j_id j, tn_type = j_cause_type j, tn_amount = p_amount p, tn_chain = a_chain a,
       tn_asset = a_asset a, tn_status = transactionStatus (j_cause_type j),
       tn_created_at = j_created_at j\<rparr>, p_id p))"

text \<open>One row more than the page is fetched; it shows that there is a next page.\<close>

definition history_query ::
    "database \<Rightarrow> uuid \<Rightarrow> nat \<Rightarrow> history_key option \<Rightarrow>
     (journal_entry_row \<times> posting_row \<times> account_row) list" where
  "history_query d customerID pageSize bound =
     take (pageSize + 1)
       (filter (\<lambda>x. case bound of None \<Rightarrow> True | Some k \<Rightarrow> history_key x < k) (history_rows d customerID))"

definition ListCustomerTransactions ::
    "cursor_lib \<Rightarrow> uuid \<Rightarrow> nat \<Rightarrow> string \<Rightarrow> transaction_page db_m" where
  "ListCustomerTransactions lib customerID pageSize cursor =
     bindm (query (\<lambda>d. customerID \<in> c_id ` set (customers d))) (\<lambda>exists.
     bindm (guardm exists ErrCustomerNotFound) (\<lambda>_.
     bindm (if cursor = [] then ret None
            else lift_result (case decodeCursor lib customerID cursor of
              Inl e \<Rightarrow> Inl e | Inr k \<Rightarrow> Inr (Some k))) (\<lambda>bound.
     bindm (query (\<lambda>d. history_query d customerID pageSize bound)) (\<lambda>rows.
     let paged = map pagedTransaction rows in
     if length paged > pageSize then
       let (txn, postingID) = paged ! (pageSize - 1) in
       ret \<lparr>tp_transactions = map fst (take pageSize paged),
            tp_next_cursor = encodeCursor lib customerID (tn_created_at txn) (tn_id txn) postingID\<rparr>
     else ret \<lparr>tp_transactions = map fst paged, tp_next_cursor = []\<rparr>))))"

definition defaultTransactionPageSize :: int where
  "defaultTransactionPageSize = 20"

definition maxTransactionPageSize :: int where
  "maxTransactionPageSize = 100"

definition ListCustomerTransactions_Execute ::
    "cursor_lib \<Rightarrow> uuid \<Rightarrow> int option \<Rightarrow> string \<Rightarrow> transaction_page db_m" where
  "ListCustomerTransactions_Execute lib customerID pageSize cursor =
     (case pageSize of
        None \<Rightarrow> ListCustomerTransactions lib customerID (nat defaultTransactionPageSize) cursor
      | Some n \<Rightarrow>
          if n \<le> 0 then raise ErrInvalidPageSize
          else if n > maxTransactionPageSize
          then ListCustomerTransactions lib customerID (nat maxTransactionPageSize) cursor
          else ListCustomerTransactions lib customerID (nat n) cursor)"

subsection \<open>Codec lemmas\<close>

lemma base64_val_char: "n < 64 \<Longrightarrow> base64_val (base64_char n) = Some n"
  by (auto simp: base64_val_def base64_char_def Let_def)

lemma base64_char_plain:
  "n < 64 \<Longrightarrow> base64_char n \<noteq> CHR 0x0A \<and> base64_char n \<noteq> CHR 0x0D \<and> base64_char n \<noteq> CHR ''.''"
  using base64_val_char [of n] by (auto simp: base64_val_def)

lemma groups_bound: "\<forall>b\<in>set bs. b < 256 \<Longrightarrow> g \<in> set (base64_groups bs) \<Longrightarrow> g < 64"
proof (induction bs rule: base64_groups.induct)
  case (4 a b c rest)
  then show ?case by auto
qed auto

lemma bytes_groups: "\<forall>b\<in>set bs. b < 256 \<Longrightarrow> base64_bytes (base64_groups bs) = Some bs"
proof (induction bs rule: base64_groups.induct)
  case (3 a b)
  have "b div 16 < 16" "(b mod 16) * 4 div 4 = b mod 16"
    using 3 by auto
  then show ?case by (simp add: div_add1_eq [of "a mod 4 * 16"] mod_add_eq)
next
  case (4 a b c rest)
  have "b div 16 < 16" "c div 64 < 4"
    using 4 by auto
  then show ?case using 4 by simp
qed auto

lemma those_map: "(\<And>x. x \<in> set xs \<Longrightarrow> f (g x) = Some x) \<Longrightarrow> those (map f (map g xs)) = Some xs"
  by (induction xs) auto

lemma base64_round_trip: "base64_decode (base64_encode s) = Some s"
proof -
  let ?gs = "base64_groups (map of_char s)"
  have b: "\<forall>b\<in>set (map of_char s). b < (256 :: nat)"
    by auto
  have g: "g < 64" if "g \<in> set ?gs" for g
    by (rule groups_bound [OF b that])
  have "filter (\<lambda>c. c \<noteq> CHR 0x0A \<and> c \<noteq> CHR 0x0D) (map base64_char ?gs) = map base64_char ?gs"
    using g base64_char_plain by (simp add: filter_id_conv)
  moreover have "those (map base64_val (map base64_char ?gs)) = Some ?gs"
    by (rule those_map) (use g base64_val_char in auto)
  ultimately show ?thesis
    using bytes_groups [OF b] by (simp add: base64_decode_def base64_encode_def comp_def)
qed

lemma base64_no_dot: "CHR ''.'' \<notin> set (base64_encode s)"
proof -
  have b: "\<forall>b\<in>set (map of_char s). b < (256 :: nat)"
    by auto
  have "base64_char g \<noteq> CHR ''.''" if "g \<in> set (base64_groups (map of_char s))" for g
    using base64_char_plain [OF groups_bound [OF b that]] by simp
  then show ?thesis
    unfolding base64_encode_def set_map by (metis (no_types, lifting) imageE)
qed

lemma cut_append: "c \<notin> set a \<Longrightarrow> cut c (a @ c # b) = Some (a, b)"
  by (induction a) auto

lemma split_on_plain: "c \<notin> set s \<Longrightarrow> split_on c s = [s]"
  by (induction s) auto

lemma split_on_append: "c \<notin> set s \<Longrightarrow> split_on c (s @ c # t) = s # split_on c t"
  by (induction s) auto

lemma split_join: "ss \<noteq> [] \<Longrightarrow> \<forall>s\<in>set ss. c \<notin> set s \<Longrightarrow> split_on c (join_with [c] ss) = ss"
  by (induction "[c]" ss rule: join_with.induct) (auto simp: split_on_plain split_on_append)

text \<open>What the cursor theorems ask of the parameters and of the ids of a row.\<close>

definition plain_field :: "string \<Rightarrow> bool" where
  "plain_field s \<longleftrightarrow> cursorFieldSeparator \<notin> set s"

definition cursor_field_ok :: "cursor_lib \<Rightarrow> string \<Rightarrow> bool" where
  "cursor_field_ok lib s \<longleftrightarrow> plain_field s \<and> uuid_valid lib s"

definition time_ok :: "cursor_lib \<Rightarrow> time \<Rightarrow> bool" where
  "time_ok lib t \<longleftrightarrow> plain_field (time_format lib t) \<and> time_parse lib (time_format lib t) = Some t"

lemma decode_encode:
  assumes "plain_field owner" "time_ok lib t" "cursor_field_ok lib je" "cursor_field_ok lib p"
  shows "decodeCursor lib customerID (encodeCursor lib owner t je p) =
    (if customerID = owner then Inr (t, je, p) else Inl ErrInvalidCursor)"
proof -
  let ?p = "join_with [cursorFieldSeparator] [owner, time_format lib t, je, p]"
  have "split_on cursorFieldSeparator ?p = [owner, time_format lib t, je, p]"
    by (rule split_join) (use assms in \<open>auto simp: plain_field_def time_ok_def cursor_field_ok_def\<close>)
  moreover have "cut cursorPartSeparator (encodeCursor lib owner t je p) =
      Some (base64_encode ?p, base64_encode (hmac lib ?p))"
    using base64_no_dot [of ?p] by (simp add: encodeCursor_def Let_def cursorPartSeparator_def cut_append)
  ultimately show ?thesis
    using assms by (auto simp: decodeCursor_def base64_round_trip Let_def time_ok_def cursor_field_ok_def)
qed

text \<open>What a cursor that is accepted shows: its payload carries a valid tag and names the customer.\<close>

lemma decode_accepted:
  assumes "decodeCursor lib customerID cursor = Inr k"
  obtains a b payload where "cut cursorPartSeparator cursor = Some (a, b)"
    "base64_decode a = Some payload" "base64_decode b = Some (hmac lib payload)"
    "split_on cursorFieldSeparator payload ! 0 = customerID"
  using assms by (auto simp: decodeCursor_def Let_def split: option.splits prod.splits if_splits)

subsection \<open>Keyset pagination\<close>

text \<open>The rows a page may show: all of them, or those strictly below the last key seen.\<close>

definition below :: "('r \<Rightarrow> 'k::linorder) \<Rightarrow> 'r list \<Rightarrow> 'k option \<Rightarrow> 'r list" where
  "below key rows bound = filter (\<lambda>r. case bound of None \<Rightarrow> True | Some k \<Rightarrow> key r < k) rows"

text \<open>A client that follows the cursors, for at most the given number of pages.\<close>

fun walk :: "('c \<Rightarrow> 'r list \<times> 'c option) \<Rightarrow> nat \<Rightarrow> 'c \<Rightarrow> 'r list" where
  "walk page 0 c = []"
| "walk page (Suc f) c =
     fst (page c) @ (case snd (page c) of None \<Rightarrow> [] | Some c' \<Rightarrow> walk page f c')"

locale keyset =
  fixes key :: "'r \<Rightarrow> 'k::linorder"
    and ok :: "'s \<Rightarrow> bool"
    and rows :: "'s \<Rightarrow> 'r list"
    and page :: "'s \<Rightarrow> nat \<Rightarrow> 'k option \<Rightarrow> 'r list \<times> 'k option option"
  assumes descending: "ok s \<Longrightarrow> sorted_wrt (\<lambda>x y. key y < key x) (rows s)"
    and page_rows: "fst (page s n b) = take n (below key (rows s) b)"
    and page_next: "0 < n \<Longrightarrow> snd (page s n b) =
      (if n < length (below key (rows s) b)
       then Some (Some (key (below key (rows s) b ! (n - 1)))) else None)"
begin

lemma next_below:
  assumes "ok s" "0 < n" "n < length (below key (rows s) b)"
  shows "below key (rows s) (Some (key (below key (rows s) b ! (n - 1)))) = drop n (below key (rows s) b)"
proof -
  obtain B where B: "B = below key (rows s) b"
    by simp
  have desc: "sorted_wrt (\<lambda>x y. key y < key x) B"
    unfolding B below_def by (rule sorted_wrt_filter [OF descending [OF assms(1)]])
  have idx: "n - 1 < length B"
    using assms(2,3) B by simp
  obtain x where x: "x = B ! (n - 1)"
    by simp
  have split: "B = take (n - 1) B @ x # drop n B"
    using id_take_nth_drop [OF idx] assms(2) x by simp
  have "filter (\<lambda>r. key r < key x) (rows s) = filter (\<lambda>r. key r < key x) B"
    using nth_mem [OF idx] by (auto simp: B below_def x intro!: filter_cong split: option.splits)
  moreover have "filter (\<lambda>r. key r < key x) B = drop n B"
  proof -
    obtain ys zs where yz: "B = ys @ x # zs" "zs = drop n B"
      using split by blast
    have "\<forall>y\<in>set ys. key x < key y" "\<forall>z\<in>set zs. key z < key x"
      using desc unfolding yz(1) sorted_wrt_append by auto
    then have "filter (\<lambda>r. key r < key x) ys = []" "filter (\<lambda>r. key r < key x) zs = zs"
      by (auto simp: filter_empty_conv filter_id_conv)
    then show ?thesis
      unfolding yz(2) [symmetric] by (subst yz(1)) simp
  qed
  ultimately show ?thesis
    unfolding B [symmetric] x [symmetric] by (simp add: below_def)
qed

lemma walk_complete:
  assumes "ok s" "0 < n"
  shows "length (below key (rows s) b) \<le> f * n \<Longrightarrow> walk (page s n) f b = below key (rows s) b"
proof (induction f arbitrary: b)
  case (Suc f)
  show ?case
  proof (cases "n < length (below key (rows s) b)")
    case True
    have "length (drop n (below key (rows s) b)) \<le> f * n"
      using Suc.prems by simp
    then have "walk (page s n) f (Some (key (below key (rows s) b ! (n - 1)))) = drop n (below key (rows s) b)"
      using Suc.IH next_below [OF assms True] by simp
    then show ?thesis
      using True by (simp add: page_rows page_next assms(2))
  qed (simp add: page_rows page_next assms(2))
qed simp

end

subsection \<open>The history of a customer\<close>

definition history_join ::
    "database \<Rightarrow> uuid \<Rightarrow> (journal_entry_row \<times> posting_row \<times> account_row) list" where
  "history_join d customerID =
     [(j, p, a). j \<leftarrow> journal_entries d,
                 p \<leftarrow> filter (\<lambda>p. p_journal_entry_id p = j_id j) (postings d),
                 a \<leftarrow> filter (\<lambda>a. a_id a = p_account_id p \<and> a_customer_id a = Some customerID \<and>
                              a_type a = AccountTypeAvailable) (accounts d)]"

lemma history_rows_join: "history_rows d c = rev (sort_key history_key (history_join d c))"
  by (simp add: history_rows_def history_join_def)

lemma history_join_set:
  "(j, p, a) \<in> set (history_join d c) \<longleftrightarrow> j \<in> set (journal_entries d) \<and> p \<in> set (postings d) \<and>
     a \<in> set (accounts d) \<and> p_journal_entry_id p = j_id j \<and> a_id a = p_account_id p \<and>
     a_customer_id a = Some c \<and> a_type a = AccountTypeAvailable"
  by (auto simp: history_join_def)

lemma distinct_comp:
  assumes "distinct (map f xs)" "\<And>x. x \<in> set xs \<Longrightarrow> distinct (map k (g x))"
    and "\<And>x y a b. x \<in> set xs \<Longrightarrow> y \<in> set xs \<Longrightarrow> a \<in> set (g x) \<Longrightarrow> b \<in> set (g y) \<Longrightarrow> k a = k b \<Longrightarrow> f x = f y"
  shows "distinct (map k (concat (map g xs)))"
  using assms
proof (induction xs)
  case (Cons x xs)
  have "distinct (map k (concat (map g xs)))"
    using Cons.prems by (intro Cons.IH) auto
  moreover have "k ` set (g x) \<inter> k ` set (concat (map g xs)) = {}"
  proof (rule ccontr)
    assume "k ` set (g x) \<inter> k ` set (concat (map g xs)) \<noteq> {}"
    then obtain y a b where "y \<in> set xs" "a \<in> set (g x)" "b \<in> set (g y)" "k a = k b"
      by auto
    then have "f x = f y"
      using Cons.prems(3) [of x y a b] by simp
    then show False
      using Cons.prems(1) \<open>y \<in> set xs\<close> by auto
  qed
  ultimately show ?case
    using Cons.prems(2) by simp
qed simp

lemma history_distinct:
  assumes "schema_ok d"
  shows "distinct (map history_key (history_join d c))"
proof -
  have u: "distinct (map j_id (journal_entries d))" "distinct (map p_id (postings d))"
    "distinct (map a_id (accounts d))"
    using assms by (auto simp: schema_ok_def journal_ok_def accounts_ok_def)
  let ?as = "\<lambda>p. filter (\<lambda>a. a_id a = p_account_id p \<and> a_customer_id a = Some c \<and>
      a_type a = AccountTypeAvailable) (accounts d)"
  let ?ps = "\<lambda>j. filter (\<lambda>p. p_journal_entry_id p = j_id j) (postings d)"
  have as: "distinct (map history_key (map (\<lambda>a. (j, p, a)) (?as p)))" for j p
  proof -
    have "length (?as p) \<le> 1"
    proof (rule ccontr)
      assume "\<not> length (?as p) \<le> 1"
      then obtain a b xs where "?as p = a # b # xs"
        by (cases "?as p"; cases "tl (?as p)") auto
      moreover from this have "a \<in> set (?as p)" "b \<in> set (?as p)"
        by simp_all
      then have "a_id a = p_account_id p" "a_id b = p_account_id p"
        by auto
      moreover have "distinct (map a_id (?as p))"
        by (rule distinct_map_filter [OF u(3)])
      ultimately show False by simp
    qed
    then show ?thesis
      by (cases "?as p") auto
  qed
  have ps: "distinct (map history_key (concat (map (\<lambda>p. map (\<lambda>a. (j, p, a)) (?as p)) (?ps j))))" for j
    by (rule distinct_comp [where f = p_id]) (use as in \<open>auto simp: history_key_def distinct_map_filter [OF u(2)] simp del: map_map\<close>)
  show ?thesis
    unfolding history_join_def
    by (rule distinct_comp [where f = j_id]) (use ps in \<open>auto simp: history_key_def u(1) simp del: map_map map_concat\<close>)
qed

lemma history_descending:
  assumes "schema_ok d"
  shows "sorted_wrt (\<lambda>x y. history_key y < history_key x) (history_rows d c)"
proof -
  let ?s = "sort_key history_key (history_join d c)"
  have "distinct (map history_key ?s)"
    using history_distinct [OF assms] by (metis distinct_map distinct_sort set_sort inj_on_def)
  then have "sorted_wrt (<) (map history_key ?s)"
    by (simp add: strict_sorted_iff)
  then show ?thesis
    unfolding history_rows_join sorted_wrt_rev by (simp add: sorted_wrt_map)
qed

text \<open>A page of the code: the rows of the over-fetched query and the key the next cursor encodes.\<close>

definition history_page ::
    "database \<times> uuid \<Rightarrow> nat \<Rightarrow> history_key option \<Rightarrow>
     (journal_entry_row \<times> posting_row \<times> account_row) list \<times> history_key option option" where
  "history_page s n bound =
     (let rows = history_query (fst s) (snd s) n bound in
      (take n rows, if length rows > n then Some (Some (history_key (rows ! (n - 1)))) else None))"

interpretation hist: keyset history_key "\<lambda>s. schema_ok (fst s)" "\<lambda>s. history_rows (fst s) (snd s)" history_page
  by unfold_locales
    (auto simp: history_descending history_page_def history_query_def below_def Let_def min_def nth_take)

subsection \<open>Following the cursors\<close>

text \<open>A client that reads page after page until no cursor comes back.\<close>

fun read_history ::
    "nat \<Rightarrow> cursor_lib \<Rightarrow> uuid \<Rightarrow> int option \<Rightarrow> string \<Rightarrow> transaction list db_m" where
  "read_history 0 lib c n cursor = raise (ErrText ''too many pages'')"
| "read_history (Suc f) lib c n cursor =
     bindm (ListCustomerTransactions_Execute lib c n cursor) (\<lambda>pg.
     if tp_next_cursor pg = [] then ret (tp_transactions pg)
     else bindm (read_history f lib c n (tp_next_cursor pg)) (\<lambda>rest. ret (tp_transactions pg @ rest)))"

definition resolved_size :: "int option \<Rightarrow> nat" where
  "resolved_size n = nat (case n of None \<Rightarrow> 20 | Some k \<Rightarrow> min k 100)"

definition cursor_text :: "cursor_lib \<Rightarrow> uuid \<Rightarrow> history_key option \<Rightarrow> string" where
  "cursor_text lib c bound =
     (case bound of None \<Rightarrow> [] | Some (t, je, p) \<Rightarrow> encodeCursor lib c t je p)"

definition readable :: "cursor_lib \<Rightarrow> database \<Rightarrow> bool" where
  "readable lib d \<longleftrightarrow>
     (\<forall>j\<in>set (journal_entries d). cursor_field_ok lib (j_id j) \<and> time_ok lib (j_created_at j)) \<and>
     (\<forall>p\<in>set (postings d). cursor_field_ok lib (p_id p))"

lemma cursor_not_empty: "encodeCursor lib c t je p \<noteq> []"
  by (simp add: encodeCursor_def Let_def)

lemma list_run:
  assumes "outcomes w = []" "c \<in> c_id ` set (customers (db w))" "plain_field c" "readable lib (db w)"
    and "bound = None \<or> (\<exists>x\<in>set (history_rows (db w) c). bound = Some (history_key x))" "0 < n"
  shows "ListCustomerTransactions lib c n (cursor_text lib c bound) w =
    (Inr \<lparr>tp_transactions = map (fst \<circ> pagedTransaction) (fst (history_page (db w, c) n bound)),
          tp_next_cursor = (case snd (history_page (db w, c) n bound) of None \<Rightarrow> []
            | Some b \<Rightarrow> cursor_text lib c b)\<rparr>, w)"
proof -
  have d: "(if cursor_text lib c bound = [] then ret None
            else lift_result (case decodeCursor lib c (cursor_text lib c bound) of
              Inl e \<Rightarrow> Inl e | Inr k \<Rightarrow> Inr (Some k))) w = (Inr bound, w)"
  proof (cases bound)
    case (Some k)
    then obtain j p a where x: "(j, p, a) \<in> set (history_rows (db w) c)" "k = history_key (j, p, a)"
      using assms(5) by auto
    then have "j \<in> set (journal_entries (db w))" "p \<in> set (postings (db w))"
      by (auto simp: history_rows_join history_join_set)
    then have "decodeCursor lib c (encodeCursor lib c (j_created_at j) (j_id j) (p_id p)) =
        Inr (j_created_at j, j_id j, p_id p)"
      using assms(3,4) by (simp add: decode_encode readable_def)
    then show ?thesis
      using Some x cursor_not_empty by (simp add: cursor_text_def history_key_def lift_result_run)
  qed (simp add: cursor_text_def)
  show ?thesis
  proof (cases "n < length (history_query (db w) c n bound)")
    case True
    obtain j p a where x: "history_query (db w) c n bound ! (n - 1) = (j, p, a)"
      by (metis prod_cases3)
    show ?thesis
      unfolding ListCustomerTransactions_def
      using assms(1,2) d True x assms(6)
      by (simp add: bindm_def query_run history_page_def Let_def pagedTransaction_def take_map nth_map
          cursor_text_def history_key_def comp_def)
  next
    case False
    then show ?thesis
      unfolding ListCustomerTransactions_def
      using assms(1,2) d by (simp add: bindm_def query_run history_page_def Let_def comp_def)
  qed
qed

lemma execute_resolved:
  assumes "case sz of None \<Rightarrow> True | Some k \<Rightarrow> 0 < k"
  shows "ListCustomerTransactions_Execute lib c sz cursor = ListCustomerTransactions lib c (resolved_size sz) cursor"
    and "0 < resolved_size sz"
  using assms by (auto simp: ListCustomerTransactions_Execute_def resolved_size_def
      defaultTransactionPageSize_def maxTransactionPageSize_def min_def split: option.splits)

lemma below_subset: "set (below key rows b) \<subseteq> set rows"
  by (auto simp: below_def)

lemma read_history_walk:
  assumes "schema_ok (db w)" "outcomes w = []" "c \<in> c_id ` set (customers (db w))" "plain_field c"
    and "readable lib (db w)" "case sz of None \<Rightarrow> True | Some k \<Rightarrow> 0 < k"
  shows "bound = None \<or> (\<exists>x\<in>set (history_rows (db w) c). bound = Some (history_key x)) \<Longrightarrow> 0 < f \<Longrightarrow>
    length (below history_key (history_rows (db w) c) bound) \<le> f * resolved_size sz \<Longrightarrow>
    read_history f lib c sz (cursor_text lib c bound) w =
      (Inr (map (fst \<circ> pagedTransaction) (walk (history_page (db w, c) (resolved_size sz)) f bound)), w)"
proof (induction f arbitrary: bound)
  case (Suc f)
  let ?n = "resolved_size sz" and ?s = "(db w, c)"
  let ?B = "below history_key (history_rows (db w) c) bound"
  have n: "0 < ?n"
    using execute_resolved(2) [OF assms(6)] .
  note run = list_run [OF assms(2-5) Suc.prems(1) n]
  note exec = execute_resolved(1) [OF assms(6)]
  show ?case
  proof (cases "?n < length ?B")
    case True
    let ?k = "history_key (?B ! (?n - 1))"
    have nxt: "snd (history_page ?s ?n bound) = Some (Some ?k)"
      using hist.page_next [OF n, of ?s bound] True by simp
    have rest: "below history_key (history_rows (db w) c) (Some ?k) = drop ?n ?B"
      using hist.next_below [of ?s ?n bound] assms(1) n True by simp
    have "?B ! (?n - 1) \<in> set (history_rows (db w) c)"
      using below_subset nth_mem [of "?n - 1" ?B] True by fastforce
    then have k: "Some ?k = None \<or> (\<exists>x\<in>set (history_rows (db w) c). Some ?k = Some (history_key x))"
      by blast
    have "0 < f"
      using Suc.prems(3) True by (cases f) auto
    moreover have "length (drop ?n ?B) \<le> f * ?n"
      using Suc.prems(3) by simp
    ultimately have "read_history f lib c sz (cursor_text lib c (Some ?k)) w =
        (Inr (map (fst \<circ> pagedTransaction) (walk (history_page ?s ?n) f (Some ?k))), w)"
      using Suc.IH [OF k] rest by simp
    moreover have "cursor_text lib c (Some ?k) \<noteq> []"
      using cursor_not_empty by (simp add: cursor_text_def split: prod.split)
    ultimately show ?thesis
      by (simp add: exec bindm_def run nxt)
  next
    case False
    then have "snd (history_page ?s ?n bound) = None"
      using hist.page_next [OF n, of ?s bound] by simp
    then show ?thesis
      by (simp add: exec bindm_def run)
  qed
qed simp

lemma below_None: "below key rows None = rows"
  by (simp add: below_def)

subsection \<open>Properties\<close>

text \<open>C23: a page cursor decodes, for the customer it was made for, to exactly the position it was
  made from, and for every other customer to an error; and whatever string is accepted carries the
  tag of its payload under the repository's key and names the customer who presents it.\<close>

theorem cursor_round_trip:
  assumes "plain_field owner" "time_ok lib t" "cursor_field_ok lib je" "cursor_field_ok lib p"
  shows "decodeCursor lib owner (encodeCursor lib owner t je p) = Inr (t, je, p) \<and>
    (\<forall>other. other \<noteq> owner \<longrightarrow> decodeCursor lib other (encodeCursor lib owner t je p) = Inl ErrInvalidCursor) \<and>
    (\<forall>customerID cursor k. decodeCursor lib customerID cursor = Inr k \<longrightarrow>
       (\<exists>a b payload. cut cursorPartSeparator cursor = Some (a, b) \<and> base64_decode a = Some payload \<and>
          base64_decode b = Some (hmac lib payload) \<and>
          split_on cursorFieldSeparator payload ! 0 = customerID))"
proof -
  have "\<exists>a b payload. cut cursorPartSeparator cursor = Some (a, b) \<and> base64_decode a = Some payload \<and>
      base64_decode b = Some (hmac lib payload) \<and> split_on cursorFieldSeparator payload ! 0 = customerID"
    if "decodeCursor lib customerID cursor = Inr k" for customerID cursor k
    using decode_accepted [OF that] by metis
  then show ?thesis
    using decode_encode [OF assms] by auto
qed

definition sample_cursor_lib :: cursor_lib where
  "sample_cursor_lib =
     \<lparr>hmac = (\<lambda>s. rev s), time_format = (\<lambda>t. replicate (nat t) (CHR ''t'')),
      time_parse = (\<lambda>s. Some (int (length s))), uuid_valid = (\<lambda>s. s \<noteq> [])\<rparr>"

theorem cursor_round_trip_witness:
  "decodeCursor sample_cursor_lib alice (encodeCursor sample_cursor_lib alice 5 ''je1'' ''p1'') =
     Inr (5, ''je1'', ''p1'') \<and>
   decodeCursor sample_cursor_lib bob (encodeCursor sample_cursor_lib alice 5 ''je1'' ''p1'') =
     Inl ErrInvalidCursor"
proof -
  have ok: "plain_field alice" "time_ok sample_cursor_lib 5" "cursor_field_ok sample_cursor_lib ''je1''"
    "cursor_field_ok sample_cursor_lib ''p1''" "bob \<noteq> alice"
    by code_simp+
  show ?thesis
    using cursor_round_trip [OF ok(1-4)] ok(5) by blast
qed

text \<open>C24: a client that follows the page cursors from the first page on, with any page size, gets
  the whole history of the customer: one transaction per posting on an available account of the
  customer, each exactly once, newest first by (creation time, entry, posting); and it is done after
  as many pages as the page size needs.\<close>

theorem history_complete:
  assumes "schema_ok (db w)" "outcomes w = []" "c \<in> c_id ` set (customers (db w))" "plain_field c"
    and "readable lib (db w)" "case sz of None \<Rightarrow> True | Some k \<Rightarrow> 0 < k"
    and "0 < f" "length (history_rows (db w) c) \<le> f * resolved_size sz"
  shows "read_history f lib c sz [] w = (Inr (map (fst \<circ> pagedTransaction) (history_rows (db w) c)), w) \<and>
    sorted_wrt (\<lambda>x y. history_key y < history_key x) (history_rows (db w) c) \<and>
    (\<forall>j p a. (j, p, a) \<in> set (history_rows (db w) c) \<longleftrightarrow>
       j \<in> set (journal_entries (db w)) \<and> p \<in> set (postings (db w)) \<and> a \<in> set (accounts (db w)) \<and>
       p_journal_entry_id p = j_id j \<and> a_id a = p_account_id p \<and> a_customer_id a = Some c \<and>
       a_type a = AccountTypeAvailable)"
proof -
  have "walk (history_page (db w, c) (resolved_size sz)) f None = history_rows (db w) c"
    using hist.walk_complete [of "(db w, c)" "resolved_size sz" None f] assms(1,8)
      execute_resolved(2) [OF assms(6)] by (simp add: below_None)
  then show ?thesis
    using read_history_walk [OF assms(1-6), of None f] assms(7,8) history_descending [OF assms(1), of c]
    by (simp add: below_None cursor_text_def history_rows_join history_join_set)
qed

definition sample_history :: database where
  "sample_history =
     posted sample ''je2'' ''p3'' ''p4'' ''internal_transfer'' ''k1'' ''A-av-baseeth'' ''B-av-baseeth'' 100 4"

theorem history_complete_witness:
  "read_history 2 sample_cursor_lib alice (Some 1) [] (sample_world sample_history) =
     (Inr (map (fst \<circ> pagedTransaction) (history_rows sample_history alice)), sample_world sample_history) \<and>
   map (tn_amount \<circ> fst \<circ> pagedTransaction) (history_rows sample_history alice) = [-100, 1000]"
proof -
  have "schema_ok sample_history" "alice \<in> c_id ` set (customers sample_history)" "plain_field alice"
    "readable sample_cursor_lib sample_history" "length (history_rows sample_history alice) \<le> 2 * resolved_size (Some 1)"
    "map (tn_amount \<circ> fst \<circ> pagedTransaction) (history_rows sample_history alice) = [-100, 1000]"
    by code_simp+
  then show ?thesis
    using history_complete [of "sample_world sample_history" alice sample_cursor_lib "Some 1" 2]
    by (simp add: sample_world_def del: read_history.simps)
qed

end
