(* ===== verification/Endpoints.thy ===== *)
theory Endpoints
  imports Http Customers Transfers Broadcast History
begin

text \<open>
  The endpoints of the api process: the handlers of \<^verbatim>\<open>api/customers.go\<close>, \<^verbatim>\<open>api/transfers.go\<close>,
  \<^verbatim>\<open>api/withdrawals.go\<close>, \<^verbatim>\<open>api/transactions.go\<close>, \<^verbatim>\<open>api/deposits.go\<close>, \<^verbatim>\<open>api/fee_estimate.go\<close> and
  \<^verbatim>\<open>api/unsupported_token_observations.go\<close>, the parameter binding and the routes of
  \<^verbatim>\<open>api/server.gen.go\<close>, and the chain of middlewares \<^verbatim>\<open>runAPI\<close> of \<^verbatim>\<open>cmd/walletd/main.go\<close> builds.
\<close>

subsection \<open>Decimal text of an integer\<close>

text \<open>\<^verbatim>\<open>(*big.Int).String\<close>.\<close>

fun nat_text :: "nat \<Rightarrow> string" where
  "nat_text n = (if n < 10 then [char_of (48 + n)] else nat_text (n div 10) @ [char_of (48 + n mod 10)])"

declare nat_text.simps [simp del]

definition int_text :: "int \<Rightarrow> string" where
  "int_text x = (if x < 0 then CHR ''-'' # nat_text (nat (- x)) else nat_text (nat x))"

definition big_text :: "int option \<Rightarrow> string" where
  "big_text x = (case x of None \<Rightarrow> ''<nil>'' | Some v \<Rightarrow> int_text v)"

subsection \<open>Answering\<close>

text \<open>A use case that returns an error lets its handler answer; a panic unwinds through it.\<close>

definition attempt :: "'a db_m \<Rightarrow> (error + 'a) db_m" where
  "attempt c = (\<lambda>w. case c w of
       (Inl e, w') \<Rightarrow> if e = ErrText ''nil pointer'' then (Inl e, w') else (Inr (Inl e), w')
     | (Inr a, w') \<Rightarrow> (Inr (Inr a), w'))"

definition respond :: "http_lib \<Rightarrow> int \<Rightarrow> jval \<Rightarrow> recorder \<Rightarrow> recorder" where
  "respond lib status body r =
     Write (json_encode lib body) (WriteHeader status (SetContentType ''application/json'' r))"

definition problem ::
    "http_lib \<Rightarrow> http_request \<Rightarrow> recorder \<Rightarrow> int \<times> string \<times> string \<Rightarrow> recorder db_m" where
  "problem lib req r p =
     (case p of (status, title, detail) \<Rightarrow> ret (WriteProblem lib status title detail (rq_path req) r))"

definition uuid_nil :: string where
  "uuid_nil = ''00000000-0000-0000-0000-000000000000''"

definition request_bytes :: "http_request \<Rightarrow> string option" where
  "request_bytes req = (case rq_body req of Body b \<Rightarrow> Some b | BrokenBody \<Rightarrow> None)"

definition decode_body :: "(string \<Rightarrow> 'a option) \<Rightarrow> http_request \<Rightarrow> 'a option" where
  "decode_body decode req = (case request_bytes req of None \<Rightarrow> None | Some b \<Rightarrow> decode b)"

definition chain_valid :: "string \<Rightarrow> bool" where
  "chain_valid c \<longleftrightarrow> c = ChainArbitrum \<or> c = ChainBase"

definition asset_valid :: "string \<Rightarrow> bool" where
  "asset_valid a \<longleftrightarrow> a = AssetETH \<or> a = AssetUSDC"

subsection \<open>customers.go\<close>

definition customer_json :: "http_lib \<Rightarrow> customer \<Rightarrow> byte list \<Rightarrow> jval" where
  "customer_json lib c i =
     JObj [(''createdAt'', JTime (cu_created_at c)), (''depositAddress'', JStr (cu_deposit_address c)),
       (''id'', JStr (uuid_text lib i))]"

definition CreateCustomer_handler :: "http_lib \<Rightarrow> (byte list \<Rightarrow> error + address) \<Rightarrow> handler" where
  "CreateCustomer_handler lib derive req r =
     bindm (attempt (CreateCustomer_Execute (uuid_parse lib) derive)) (\<lambda>res.
     (case res of
        Inl e \<Rightarrow> problem lib req r (500, ''customer-creation-failed'', error_text lib e)
      | Inr c \<Rightarrow>
          (case uuid_parse lib (cu_id c) of
             None \<Rightarrow> problem lib req r (500, ''invalid-customer-id'', error_text lib ErrUUID)
           | Some i \<Rightarrow> ret (respond lib 201 (customer_json lib c i) r))))"

definition GetCustomer_handler :: "http_lib \<Rightarrow> uuid \<Rightarrow> handler" where
  "GetCustomer_handler lib i req r =
     bindm (attempt (GetCustomer i)) (\<lambda>res.
     (case res of
        Inl e \<Rightarrow>
          if e = ErrCustomerNotFound then problem lib req r (404, ''customer-not-found'', error_text lib e)
          else problem lib req r (500, ''get-customer-failed'', error_text lib e)
      | Inr c \<Rightarrow>
          (case uuid_parse lib (cu_id c) of
             None \<Rightarrow> problem lib req r (500, ''invalid-customer-id'', error_text lib ErrUUID)
           | Some u \<Rightarrow> ret (respond lib 200 (customer_json lib c u) r))))"

definition balance_json :: "account_balance \<Rightarrow> jval" where
  "balance_json b =
     JObj [(''asset'', JStr (ab_asset b)), (''balance'', JStr (int_text (ab_balance b))),
       (''chain'', JStr (ab_chain b))]"

definition GetCustomerBalances_handler :: "http_lib \<Rightarrow> uuid \<Rightarrow> handler" where
  "GetCustomerBalances_handler lib i req r =
     bindm (attempt (CustomerBalances i)) (\<lambda>res.
     (case res of
        Inl e \<Rightarrow>
          if e = ErrCustomerNotFound then problem lib req r (404, ''customer-not-found'', error_text lib e)
          else problem lib req r (500, ''get-balances-failed'', error_text lib e)
      | Inr bs \<Rightarrow> ret (respond lib 200 (JObj [(''balances'', JList (map balance_json bs))]) r)))"

subsection \<open>transfers.go\<close>

definition transfer_problem :: "http_lib \<Rightarrow> error \<Rightarrow> int \<times> string \<times> string" where
  "transfer_problem lib e =
     (if e = ErrSelfTransfer then (400, ''self-transfer-not-allowed'', error_text lib e)
      else if e = ErrNonPositiveAmount then (400, ''invalid-amount'', error_text lib e)
      else if e = ErrCustomerNotFound then (404, ''customer-not-found'', error_text lib e)
      else if e = ErrInsufficientBalance then (422, ''insufficient-balance'', error_text lib e)
      else if e = ErrDuplicateTransferCause then (409, ''duplicate-transfer-cause'', error_text lib e)
      else (500, ''transfer-failed'', error_text lib e))"

definition transfer_json :: "http_lib \<Rightarrow> transfer \<Rightarrow> byte list \<Rightarrow> byte list \<Rightarrow> byte list \<Rightarrow> jval" where
  "transfer_json lib t i src dst =
     JObj [(''amount'', JStr (int_text (tf_amount t))), (''asset'', JStr (tf_asset t)),
       (''chain'', JStr (tf_chain t)), (''createdAt'', JTime (tf_created_at t)),
       (''destinationCustomerId'', JStr (uuid_text lib dst)), (''id'', JStr (uuid_text lib i)),
       (''sourceCustomerId'', JStr (uuid_text lib src))]"

text \<open>The checks of the body before the use case runs.\<close>

definition transfer_request_of ::
    "http_lib \<Rightarrow> http_request \<Rightarrow> string \<Rightarrow> (int \<times> string \<times> string) + transfer_request" where
  "transfer_request_of lib req key =
     (case decode_body (decode_transfer lib) req of
        None \<Rightarrow> Inl (400, ''invalid-transfer-request'', ''request body could not be decoded as JSON'')
      | Some b \<Rightarrow>
          if tb_source b = uuid_nil \<or> tb_destination b = uuid_nil
          then Inl (400, ''invalid-transfer-request'', ''sourceCustomerId and destinationCustomerId are required'')
          else if \<not> chain_valid (tb_chain b) \<or> \<not> asset_valid (tb_asset b)
          then Inl (400, ''invalid-chain-or-asset'', ''chain and asset must be supported enum values'')
          else (case parse_int10 (tb_amount b) of
              None \<Rightarrow> Inl (400, ''invalid-amount'', ''amount must be a base-10 integer string'')
            | Some amount \<Rightarrow> Inr \<lparr>tr_source = tb_source b, tr_destination = tb_destination b,
                tr_chain = tb_chain b, tr_asset = tb_asset b, tr_amount = Some amount,
                tr_idempotency_key = key\<rparr>))"

definition CreateTransfer_handler :: "http_lib \<Rightarrow> string \<Rightarrow> handler" where
  "CreateTransfer_handler lib key req r =
     (case transfer_request_of lib req key of
        Inl p \<Rightarrow> problem lib req r p
      | Inr treq \<Rightarrow>
     bindm (attempt (CreateTransfer_Execute treq)) (\<lambda>res.
     (case res of
        Inl e \<Rightarrow> problem lib req r (transfer_problem lib e)
      | Inr t \<Rightarrow>
     (case uuid_parse lib (tf_source t) of
        None \<Rightarrow> problem lib req r (500, ''invalid-customer-id'', error_text lib ErrUUID)
      | Some src \<Rightarrow>
     (case uuid_parse lib (tf_destination t) of
        None \<Rightarrow> problem lib req r (500, ''invalid-customer-id'', error_text lib ErrUUID)
      | Some dst \<Rightarrow>
     (case uuid_parse lib (tf_id t) of
        None \<Rightarrow> problem lib req r (500, ''invalid-transfer-id'', error_text lib ErrUUID)
      | Some i \<Rightarrow> ret (respond lib 201 (transfer_json lib t i src dst) r)))))))"

subsection \<open>withdrawals.go\<close>

definition withdrawal_problem :: "http_lib \<Rightarrow> error \<Rightarrow> int \<times> string \<times> string" where
  "withdrawal_problem lib e =
     (if e = ErrNonPositiveAmount then (400, ''invalid-amount'', ''amount must be a positive integer'')
      else if e = ErrAmountTooLarge
      then (400, ''invalid-amount'', ''amount exceeds the maximum representable on-chain value'')
      else if e = ErrMalformedDestinationAddress
      then (400, ''invalid-destination-address'', error_text lib e)
      else if e = ErrInvalidDestinationAddress
      then (400, ''denylisted-destination-address'', error_text lib e)
      else if e = ErrCustomerNotFound then (404, ''customer-not-found'', error_text lib e)
      else if e = ErrInsufficientBalance then (422, ''insufficient-balance'', error_text lib e)
      else if e = ErrInsufficientBalanceForFee
      then (422, ''insufficient-balance-for-fee'', error_text lib e)
      else if e = ErrDuplicateWithdrawalCause
      then (409, ''duplicate-withdrawal-cause'', error_text lib e)
      else (500, ''withdrawal-failed'', ''failed to process withdrawal request''))"

definition withdrawal_json :: "http_lib \<Rightarrow> withdrawal \<Rightarrow> byte list \<Rightarrow> byte list \<Rightarrow> jval" where
  "withdrawal_json lib x i c =
     JObj ([(''amount'', JStr (int_text (wi_amount x)))] @
       (if wi_approval_reason x \<noteq> [] then [(''approvalReason'', JStr (wi_approval_reason x))] else []) @
       (case wi_approved_at x of None \<Rightarrow> [] | Some t \<Rightarrow> [(''approvedAt'', JTime t)]) @
       (if wi_approved_by x \<noteq> [] then [(''approvedBy'', JStr (wi_approved_by x))] else []) @
       [(''asset'', JStr (wi_asset x)), (''chain'', JStr (wi_chain x)),
        (''createdAt'', JTime (wi_created_at x)), (''customerId'', JStr (uuid_text lib c)),
        (''destinationAddress'', JStr (wi_destination_address x)), (''id'', JStr (uuid_text lib i)),
        (''status'', JStr (status_text (wi_status x)))])"

definition toWithdrawalResponse :: "http_lib \<Rightarrow> withdrawal \<Rightarrow> jval option" where
  "toWithdrawalResponse lib x =
     (case uuid_parse lib (wi_id x) of
        None \<Rightarrow> None
      | Some i \<Rightarrow>
     (case uuid_parse lib (wi_customer_id x) of
        None \<Rightarrow> None
      | Some c \<Rightarrow> Some (withdrawal_json lib x i c)))"

definition withdrawal_request_of ::
    "http_lib \<Rightarrow> http_request \<Rightarrow> string \<Rightarrow> (int \<times> string \<times> string) + withdrawal_request" where
  "withdrawal_request_of lib req key =
     (case decode_body (decode_withdrawal lib) req of
        None \<Rightarrow> Inl (400, ''invalid-withdrawal-request'', ''request body could not be decoded as JSON'')
      | Some b \<Rightarrow>
          if wb_customer_id b = uuid_nil
          then Inl (400, ''invalid-withdrawal-request'', ''customerId is required'')
          else if \<not> chain_valid (wb_chain b) \<or> \<not> asset_valid (wb_asset b)
          then Inl (400, ''invalid-chain-or-asset'', ''chain and asset must be supported enum values'')
          else (case parse_int10 (wb_amount b) of
              None \<Rightarrow> Inl (400, ''invalid-amount'', ''amount must be a base-10 integer string'')
            | Some amount \<Rightarrow> Inr \<lparr>wr_customer_id = wb_customer_id b, wr_chain = wb_chain b,
                wr_asset = wb_asset b, wr_amount = Some amount,
                wr_destination_address = wb_destination_address b, wr_idempotency_key = key\<rparr>))"

definition CreateWithdrawal_handler :: "http_lib \<Rightarrow> fee_estimator \<Rightarrow> string \<Rightarrow> handler" where
  "CreateWithdrawal_handler lib estimate key req r =
     (case withdrawal_request_of lib req key of
        Inl p \<Rightarrow> problem lib req r p
      | Inr wreq \<Rightarrow>
     bindm (attempt (CreateWithdrawal_Execute estimate wreq)) (\<lambda>res.
     (case res of
        Inl e \<Rightarrow> problem lib req r (withdrawal_problem lib e)
      | Inr x \<Rightarrow>
     (case toWithdrawalResponse lib x of
        None \<Rightarrow> problem lib req r (500, ''invalid-withdrawal-id'', ''failed to process withdrawal request'')
      | Some body \<Rightarrow> ret (respond lib 201 body r)))))"

definition approve_problem :: "http_lib \<Rightarrow> error \<Rightarrow> int \<times> string \<times> string" where
  "approve_problem lib e =
     (if e = ErrMissingApprovalActor then (400, ''missing-approval-actor'', error_text lib e)
      else if e = ErrMissingApprovalReason then (400, ''missing-approval-reason'', error_text lib e)
      else if e = ErrWithdrawalNotFound then (404, ''withdrawal-not-found'', error_text lib e)
      else if e = ErrWithdrawalNotAwaitingApproval
      then (409, ''withdrawal-not-awaiting-approval'', error_text lib e)
      else (500, ''approve-withdrawal-failed'', ''failed to process approve withdrawal request''))"

definition ApproveWithdrawal_handler :: "http_lib \<Rightarrow> uuid \<Rightarrow> handler" where
  "ApproveWithdrawal_handler lib i req r =
     (case decode_body (decode_approve lib) req of
        None \<Rightarrow> problem lib req r
          (400, ''invalid-approve-withdrawal-request'', ''request body could not be decoded as JSON'')
      | Some b \<Rightarrow>
     bindm (attempt (ApproveWithdrawal_Execute i (ap_actor b) (ap_reason b))) (\<lambda>res.
     (case res of
        Inl e \<Rightarrow> problem lib req r (approve_problem lib e)
      | Inr x \<Rightarrow>
     (case toWithdrawalResponse lib x of
        None \<Rightarrow> problem lib req r
          (500, ''invalid-withdrawal-id'', ''failed to process approve withdrawal request'')
      | Some body \<Rightarrow> ret (respond lib 200 body r)))))"

subsection \<open>fee\_estimate.go\<close>

definition fee_problem :: "error \<Rightarrow> int \<times> string \<times> string" where
  "fee_problem e =
     (if e = ErrNonPositiveAmount then (400, ''invalid-amount'', ''amount must be a positive integer'')
      else if e = ErrAmountTooLarge
      then (400, ''invalid-amount'', ''amount exceeds the maximum representable on-chain value'')
      else (500, ''fee-estimate-failed'', ''failed to compute fee estimate''))"

definition GetWithdrawalFeeEstimate_handler ::
    "http_lib \<Rightarrow> fee_estimator \<Rightarrow> string \<Rightarrow> string \<Rightarrow> string \<Rightarrow> handler" where
  "GetWithdrawalFeeEstimate_handler lib estimate ch a amountText req r =
     (if \<not> chain_valid ch
      then problem lib req r (400, ''invalid-chain'', ''chain must be a supported enum value'')
      else if \<not> asset_valid a
      then problem lib req r (400, ''invalid-asset'', ''asset must be a supported enum value'')
      else (case parse_int10 amountText of
          None \<Rightarrow> problem lib req r (400, ''invalid-amount'', ''amount must be a base-10 integer string'')
        | Some amount \<Rightarrow>
     (case EstimateFee_Execute estimate ch a (Some amount) of
        Inl e \<Rightarrow> problem lib req r (fee_problem e)
      | Inr fe \<Rightarrow> ret (respond lib 200 (JObj [(''l1Fee'', JStr (big_text (fe_l1 fe))),
          (''l2Fee'', JStr (big_text (fe_l2 fe))), (''totalFee'', JStr (big_text (fe_total fe)))]) r))))"

subsection \<open>transactions.go, deposits.go, unsupported\_token\_observations.go\<close>

definition transaction_json :: "http_lib \<Rightarrow> transaction \<Rightarrow> jval option" where
  "transaction_json lib t =
     map_option (\<lambda>i. JObj [(''amount'', JStr (int_text (tn_amount t))), (''asset'', JStr (tn_asset t)),
         (''chain'', JStr (tn_chain t)), (''createdAt'', JTime (tn_created_at t)),
         (''id'', JStr (uuid_text lib i)), (''status'', JStr (tn_status t)), (''type'', JStr (tn_type t))])
       (uuid_parse lib (tn_id t))"

definition ListCustomerTransactions_handler ::
    "http_lib \<Rightarrow> cursor_lib \<Rightarrow> uuid \<Rightarrow> string option \<Rightarrow> int option \<Rightarrow> handler" where
  "ListCustomerTransactions_handler lib clib i cursorParam pageSize req r =
     (let cursor = (case cursorParam of None \<Rightarrow> [] | Some c \<Rightarrow> c) in
     bindm (attempt (ListCustomerTransactions_Execute clib i pageSize cursor)) (\<lambda>res.
     (case res of
        Inl e \<Rightarrow> problem lib req r
          (if e = ErrCustomerNotFound then (404, ''customer-not-found'', error_text lib e)
           else if e = ErrInvalidCursor then (400, ''invalid-cursor'', error_text lib e)
           else if e = ErrInvalidPageSize then (400, ''invalid-page-size'', error_text lib e)
           else (500, ''list-transactions-failed'', error_text lib e))
      | Inr page \<Rightarrow>
     (case those (map (transaction_json lib) (tp_transactions page)) of
        None \<Rightarrow> problem lib req r (500, ''invalid-transaction-id'', error_text lib ErrUUID)
      | Some ts \<Rightarrow> ret (respond lib 200 (JObj
          ((if tp_next_cursor page \<noteq> [] then [(''nextCursor'', JStr (tp_next_cursor page))] else []) @
           [(''transactions'', JList ts)])) r)))))"

definition deposit_state_text :: "deposit_state \<Rightarrow> string" where
  "deposit_state_text s =
     (case s of DepositObserved \<Rightarrow> ''observed'' | DepositSafe \<Rightarrow> ''safe''
      | DepositFinalized \<Rightarrow> ''finalized'' | DepositOrphaned \<Rightarrow> ''orphaned''
      | DepositCredited \<Rightarrow> ''credited'')"

definition deposit_json :: "http_lib \<Rightarrow> deposit \<Rightarrow> jval option" where
  "deposit_json lib x =
     map_option (\<lambda>i. JObj [(''amount'', JStr (int_text (de_amount x))), (''asset'', JStr (de_asset x)),
         (''chain'', JStr (de_chain x)), (''id'', JStr (uuid_text lib i)),
         (''observedAt'', JTime (de_observed_at x)),
         (''status'', JStr (if de_state x = DepositOrphaned then ''orphaned'' else ''pending'')),
         (''tier'', JStr (deposit_state_text (de_state x))), (''txHash'', JStr (de_tx_hash x))])
       (uuid_parse lib (de_id x))"

definition GetCustomerDeposits_handler :: "http_lib \<Rightarrow> uuid \<Rightarrow> handler" where
  "GetCustomerDeposits_handler lib i req r =
     bindm (attempt (ListCustomerDeposits i)) (\<lambda>res.
     (case res of
        Inl e \<Rightarrow>
          if e = ErrCustomerNotFound then problem lib req r (404, ''customer-not-found'', error_text lib e)
          else problem lib req r (500, ''get-deposits-failed'', error_text lib e)
      | Inr ds \<Rightarrow>
     (case those (map (deposit_json lib) ds) of
        None \<Rightarrow> problem lib req r (500, ''invalid-deposit-id'', error_text lib ErrUUID)
      | Some js \<Rightarrow> ret (respond lib 200 (JObj [(''deposits'', JList js)]) r))))"

definition observation_json :: "http_lib \<Rightarrow> unsupported_token_observation \<Rightarrow> jval option" where
  "observation_json lib u =
     map_option (\<lambda>i. JObj [(''amount'', JStr (int_text (ut_amount u))),
         (''blockNumber'', JNum (sint (ut_block_number u))), (''chain'', JStr (ut_chain u)),
         (''contractAddress'', JStr (ut_contract_address u)), (''depositAddress'', JStr (ut_address u)),
         (''id'', JStr (uuid_text lib i)), (''observedAt'', JTime (ut_observed_at u)),
         (''txHash'', JStr (ut_tx_hash u))])
       (uuid_parse lib (ut_id u))"

definition GetUnsupportedTokenObservations_handler :: "http_lib \<Rightarrow> handler" where
  "GetUnsupportedTokenObservations_handler lib req r =
     bindm (attempt ListObservations) (\<lambda>res.
     (case res of
        Inl e \<Rightarrow> problem lib req r
          (500, ''list-unsupported-token-observations-failed'', error_text lib e)
      | Inr us \<Rightarrow>
     (case those (map (observation_json lib) us) of
        None \<Rightarrow> problem lib req r (500, ''invalid-observation-id'', error_text lib ErrUUID)
      | Some js \<Rightarrow> ret (respond lib 200 (JObj [(''observations'', JList js)]) r))))"

subsection \<open>Binding and routing (server.gen.go)\<close>

text \<open>\<^verbatim>\<open>ErrorHandlerFunc\<close> of \<^verbatim>\<open>main.go\<close> and the errors of \<^verbatim>\<open>server.gen.go\<close> it prints.\<close>

definition bind_failed :: "http_lib \<Rightarrow> http_request \<Rightarrow> recorder \<Rightarrow> string \<Rightarrow> recorder db_m" where
  "bind_failed lib req r message = problem lib req r (400, ''invalid-request'', message)"

definition InvalidParamFormatError :: "string \<Rightarrow> string \<Rightarrow> string" where
  "InvalidParamFormatError param e = ''Invalid format for parameter '' @ param @ '': '' @ e"

definition TooManyValuesForParamError :: "string \<Rightarrow> nat \<Rightarrow> string" where
  "TooManyValuesForParamError param n =
     ''Expected one value for '' @ param @ '', got '' @ nat_text n"

definition RequiredHeaderError :: "string \<Rightarrow> string" where
  "RequiredHeaderError param = ''Header parameter '' @ param @ '' is required, but not found''"

definition RequiredParamError :: "string \<Rightarrow> string" where
  "RequiredParamError param = ''Query argument '' @ param @ '' is required, but not found''"

definition with_key :: "http_lib \<Rightarrow> (string \<Rightarrow> handler) \<Rightarrow> handler" where
  "with_key lib h req r =
     (case rq_idempotency_keys req of
        [] \<Rightarrow> bind_failed lib req r (RequiredHeaderError ''Idempotency-Key'')
      | v # vs \<Rightarrow>
          if length (v # vs) \<noteq> 1
          then bind_failed lib req r (TooManyValuesForParamError ''Idempotency-Key'' (length (v # vs)))
          else (case bind_header lib v of
              Inl e \<Rightarrow> bind_failed lib req r (InvalidParamFormatError ''Idempotency-Key'' e)
            | Inr key \<Rightarrow> h key req r))"

definition with_id :: "http_lib \<Rightarrow> string \<Rightarrow> (uuid \<Rightarrow> handler) \<Rightarrow> handler" where
  "with_id lib v h req r =
     (case bind_path_uuid lib v of
        Inl e \<Rightarrow> bind_failed lib req r (InvalidParamFormatError ''id'' e)
      | Inr i \<Rightarrow> h i req r)"

definition with_query ::
    "http_lib \<Rightarrow> string \<Rightarrow> (string list \<Rightarrow> bind_error + 'a) \<Rightarrow> ('a \<Rightarrow> handler) \<Rightarrow> handler" where
  "with_query lib param bind h req r =
     (case bind (rq_query req param) of
        Inl MissingParam \<Rightarrow> bind_failed lib req r (RequiredParamError param)
      | Inl (BadParam e) \<Rightarrow> bind_failed lib req r (InvalidParamFormatError param e)
      | Inr v \<Rightarrow> h v req r)"

text \<open>What the handlers of a deployment are connected to.\<close>

record deployment =
  dp_lib :: http_lib
  dp_cursors :: cursor_lib
  dp_derive :: "byte list \<Rightarrow> error + address"
  dp_estimate :: fee_estimator

definition or_empty :: "string option \<Rightarrow> string" where
  "or_empty v = (case v of None \<Rightarrow> [] | Some s \<Rightarrow> s)"

definition CreateCustomer_wrapper :: "deployment \<Rightarrow> handler" where
  "CreateCustomer_wrapper dp =
     with_key (dp_lib dp) (\<lambda>key. CreateCustomer_handler (dp_lib dp) (dp_derive dp))"

definition CreateTransfer_wrapper :: "deployment \<Rightarrow> handler" where
  "CreateTransfer_wrapper dp = with_key (dp_lib dp) (CreateTransfer_handler (dp_lib dp))"

definition CreateWithdrawal_wrapper :: "deployment \<Rightarrow> handler" where
  "CreateWithdrawal_wrapper dp =
     with_key (dp_lib dp) (CreateWithdrawal_handler (dp_lib dp) (dp_estimate dp))"

definition ApproveWithdrawal_wrapper :: "deployment \<Rightarrow> string \<Rightarrow> handler" where
  "ApproveWithdrawal_wrapper dp v =
     with_id (dp_lib dp) v (\<lambda>i. with_key (dp_lib dp) (\<lambda>key. ApproveWithdrawal_handler (dp_lib dp) i))"

definition GetCustomer_wrapper :: "deployment \<Rightarrow> string \<Rightarrow> handler" where
  "GetCustomer_wrapper dp v = with_id (dp_lib dp) v (GetCustomer_handler (dp_lib dp))"

definition GetCustomerBalances_wrapper :: "deployment \<Rightarrow> string \<Rightarrow> handler" where
  "GetCustomerBalances_wrapper dp v = with_id (dp_lib dp) v (GetCustomerBalances_handler (dp_lib dp))"

definition GetCustomerDeposits_wrapper :: "deployment \<Rightarrow> string \<Rightarrow> handler" where
  "GetCustomerDeposits_wrapper dp v = with_id (dp_lib dp) v (GetCustomerDeposits_handler (dp_lib dp))"

definition GetUnsupportedTokenObservations_wrapper :: "deployment \<Rightarrow> handler" where
  "GetUnsupportedTokenObservations_wrapper dp = GetUnsupportedTokenObservations_handler (dp_lib dp)"

definition ListCustomerTransactions_wrapper :: "deployment \<Rightarrow> string \<Rightarrow> handler" where
  "ListCustomerTransactions_wrapper dp v =
     with_id (dp_lib dp) v (\<lambda>i.
     with_query (dp_lib dp) ''cursor'' (bind_query (dp_lib dp) False) (\<lambda>cursor.
     with_query (dp_lib dp) ''pageSize'' (bind_query_int (dp_lib dp)) (\<lambda>pageSize.
     ListCustomerTransactions_handler (dp_lib dp) (dp_cursors dp) i cursor pageSize)))"

definition GetWithdrawalFeeEstimate_wrapper :: "deployment \<Rightarrow> handler" where
  "GetWithdrawalFeeEstimate_wrapper dp =
     with_query (dp_lib dp) ''chain'' (bind_query (dp_lib dp) True) (\<lambda>ch.
     with_query (dp_lib dp) ''asset'' (bind_query (dp_lib dp) True) (\<lambda>a.
     with_query (dp_lib dp) ''amount'' (bind_query (dp_lib dp) True) (\<lambda>amount.
     GetWithdrawalFeeEstimate_handler (dp_lib dp) (dp_estimate dp) (or_empty ch) (or_empty a)
       (or_empty amount))))"

text \<open>The routes \<^verbatim>\<open>HandlerWithOptions\<close> registers under the base URL \<^verbatim>\<open>/v1\<close>; \<^verbatim>\<open>ServeMux\<close> serves
  HEAD requests with the routes for GET.\<close>

definition read_routes :: "deployment \<Rightarrow> string list \<Rightarrow> handler option" where
  "read_routes dp segs =
     (case segs of
        [v, a, i] \<Rightarrow>
          if v = ''v1'' \<and> a = ''customers'' then Some (GetCustomer_wrapper dp i)
          else if v = ''v1'' \<and> a = ''withdrawals'' \<and> i = ''fee-estimate''
          then Some (GetWithdrawalFeeEstimate_wrapper dp)
          else None
      | [v, a, i, b] \<Rightarrow>
          if v \<noteq> ''v1'' \<or> a \<noteq> ''customers'' then None
          else if b = ''balances'' then Some (GetCustomerBalances_wrapper dp i)
          else if b = ''deposits'' then Some (GetCustomerDeposits_wrapper dp i)
          else if b = ''transactions'' then Some (ListCustomerTransactions_wrapper dp i)
          else None
      | [v, a] \<Rightarrow>
          if v = ''v1'' \<and> a = ''unsupported-token-observations''
          then Some (GetUnsupportedTokenObservations_wrapper dp) else None
      | _ \<Rightarrow> None)"

definition write_routes :: "deployment \<Rightarrow> string list \<Rightarrow> handler option" where
  "write_routes dp segs =
     (case segs of
        [v, a] \<Rightarrow>
          if v \<noteq> ''v1'' then None
          else if a = ''customers'' then Some (CreateCustomer_wrapper dp)
          else if a = ''transfers'' then Some (CreateTransfer_wrapper dp)
          else if a = ''withdrawals'' then Some (CreateWithdrawal_wrapper dp)
          else None
      | [v, a, i, b] \<Rightarrow>
          if v = ''v1'' \<and> a = ''withdrawals'' \<and> b = ''approve''
          then Some (ApproveWithdrawal_wrapper dp i) else None
      | _ \<Rightarrow> None)"

definition HandlerWithOptions :: "deployment \<Rightarrow> handler" where
  "HandlerWithOptions dp req r =
     (case (if rq_method req = ''GET'' \<or> rq_method req = ''HEAD'' then read_routes dp (rq_segments req)
            else if rq_method req = ''POST'' then write_routes dp (rq_segments req) else None) of
        Some h \<Rightarrow> h req r
      | None \<Rightarrow> ret (not_routed (dp_lib dp) req r))"

lemmas wrapper_defs =
  GetCustomer_wrapper_def GetCustomerBalances_wrapper_def GetCustomerDeposits_wrapper_def
  GetUnsupportedTokenObservations_wrapper_def ListCustomerTransactions_wrapper_def
  GetWithdrawalFeeEstimate_wrapper_def CreateCustomer_wrapper_def CreateTransfer_wrapper_def
  CreateWithdrawal_wrapper_def ApproveWithdrawal_wrapper_def

text \<open>The chain of handlers \<^verbatim>\<open>runAPI\<close> serves: authentication first, idempotency inside it.\<close>

definition serve :: "deployment \<Rightarrow> string list \<Rightarrow> (database \<Rightarrow> database) \<Rightarrow> handler" where
  "serve dp validTokens rival =
     AuthMiddleware (dp_lib dp) validTokens
       (IdempotencyMiddleware (dp_lib dp) rival (HandlerWithOptions dp))"

end
