(* ===== verification/Api.thy ===== *)
theory Api
  imports Endpoints Broadcaster
begin

text \<open>
  What a request to the api process does to the database, whatever fails on the way.

  The locale \<open>endpoint\<close> is the interface between the idempotency middleware and a mutating handler:
  the handler is quiet, and when it answers with success it keeps the invariant of the platform and
  leaves the idempotency keys and the broadcast attempts alone.  Inside it, the middleware is shown
  to keep the invariant, to commit a request at most once and to lose a race without a trace.  It is
  interpreted on the router with all its endpoints.
\<close>

subsection \<open>The four mutating use cases\<close>

text \<open>The tables a request never touches.\<close>

definition api_view ::
    "database \<Rightarrow> (string \<times> stored_entry) list \<times> attempt_row list \<times> watcher_cursor_row list" where
  "api_view d = (idempotency_keys d, broadcast_attempts d, watcher_cursors d)"

lemma api_view_frame [simp]:
  "api_view (posted d je p1 p2 ct cid x y n t) = api_view d"
  "api_view (d\<lparr>customers := cs\<rparr>) = api_view d"
  "api_view (d\<lparr>accounts := as\<rparr>) = api_view d"
  "api_view (d\<lparr>deposit_addresses := das\<rparr>) = api_view d"
  "api_view (d\<lparr>withdrawals := ws\<rparr>) = api_view d"
  "api_view (d\<lparr>outbox_events := es\<rparr>) = api_view d"
  by (simp_all add: api_view_def posted_def)

lemma api_view_emit: "effect (emit ty pl now) t d u d' \<Longrightarrow> api_view d' = api_view d"
  by (elim effect_emitE) simp

lemma pipeline_posted: "pipeline_ok (posted d je p1 p2 ct cid x y n t) = pipeline_ok d"
  by (simp add: posted_def)

lemma core_create_customer:
  assumes "effect (CreateCustomer_Execute up de) t d cu d'" "core_ok d"
  shows "core_ok d'" "api_view d' = api_view d"
proof -
  have "ledger_ok d'"
    using ledger_create_customer [OF assms(1)] assms(2) by (simp add: core_ok_def)
  then show "core_ok d'" "api_view d' = api_view d"
    using assms by (auto simp: core_ok_def elim: effect_CreateCustomer_ExecuteE)
qed

lemma core_transfer:
  assumes "effect (CreateTransfer_Execute treq) t d tf d'" "core_ok d"
  shows "core_ok d'" "api_view d' = api_view d"
proof -
  have "ledger_ok d'"
    using ledger_transfer [OF assms(1)] assms(2) by (simp add: core_ok_def)
  moreover obtain je p1 p2 ct cid x y n where "d' = posted d je p1 p2 ct cid x y n t"
    using assms(1) core_ok_schema(2) [OF assms(2)] by (rule effect_transferE)
  ultimately show "core_ok d'" "api_view d' = api_view d"
    using assms(2) by (simp_all add: core_ok_def pipeline_posted)
qed

lemma core_create_withdrawal:
  assumes "effect (CreateWithdrawal_Execute est wreq) t d wi d'" "core_ok d"
  shows "core_ok d'" "api_view d' = api_view d"
proof -
  show "core_ok d'"
    using ledger_create_withdrawal [OF assms(1)] pipeline_create_withdrawal [OF assms(1)] assms(2)
      core_ok_schema(1) [OF assms(2)] by (simp add: core_ok_def)
  from assms(1) obtain fee st where "effect (CreateWithdrawal wreq fee st) t d wi d'"
    by (rule effect_CreateWithdrawal_ExecuteE)
  then show "api_view d' = api_view d"
    using core_ok_schema(2) [OF assms(2)]
    by (rule effect_CreateWithdrawalE)
      (auto simp: insert_withdrawal_def constrained_Inr dest!: api_view_emit)
qed

lemma core_approve:
  assumes "effect (ApproveWithdrawal_Execute i actor reason) t d wi d'" "core_ok d"
  shows "core_ok d'" "api_view d' = api_view d"
proof -
  show "core_ok d'"
    using ledger_approve [OF assms(1)] pipeline_approve [OF assms(1)] assms(2) by (simp add: core_ok_def)
  show "api_view d' = api_view d"
    using assms(1) by (rule effect_ApproveWithdrawalE) (auto dest!: effect_transition api_view_emit)
qed

subsection \<open>Handlers\<close>

lemma quiet_attempt [simp]: "quiet c \<Longrightarrow> quiet (attempt c)"
  by (auto simp: quiet_def attempt_def split_beta split: sum.splits)

lemma attempt_Inr: "attempt c w = (Inr (Inr a), w') \<longleftrightarrow> c w = (Inr a, w')"
  by (auto simp: attempt_def split: prod.splits sum.splits if_splits)

lemma effect_attempt [m_success]: "effect (attempt c) t d (Inr a) d' \<longleftrightarrow> effect c t d a d'"
  by (simp add: effect_def attempt_Inr)

lemma quiet_problem [simp]: "quiet (problem lib req r p)"
  by (simp add: problem_def split: prod.split)

lemma effect_problem [m_success]:
  "effect (problem lib req r (s, title, detail)) t d rec d' \<longleftrightarrow>
     rec = WriteProblem lib s title detail (rq_path req) r \<and> d' = d"
  by (auto simp: problem_def effect_ret)

text \<open>A response that the middleware commits.\<close>

definition success :: "recorder \<Rightarrow> bool" where
  "success rec \<longleftrightarrow> rc_wroteHeader rec \<and> 200 \<le> rc_status rec \<and> rc_status rec < 300"

lemma problem_no_success [simp]:
  "300 \<le> s \<Longrightarrow> success (WriteProblem lib s title detail inst newResponseRecorder) = False"
  by (simp add: success_def)

definition error_code :: "int \<times> string \<times> string \<Rightarrow> bool" where
  "error_code p \<longleftrightarrow> 400 \<le> fst p"

lemma problems_are_errors [simp]:
  "error_code (transfer_problem lib e)" "error_code (withdrawal_problem lib e)"
  "error_code (approve_problem lib e)" "error_code (fee_problem e)"
  by (simp_all add: transfer_problem_def withdrawal_problem_def approve_problem_def fee_problem_def error_code_def)

lemma request_errors:
  "transfer_request_of lib req key = Inl p \<Longrightarrow> error_code p"
  "withdrawal_request_of lib req key = Inl p \<Longrightarrow> error_code p"
  by (auto simp: transfer_request_of_def withdrawal_request_of_def error_code_def
      split: option.splits if_splits)

lemma effect_problem_success:
  "effect (problem lib req newResponseRecorder p) t d rec d' \<Longrightarrow> success rec \<Longrightarrow> error_code p \<Longrightarrow> False"
  by (cases p) (auto simp: effect_problem success_def error_code_def)

text \<open>The shape of a mutating handler: when it answers with success, its use case succeeded.\<close>

lemma attempt_then:
  assumes "effect (bindm (attempt c) (\<lambda>res. case res of
      Inl e \<Rightarrow> problem lib req newResponseRecorder (P e) | Inr x \<Rightarrow> k x)) t d rec d'"
    and "success rec" "\<And>e. error_code (P e)" "quiet c"
  obtains x d1 where "effect c t d x d1" "effect (k x) t d1 rec d'"
proof -
  obtain res d1 where r: "effect (attempt c) t d res d1"
    "effect (case res of Inl e \<Rightarrow> problem lib req newResponseRecorder (P e) | Inr x \<Rightarrow> k x) t d1 rec d'"
    using assms(1) quiet_attempt [OF assms(4)] by (rule effect_bindmE)
  show thesis
  proof (cases res)
    case (Inl e)
    then have False
      using r(2) effect_problem_success [OF _ assms(2,3)] by (metis sum.case(1))
    then show ?thesis ..
  next
    case (Inr x)
    then show ?thesis
      using r that by (simp add: effect_attempt)
  qed
qed

lemma problem_or_respond:
  assumes "effect (case o' of None \<Rightarrow> problem lib req newResponseRecorder p | Some v \<Rightarrow> k v) t d rec d'"
    and "success rec" "error_code p"
  obtains v where "o' = Some v" "effect (k v) t d rec d'"
proof (cases o')
  case None
  then have False
    using assms(1) effect_problem_success [OF _ assms(2,3)] by (metis option.case(1))
  then show ?thesis ..
qed (use assms(1) that in simp)

lemma error_code_500 [simp]: "error_code (500, title, detail)" "error_code (400, title, detail)"
  by (simp_all add: error_code_def)

lemma transfer_handler_success:
  assumes "effect (CreateTransfer_handler lib key req newResponseRecorder) t d rec d'" "success rec"
  obtains treq x i src dst where "transfer_request_of lib req key = Inr treq"
    "effect (CreateTransfer_Execute treq) t d x d'"
    "rec = respond lib 201 (transfer_json lib x i src dst) newResponseRecorder"
proof (cases "transfer_request_of lib req key")
  case (Inl p)
  then have "effect (problem lib req newResponseRecorder p) t d rec d'"
    using assms(1) by (simp add: CreateTransfer_handler_def)
  from effect_problem_success [OF this assms(2) request_errors(1) [OF Inl]] show ?thesis ..
next
  case (Inr treq)
  with assms(1) obtain x d1 where x: "effect (CreateTransfer_Execute treq) t d x d1"
    and k: "effect (case uuid_parse lib (tf_source x) of
        None \<Rightarrow> problem lib req newResponseRecorder (500, ''invalid-customer-id'', error_text lib ErrUUID)
      | Some src \<Rightarrow>
     (case uuid_parse lib (tf_destination x) of
        None \<Rightarrow> problem lib req newResponseRecorder (500, ''invalid-customer-id'', error_text lib ErrUUID)
      | Some dst \<Rightarrow>
     (case uuid_parse lib (tf_id x) of
        None \<Rightarrow> problem lib req newResponseRecorder (500, ''invalid-transfer-id'', error_text lib ErrUUID)
      | Some i \<Rightarrow> ret (respond lib 201 (transfer_json lib x i src dst) newResponseRecorder)))) t d1 rec d'"
    unfolding CreateTransfer_handler_def Inr sum.case
    by (elim attempt_then [OF _ assms(2)]) simp_all
  from k show ?thesis
    by (elim problem_or_respond [OF _ assms(2)]) (use that [OF Inr] x in \<open>auto simp: effect_ret\<close>)
qed

lemma customer_handler_success:
  assumes "effect (CreateCustomer_handler lib de req newResponseRecorder) t d rec d'" "success rec"
  obtains c where "effect (CreateCustomer_Execute (uuid_parse lib) de) t d c d'"
  using assms(1) unfolding CreateCustomer_handler_def
  by (elim attempt_then [OF _ assms(2)] problem_or_respond [OF _ assms(2)])
    (auto simp: effect_ret error_code_def intro: that)

lemma withdrawal_handler_success:
  assumes "effect (CreateWithdrawal_handler lib est key req newResponseRecorder) t d rec d'" "success rec"
  obtains wreq x where "withdrawal_request_of lib req key = Inr wreq"
    "effect (CreateWithdrawal_Execute est wreq) t d x d'"
proof (cases "withdrawal_request_of lib req key")
  case (Inl p)
  then have "effect (problem lib req newResponseRecorder p) t d rec d'"
    using assms(1) by (simp add: CreateWithdrawal_handler_def)
  from effect_problem_success [OF this assms(2) request_errors(2) [OF Inl]] show ?thesis ..
next
  case (Inr wreq)
  from assms(1) [unfolded CreateWithdrawal_handler_def Inr sum.case] show ?thesis
    by (elim attempt_then [OF _ assms(2)] problem_or_respond [OF _ assms(2)])
      (use that [OF Inr] in \<open>auto simp: effect_ret\<close>)
qed

lemma approve_handler_success:
  assumes "effect (ApproveWithdrawal_handler lib i req newResponseRecorder) t d rec d'" "success rec"
  obtains b x where "decode_body (decode_approve lib) req = Some b"
    "effect (ApproveWithdrawal_Execute i (ap_actor b) (ap_reason b)) t d x d'"
  using assms(1) unfolding ApproveWithdrawal_handler_def
proof (rule problem_or_respond [OF _ assms(2)])
  fix b
  assume b: "decode_body (decode_approve lib) req = Some b"
    and "effect (bindm (attempt (ApproveWithdrawal_Execute i (ap_actor b) (ap_reason b)))
      (\<lambda>res. case res of Inl e \<Rightarrow> problem lib req newResponseRecorder (approve_problem lib e)
        | Inr x \<Rightarrow> (case toWithdrawalResponse lib x of
            None \<Rightarrow> problem lib req newResponseRecorder
              (500, ''invalid-withdrawal-id'', ''failed to process approve withdrawal request'')
          | Some body \<Rightarrow> ret (respond lib 200 body newResponseRecorder)))) t d rec d'"
  then show thesis
    by (elim attempt_then [OF _ assms(2)] problem_or_respond [OF _ assms(2)])
      (use that [OF b] in \<open>auto simp: effect_ret\<close>)
qed simp

subsection \<open>Handlers that only read\<close>

definition reads :: "'a db_m \<Rightarrow> bool" where
  "reads c \<longleftrightarrow> (\<forall>w. db (snd (c w)) = db w)"

lemma reads_basic [simp]:
  "reads (ret a)" "reads (raise e)" "reads (guardm b e)" "reads (lift_result x)" "reads (query f)"
  by (simp_all add: reads_def lift_result_run query_def stmt_def split_beta split: sum.split)

lemma reads_bindm [simp]: "reads c \<Longrightarrow> (\<And>a. reads (f a)) \<Longrightarrow> reads (bindm c f)"
  by (auto simp: reads_def bindm_def split_beta split: sum.splits)

lemma reads_attempt [simp]: "reads c \<Longrightarrow> reads (attempt c)"
  by (auto simp: reads_def attempt_def split_beta split: sum.splits)

lemma reads_problem [simp]: "reads (problem lib req r p)"
  by (simp add: problem_def split: prod.split)

lemma reads_readers [simp]:
  "reads (GetCustomer i)" "reads (CustomerBalances i)" "reads (ListCustomerDeposits i)" "reads ListObservations"
  "reads (ListCustomerTransactions clib i n cursor)"
  by (auto simp: GetCustomer_def CustomerBalances_def ListCustomerDeposits_def ListObservations_def
      ListCustomerTransactions_def Let_def split: list.split prod.split)

lemma reads_handlers [simp]:
  "reads (GetCustomer_handler lib i req r)" "reads (GetCustomerBalances_handler lib i req r)"
  "reads (GetCustomerDeposits_handler lib i req r)" "reads (GetUnsupportedTokenObservations_handler lib req r)"
  "reads (ListCustomerTransactions_handler lib clib i c n req r)"
  "reads (GetWithdrawalFeeEstimate_handler lib est ch a x req r)"
  by (auto simp: GetCustomer_handler_def GetCustomerBalances_handler_def GetCustomerDeposits_handler_def
      GetUnsupportedTokenObservations_handler_def ListCustomerTransactions_handler_def
      ListCustomerTransactions_Execute_def GetWithdrawalFeeEstimate_handler_def Let_def
      split: sum.split option.split)

lemma reads_bindings [simp]:
  "(\<And>i. reads (h i req r)) \<Longrightarrow> reads (with_id lib v h req r)"
  "(\<And>x. reads (g x req r)) \<Longrightarrow> reads (with_query lib p b g req r)"
  by (auto simp: with_id_def with_query_def bind_failed_def split: sum.split bind_error.split)

lemma reads_routed: "read_routes dp segs = Some h \<Longrightarrow> reads (h req r)"
  by (auto simp: read_routes_def wrapper_defs split: list.splits if_splits)

subsection \<open>The router\<close>

lemma quiet_reads [simp]:
  "quiet (GetCustomer i)" "quiet (CustomerBalances i)" "quiet (ListCustomerDeposits i)" "quiet ListObservations"
  "quiet (ListCustomerTransactions clib i n cursor)"
  by (auto simp: GetCustomer_def CustomerBalances_def ListCustomerDeposits_def ListObservations_def
      ListCustomerTransactions_def Let_def split: list.split prod.split intro!: quiet_bindm)

lemma quiet_handlers [simp]:
  "quiet (GetCustomer_handler lib i req r)" "quiet (GetCustomerBalances_handler lib i req r)"
  "quiet (GetCustomerDeposits_handler lib i req r)" "quiet (GetUnsupportedTokenObservations_handler lib req r)"
  "quiet (ListCustomerTransactions_handler lib clib i c n req r)"
  "quiet (GetWithdrawalFeeEstimate_handler lib est ch a x req r)"
  "quiet (CreateCustomer_handler lib de req r)" "quiet (CreateTransfer_handler lib key req r)"
  "quiet (CreateWithdrawal_handler lib est key req r)" "quiet (ApproveWithdrawal_handler lib i req r)"
  by (auto simp: GetCustomer_handler_def GetCustomerBalances_handler_def GetCustomerDeposits_handler_def
      GetUnsupportedTokenObservations_handler_def ListCustomerTransactions_handler_def
      ListCustomerTransactions_Execute_def GetWithdrawalFeeEstimate_handler_def CreateCustomer_handler_def
      CreateTransfer_handler_def CreateWithdrawal_handler_def ApproveWithdrawal_handler_def Let_def
      split: sum.split option.split intro!: quiet_bindm)

lemma quiet_bindings [simp]:
  "(\<And>key. quiet (f key req r)) \<Longrightarrow> quiet (with_key lib f req r)"
  "(\<And>i. quiet (h i req r)) \<Longrightarrow> quiet (with_id lib v h req r)"
  "(\<And>x. quiet (g x req r)) \<Longrightarrow> quiet (with_query lib p b g req r)"
  by (auto simp: with_key_def with_id_def with_query_def bind_failed_def
      split: sum.split bind_error.split list.split)

lemma quiet_routes:
  "read_routes dp segs = Some h \<Longrightarrow> quiet (h req r)" "write_routes dp segs = Some h \<Longrightarrow> quiet (h req r)"
  by (auto simp: read_routes_def write_routes_def wrapper_defs split: list.splits if_splits)

lemma quiet_router [simp]: "quiet (HandlerWithOptions dp req r)"
  by (auto simp: HandlerWithOptions_def split: option.split dest: quiet_routes)

lemma with_key_success:
  assumes "effect (with_key lib h req newResponseRecorder) t d rec d'" "success rec"
  obtains v key where "rq_idempotency_keys req = [v]" "bind_header lib v = Inr key"
    "effect (h key req newResponseRecorder) t d rec d'"
  using assms effect_problem_success [OF _ assms(2), of lib req "(400, p, q)" t d d' for p q]
  by (auto simp: with_key_def bind_failed_def split: list.splits sum.splits if_splits)

lemma with_id_success:
  assumes "effect (with_id lib v h req newResponseRecorder) t d rec d'" "success rec"
  obtains i where "bind_path_uuid lib v = Inr i" "effect (h i req newResponseRecorder) t d rec d'"
  using assms effect_problem_success [OF _ assms(2), of lib req "(400, p, q)" t d d' for p q]
  by (auto simp: with_id_def bind_failed_def split: sum.splits)

text \<open>A mutating request that is answered with success has run one of the four use cases, or nothing.\<close>

lemma routed_success:
  assumes "effect (HandlerWithOptions dp req newResponseRecorder) t d rec d'" "success rec"
    and "isMutatingMethod (rq_method req)"
  obtains "d' = d"
  | c where "effect (CreateCustomer_Execute (uuid_parse (dp_lib dp)) (dp_derive dp)) t d c d'"
  | key treq x where "transfer_request_of (dp_lib dp) req key = Inr treq"
      "effect (CreateTransfer_Execute treq) t d x d'"
  | key wreq x where "withdrawal_request_of (dp_lib dp) req key = Inr wreq"
      "effect (CreateWithdrawal_Execute (dp_estimate dp) wreq) t d x d'"
  | i b x where "decode_body (decode_approve (dp_lib dp)) req = Some b"
      "effect (ApproveWithdrawal_Execute i (ap_actor b) (ap_reason b)) t d x d'"
proof (cases "rq_method req = ''POST'' \<and> write_routes dp (rq_segments req) \<noteq> None")
  case True
  then obtain h where h: "write_routes dp (rq_segments req) = Some h"
    "effect (h req newResponseRecorder) t d rec d'"
    using assms(1) by (auto simp: HandlerWithOptions_def)
  from h(1) consider "h = CreateCustomer_wrapper dp" | "h = CreateTransfer_wrapper dp"
    | "h = CreateWithdrawal_wrapper dp" | v where "h = ApproveWithdrawal_wrapper dp v"
    by (auto simp: write_routes_def split: list.splits if_splits)
  then show ?thesis
  proof cases
    case 1
    with h(2) show ?thesis
      unfolding CreateCustomer_wrapper_def
      by (auto elim!: with_key_success [OF _ assms(2)] customer_handler_success [OF _ assms(2)] intro: that(2))
  next
    case 2
    with h(2) show ?thesis
      unfolding CreateTransfer_wrapper_def
      by (auto elim!: with_key_success [OF _ assms(2)] transfer_handler_success [OF _ assms(2)] intro: that(3))
  next
    case 3
    with h(2) show ?thesis
      unfolding CreateWithdrawal_wrapper_def
      by (auto elim!: with_key_success [OF _ assms(2)] withdrawal_handler_success [OF _ assms(2)] intro: that(4))
  next
    case 4
    with h(2) show ?thesis
      unfolding ApproveWithdrawal_wrapper_def
      by (auto elim!: with_id_success [OF _ assms(2)] with_key_success [OF _ assms(2)]
          approve_handler_success [OF _ assms(2)] intro: that(5))
  qed
next
  case False
  then have "effect (ret (not_routed (dp_lib dp) req newResponseRecorder)) t d rec d'"
    using assms(1,3) by (auto simp: HandlerWithOptions_def isMutatingMethod_def split: if_splits option.splits)
  then show ?thesis
    using that(1) by (simp add: effect_ret)
qed

subsection \<open>The interface of a mutating endpoint\<close>

locale endpoint =
  fixes h :: handler
    and inv :: "database \<Rightarrow> bool"
  assumes quiet_h: "quiet (h req r)"
    and success_inv: "effect (h req newResponseRecorder) t d rec d' \<Longrightarrow> success rec \<Longrightarrow>
      isMutatingMethod (rq_method req) \<Longrightarrow> inv d \<Longrightarrow> inv d'"
    and success_keys: "effect (h req newResponseRecorder) t d rec d' \<Longrightarrow> success rec \<Longrightarrow>
      isMutatingMethod (rq_method req) \<Longrightarrow> inv d \<Longrightarrow> idempotency_keys d' = idempotency_keys d"
    and inv_key: "inv d \<Longrightarrow> k \<notin> fst ` set (idempotency_keys d) \<Longrightarrow>
      inv (d\<lparr>idempotency_keys := idempotency_keys d @ [(k, e)]\<rparr>)"
begin

lemma committed_keeps:
  assumes "committed h hash req t d rec d'" "isMutatingMethod (rq_method req)" "inv d"
  shows "inv d'" "idempotency_key req \<notin> fst ` set (idempotency_keys d)"
    "idempotency_keys d' = idempotency_keys d @
       [(idempotency_key req, \<lparr>se_request_hash = hash, se_response = result_of rec\<rparr>)]"
proof -
  obtain d1 where d1: "effect (h req newResponseRecorder) t d rec d1" "success rec"
    "idempotency_key req \<notin> fst ` set (idempotency_keys d1)"
    "d' = d1\<lparr>idempotency_keys := idempotency_keys d1 @
       [(idempotency_key req, \<lparr>se_request_hash = hash, se_response = result_of rec\<rparr>)]\<rparr>"
    using assms(1) unfolding committed_def success_def by blast
  show "inv d'"
    unfolding d1(4) by (rule inv_key [OF success_inv [OF d1(1,2) assms(2,3)] d1(3)])
  show "idempotency_key req \<notin> fst ` set (idempotency_keys d)"
    "idempotency_keys d' = idempotency_keys d @
       [(idempotency_key req, \<lparr>se_request_hash = hash, se_response = result_of rec\<rparr>)]"
    using success_keys [OF d1(1,2) assms(2,3)] d1(3,4) by simp_all
qed

lemma request_keeps:
  assumes "IdempotencyMiddleware lib rival h req r w = (res, w')" "isMutatingMethod (rq_method req)"
    and "inv (db w)" "inv (rival (db w))"
  shows "inv (db w')"
  using idempotency_db [OF assms(1,2) quiet_h] committed_keeps(1) [OF _ assms(2,4)] assms(3,4) by auto

lemma race_lost:
  assumes "IdempotencyMiddleware lib rival h req r w = (res, w')" "isMutatingMethod (rq_method req)"
    and "inv (rival (db w))" "idempotency_key req \<in> fst ` set (idempotency_keys (rival (db w)))"
  shows "db w' = db w \<or> db w' = rival (db w)"
  using idempotency_db [OF assms(1,2) quiet_h] committed_keeps(2) [OF _ assms(2,3)] assms(4) by blast

lemma stored_by_request:
  assumes "IdempotencyMiddleware lib rival h req r w = (res, w')" "isMutatingMethod (rq_method req)"
    and "inv (rival (db w))"
    and "map_of (idempotency_keys (db w)) (idempotency_key req) = None"
    and "map_of (idempotency_keys (rival (db w))) (idempotency_key req) = None"
    and "map_of (idempotency_keys (db w')) (idempotency_key req) = Some e"
  obtains body rec where "rq_body req = Body body" "idempotency_key req \<noteq> []"
    "committed h (requestHash lib (rq_method req) (rq_path req) body) req (clock w) (rival (db w)) rec (db w')"
    "e = \<lparr>se_request_hash = requestHash lib (rq_method req) (rq_path req) body, se_response = result_of rec\<rparr>"
proof -
  obtain body rec where b: "rq_body req = Body body" "idempotency_key req \<noteq> []"
    and c: "committed h (requestHash lib (rq_method req) (rq_path req) body) req (clock w) (rival (db w)) rec (db w')"
    using idempotency_db [OF assms(1,2) quiet_h] assms(4-6) by auto
  have "e = \<lparr>se_request_hash = requestHash lib (rq_method req) (rq_path req) body, se_response = result_of rec\<rparr>"
    using committed_keeps(3) [OF c assms(2,3)] assms(5,6) by (simp add: map_add_def)
  with b c show thesis by (rule that)
qed

end

lemma core_ok_key:
  "core_ok d \<Longrightarrow> k \<notin> fst ` set (idempotency_keys d) \<Longrightarrow>
     core_ok (d\<lparr>idempotency_keys := idempotency_keys d @ [(k, e)]\<rparr>)"
  by (auto simp: core_ok_def ledger_ok_def schema_ok_def)

lemma routed_keeps:
  assumes "effect (HandlerWithOptions dp req newResponseRecorder) t d rec d'" "success rec"
    and "isMutatingMethod (rq_method req)" "core_ok d"
  shows "core_ok d' \<and> api_view d' = api_view d"
  using assms(1-3)
  by (rule routed_success)
    (use assms(4) in \<open>auto dest: core_create_customer [OF _ assms(4)] core_transfer [OF _ assms(4)]
        core_create_withdrawal [OF _ assms(4)] core_approve [OF _ assms(4)]\<close>)

interpretation api: endpoint "HandlerWithOptions dp" core_ok for dp
  by unfold_locales (use routed_keeps core_ok_key in \<open>auto simp: api_view_def\<close>)

subsection \<open>Serving a request\<close>

lemma auth_cases: "AuthMiddleware lib tokens h req r =
    (if \<exists>t\<in>set tokens. t \<noteq> [] \<and> rq_authorization req = ''Bearer '' @ t then h req r
     else ret (WriteProblem lib 401 ''unauthorized'' ''a valid bearer token is required'' (rq_path req) r))"
proof -
  have eq: "(\<exists>t\<in>set tokens. t \<noteq> [] \<and> rq_authorization req = ''Bearer '' @ t) \<longleftrightarrow>
      (\<exists>t. bearerToken (rq_authorization req) = Some t \<and> tokenIsValid tokens t)"
    by (simp only: bearerToken_Some tokenIsValid_member) blast
  show ?thesis
    unfolding eq by (cases "bearerToken (rq_authorization req)") (simp_all add: AuthMiddleware_def)
qed

definition authorized :: "string list \<Rightarrow> http_request \<Rightarrow> bool" where
  "authorized tokens req \<longleftrightarrow> (\<exists>t\<in>set tokens. t \<noteq> [] \<and> rq_authorization req = ''Bearer '' @ t)"

lemma serve_authorized:
  "authorized tokens req \<Longrightarrow>
     serve dp tokens rival req r = IdempotencyMiddleware (dp_lib dp) rival (HandlerWithOptions dp) req r"
  "\<not> authorized tokens req \<Longrightarrow> serve dp tokens rival req r w =
     (Inr (WriteProblem (dp_lib dp) 401 ''unauthorized'' ''a valid bearer token is required'' (rq_path req) r), w)"
  by (auto simp: serve_def auth_cases authorized_def)

lemma router_reads:
  "rq_method req = ''GET'' \<or> rq_method req = ''HEAD'' \<Longrightarrow> reads (HandlerWithOptions dp req r)"
  by (auto simp: HandlerWithOptions_def reads_routed split: option.split)

lemma router_other: "\<not> isMutatingMethod (rq_method req) \<Longrightarrow> reads (HandlerWithOptions dp req r)"
  using router_reads [of req dp r] by (auto simp: HandlerWithOptions_def isMutatingMethod_def)

lemma serve_quiet:
  assumes "serve dp tokens rival req r w = (res, w')"
  shows "wire w' = wire w" "clock w' = clock w"
proof -
  have "wire w' = wire w \<and> clock w' = clock w"
  proof (cases "authorized tokens req")
    case True
    with assms have "IdempotencyMiddleware (dp_lib dp) rival (HandlerWithOptions dp) req r w = (res, w')"
      by (simp add: serve_authorized)
    from quiet_idempotency [OF quiet_router this] show ?thesis by simp
  qed (use assms in \<open>simp add: serve_authorized\<close>)
  then show "wire w' = wire w" "clock w' = clock w" by auto
qed

lemma serve_read:
  assumes "serve dp tokens rival req r w = (res, w')" "\<not> isMutatingMethod (rq_method req)"
  shows "db w' = db w"
  using assms router_other [OF assms(2), of dp r]
  by (cases "authorized tokens req") (auto simp: serve_authorized IdempotencyMiddleware_def Let_def reads_def
      dest: spec [of _ w])

subsection \<open>A sample deployment\<close>

definition sample_lib :: http_lib where
  "sample_lib =
     \<lparr>sha256 = (\<lambda>s. []), json_encode = (\<lambda>_. ''{}''), error_text = (\<lambda>_. ''error''),
      uuid_parse = (\<lambda>_. Some []), uuid_text = (\<lambda>_. ''u''),
      decode_transfer = (\<lambda>_. Some \<lparr>tb_source = alice, tb_destination = bob, tb_chain = ChainBase,
        tb_asset = AssetETH, tb_amount = ''300''\<rparr>),
      decode_withdrawal = (\<lambda>_. None), decode_approve = (\<lambda>_. None), bind_header = Inr,
      bind_path_uuid = Inr, bind_query = (\<lambda>b vs. Inr None), bind_query_int = (\<lambda>vs. Inr None),
      not_routed = (\<lambda>req r. WriteHeader 404 r)\<rparr>"

definition sample_deployment :: deployment where
  "sample_deployment =
     \<lparr>dp_lib = sample_lib, dp_cursors = sample_cursor_lib, dp_derive = sample_derive,
      dp_estimate = (\<lambda>ch a x. Inl ErrConnection)\<rparr>"

definition sample_post :: http_request where
  "sample_post =
     \<lparr>rq_method = ''POST'', rq_path = ''/v1/transfers'', rq_segments = [''v1'', ''transfers''],
      rq_query = (\<lambda>_. []), rq_authorization = ''Bearer t'', rq_idempotency_keys = [''k9''],
      rq_body = Body ''{}''\<rparr>"

definition sample_answer :: stored_entry where
  "sample_answer =
     \<lparr>se_request_hash = requestHash sample_lib ''POST'' ''/v1/transfers'' ''{}'',
      se_response = \<lparr>sr_status = 201, sr_body = ''{}'', sr_content_type = ''application/json''\<rparr>\<rparr>"

definition served :: "database world" where
  "served = snd (serve sample_deployment [''t''] (\<lambda>d. d) sample_post newResponseRecorder (sample_world sample))"

lemma core_sample: "core_ok sample"
  by code_simp

lemma served_keys: "idempotency_keys (db served) = [(''k9'', sample_answer)]"
  by code_simp

lemma served_runs: "serve sample_deployment [''t''] (\<lambda>d. d) sample_post newResponseRecorder (sample_world sample) =
    (fst (serve sample_deployment [''t''] (\<lambda>d. d) sample_post newResponseRecorder (sample_world sample)), served)"
  by (simp add: served_def)

lemma sample_fields:
  "isMutatingMethod (rq_method sample_post)" "idempotency_key sample_post = ''k9''"
  "authorized [''t''] sample_post" "rq_body sample_post = Body ''{}''" "int (length ''{}'') \<le> maxRequestBodyBytes"
  by (simp_all add: isMutatingMethod_def idempotency_key_def sample_post_def authorized_def maxRequestBodyBytes_def)

subsection \<open>Properties\<close>

text \<open>C25: a request is atomic.  Whatever fails while it is served (the connection, the commit, the
  handler, a panic), the database is as it was, or as a rival transaction left it, or has gained
  exactly the effect of the handler, which answered with success, together with the row that
  remembers the answer under the key of the request; the second only for an authorized mutating
  request.  No request sends anything to a node, and the ledger and nonce invariants hold after it.\<close>

theorem request_atomic:
  assumes "serve dp tokens rival req r w = (res, w')" "core_ok (db w)" "core_ok (rival (db w))"
  shows "core_ok (db w') \<and> wire w' = wire w \<and>
    (db w' = db w \<or> db w' = rival (db w) \<or>
     authorized tokens req \<and> isMutatingMethod (rq_method req) \<and>
     (\<exists>hash rec. committed (HandlerWithOptions dp) hash req (clock w) (rival (db w)) rec (db w')))"
proof (cases "authorized tokens req \<and> isMutatingMethod (rq_method req)")
  case True
  with assms(1) have i: "IdempotencyMiddleware (dp_lib dp) rival (HandlerWithOptions dp) req r w = (res, w')"
    by (simp add: serve_authorized)
  show ?thesis
    using api.request_keeps [OF i _ assms(2,3)] idempotency_db [OF i _ quiet_router] True
      serve_quiet [OF assms(1)] by blast
next
  case False
  have "db w' = db w"
  proof (cases "authorized tokens req")
    case True
    then show ?thesis
      using False serve_read [OF assms(1)] by blast
  qed (use assms(1) in \<open>simp add: serve_authorized\<close>)
  then show ?thesis
    using assms(2) serve_quiet [OF assms(1)] by simp
qed

theorem request_atomic_witness:
  "core_ok (db served) \<and> idempotency_keys (db served) \<noteq> idempotency_keys sample"
proof -
  have "idempotency_keys sample = []"
    by code_simp
  then show ?thesis
    using request_atomic [OF served_runs] core_sample served_keys by (simp add: sample_world_def)
qed

text \<open>C26: a mutating request takes effect once.  When a request has left an answer under its key,
  that answer is the one of its handler, whose effect was committed with it; every later request
  under the same key replays it byte for byte if method, path and body hash alike, and is refused
  with 409 otherwise, runs no handler and changes nothing, for as long as the row is there.\<close>

theorem exactly_once:
  assumes "serve dp tokens rival req r w = (res, w1)" "isMutatingMethod (rq_method req)" "core_ok (rival (db w))"
    and "map_of (idempotency_keys (db w)) (idempotency_key req) = None"
    and "map_of (idempotency_keys (rival (db w))) (idempotency_key req) = None"
    and "map_of (idempotency_keys (db w1)) (idempotency_key req) = Some e"
    and "map_of (idempotency_keys (db w2)) (idempotency_key req) = Some e" "next_outcome w2 = (Ok, w3)"
    and "authorized tokens req2" "isMutatingMethod (rq_method req2)" "idempotency_key req2 = idempotency_key req"
    and "rq_body req2 = Body body2" "int (length body2) \<le> maxRequestBodyBytes"
  shows "(\<exists>hash rec. committed (HandlerWithOptions dp) hash req (clock w) (rival (db w)) rec (db w1) \<and>
       e = \<lparr>se_request_hash = hash, se_response = result_of rec\<rparr>) \<and>
    serve dp tokens rival2 req2 r2 w2 =
      (Inr (if se_request_hash e = requestHash (dp_lib dp) (rq_method req2) (rq_path req2) body2
            then replay (se_response e) r2
            else WriteProblem (dp_lib dp) 409 ''idempotency-key-reused''
              ''this Idempotency-Key was already used with a different request body'' (rq_path req2) r2), w3) \<and>
    db w3 = db w2"
proof -
  have a: "authorized tokens req"
    using assms(1,4,6) by (cases "authorized tokens req") (auto simp: serve_authorized)
  with assms(1) have i: "IdempotencyMiddleware (dp_lib dp) rival (HandlerWithOptions dp) req r w = (res, w1)"
    by (simp add: serve_authorized)
  from i assms(2-6) obtain body rec where
    "committed (HandlerWithOptions dp) (requestHash (dp_lib dp) (rq_method req) (rq_path req) body) req
       (clock w) (rival (db w)) rec (db w1)"
    "e = \<lparr>se_request_hash = requestHash (dp_lib dp) (rq_method req) (rq_path req) body,
          se_response = result_of rec\<rparr>" "idempotency_key req \<noteq> []"
    by (rule api.stored_by_request)
  moreover have "serve dp tokens rival2 req2 r2 w2 = (Inr (replayOrConflict (dp_lib dp) req2 e
      (requestHash (dp_lib dp) (rq_method req2) (rq_path req2) body2) r2), w3)"
    using assms(7-13) calculation(3)
    by (simp add: serve_authorized idempotency_stored)
  ultimately show ?thesis
    using next_outcome_world [OF assms(8)] by (auto simp: replayOrConflict_def)
qed

theorem exactly_once_witness:
  "serve sample_deployment [''t''] (\<lambda>d. d) sample_post newResponseRecorder (served\<lparr>outcomes := []\<rparr>) =
     (Inr (replay (se_response sample_answer) newResponseRecorder), served\<lparr>outcomes := []\<rparr>)"
proof -
  have n: "map_of (idempotency_keys (db (sample_world sample))) (idempotency_key sample_post) = None"
    by code_simp
  have h: "se_request_hash sample_answer =
      requestHash (dp_lib sample_deployment) (rq_method sample_post) (rq_path sample_post) ''{}''"
    by (simp add: sample_answer_def sample_deployment_def sample_post_def)
  show ?thesis
    using exactly_once [OF served_runs, where ?w2.0 = "served\<lparr>outcomes := []\<rparr>" and ?w3.0 = "served\<lparr>outcomes := []\<rparr>"
        and ?req2.0 = sample_post and ?r2.0 = newResponseRecorder and ?rival2.0 = "\<lambda>d. d"
        and e = sample_answer and ?body2.0 = "''{}''"]
      n sample_fields served_keys core_sample h by (simp add: sample_world_def)
qed

text \<open>C27: a request that loses the race for its key leaves no trace: when another request has
  committed the same key by the time its transaction begins, its own effect is never committed,
  whatever the handler does and whatever fails.\<close>

theorem race_loser_undone:
  assumes "serve dp tokens rival req r w = (res, w')" "isMutatingMethod (rq_method req)" "core_ok (rival (db w))"
    and "idempotency_key req \<in> fst ` set (idempotency_keys (rival (db w)))"
  shows "db w' = db w \<or> db w' = rival (db w)"
proof (cases "authorized tokens req")
  case True
  with assms(1) have "IdempotencyMiddleware (dp_lib dp) rival (HandlerWithOptions dp) req r w = (res, w')"
    by (simp add: serve_authorized)
  then show ?thesis
    by (rule api.race_lost) (use assms in auto)
qed (use assms(1) in \<open>simp add: serve_authorized\<close>)

definition rival_won :: "database \<Rightarrow> database" where
  "rival_won d = d\<lparr>idempotency_keys := idempotency_keys d @ [(''k9'', sample_answer)]\<rparr>"

theorem race_loser_undone_witness:
  "db (snd (serve sample_deployment [''t''] rival_won sample_post newResponseRecorder (sample_world sample))) \<in>
     {sample, rival_won sample}"
proof -
  have "core_ok (rival_won sample)"
    by code_simp
  then show ?thesis
    using race_loser_undone [of sample_deployment "[''t'']" rival_won sample_post newResponseRecorder
        "sample_world sample", OF surjective_pairing] sample_fields
    by (simp add: sample_world_def rival_won_def)
qed

text \<open>C28: the bearer check lets a request through exactly when its header is \<^verbatim>\<open>Bearer\<close>, a space
  and one of the configured non-empty tokens; every other request, and every request when no token
  is configured, gets 401 before its key or its body is looked at, and changes nothing.\<close>

theorem auth_gate:
  "serve dp tokens rival req r w =
     (if \<exists>t\<in>set tokens. t \<noteq> [] \<and> rq_authorization req = ''Bearer '' @ t
      then IdempotencyMiddleware (dp_lib dp) rival (HandlerWithOptions dp) req r w
      else (Inr (WriteProblem (dp_lib dp) 401 ''unauthorized'' ''a valid bearer token is required''
              (rq_path req) r), w))"
  using serve_authorized [of tokens req dp rival r] unfolding authorized_def by simp


end
