(* ===== verification/System.thy ===== *)
theory System
  imports Api Watcher
begin

text \<open>
  The platform as a whole: the api process, one watcher and one broadcaster per chain, over one
  database.

  \<open>step\<close> is one call of an entry point by one process, or the passing of time (with new readings
  of the clock, new identifiers and new faults to come); \<open>reachable\<close> collects the worlds that runs
  of such steps reach from the migrated database.  Two views of a run are kept: \<open>safe\<close>, the
  invariant of a state, and \<open>evolves\<close>, what no step ever takes back: entries and postings are only
  added, accounts stay, and a withdrawal only moves along the edges of its state machine.
\<close>

subsection \<open>The state machine of a withdrawal\<close>

inductive status_edge :: "withdrawal_status \<Rightarrow> withdrawal_status \<Rightarrow> bool" where
  approve: "status_edge WithdrawalStatusAwaitingApproval WithdrawalStatusApproved"
| sign: "status_edge WithdrawalStatusApproved WithdrawalStatusSigned"
| broadcast: "status_edge WithdrawalStatusSigned WithdrawalStatusBroadcast"
| confirm: "status_edge WithdrawalStatusBroadcast WithdrawalStatusConfirmed"
| fail: "status_edge WithdrawalStatusBroadcast WithdrawalStatusFailed"

inductive_cases status_edgeE: "status_edge s s'"

text \<open>A later version of a row: the same request, further along.\<close>

definition advance :: "withdrawal_row \<Rightarrow> withdrawal_row \<Rightarrow> bool" where
  "advance x y \<longleftrightarrow>
     w_id y = w_id x \<and> w_customer_id y = w_customer_id x \<and> w_chain y = w_chain x \<and>
     w_asset y = w_asset x \<and> w_amount y = w_amount x \<and>
     w_destination_address y = w_destination_address x \<and>
     w_hold_journal_entry_id y = w_hold_journal_entry_id x \<and> w_created_at y = w_created_at x \<and>
     status_edge\<^sup>*\<^sup>* (w_status x) (w_status y)"

lemma advance_refl [simp]: "advance x x"
  by (simp add: advance_def)

lemma advance_trans: "advance x y \<Longrightarrow> advance y z \<Longrightarrow> advance x z"
  by (auto simp: advance_def)

text \<open>The token contracts of the registry.\<close>

definition token_keys :: "database \<Rightarrow> (chain \<times> address) set" where
  "token_keys d = (\<lambda>r. (tk_chain r, tk_contract_address r)) ` set (token_registry d)"

lemma token_keys_frame [simp]:
  "token_keys (d\<lparr>customers := x1\<rparr>) = token_keys d" "token_keys (d\<lparr>accounts := x2\<rparr>) = token_keys d"
  "token_keys (d\<lparr>journal_entries := x3\<rparr>) = token_keys d" "token_keys (d\<lparr>postings := x4\<rparr>) = token_keys d"
  "token_keys (d\<lparr>outbox_events := x5\<rparr>) = token_keys d" "token_keys (d\<lparr>withdrawals := x6\<rparr>) = token_keys d"
  "token_keys (d\<lparr>deposits := x7\<rparr>) = token_keys d" "token_keys (d\<lparr>watcher_cursors := x8\<rparr>) = token_keys d"
  "token_keys (d\<lparr>unsupported_token_observations := x9\<rparr>) = token_keys d"
  "token_keys (d\<lparr>idempotency_keys := x10\<rparr>) = token_keys d"
  "token_keys (d\<lparr>deposit_addresses := x11\<rparr>) = token_keys d"
  "token_keys (d\<lparr>chain_nonce_state := x12\<rparr>) = token_keys d"
  "token_keys (d\<lparr>broadcast_attempts := x13\<rparr>) = token_keys d"
  by (simp_all add: token_keys_def)

text \<open>What a run only ever adds to.\<close>

definition evolves :: "database \<Rightarrow> database \<Rightarrow> bool" where
  "evolves d d' \<longleftrightarrow>
     (\<exists>js. journal_entries d' = journal_entries d @ js) \<and> (\<exists>ps. postings d' = postings d @ ps) \<and>
     (\<exists>as. accounts d' = accounts d @ as) \<and> (\<exists>cs. customers d' = customers d @ cs) \<and>
     (\<exists>os. outbox_events d' = outbox_events d @ os) \<and> token_keys d \<subseteq> token_keys d' \<and>
     (\<exists>xs ys. withdrawals d' = xs @ ys \<and> list_all2 advance (withdrawals d) xs)"

lemma same_rows [simp]: "\<exists>xs. (\<exists>ys. ws = xs @ ys) \<and> list_all2 advance ws xs"
  by (intro exI [of _ ws]) (simp add: list_all2_refl)

lemma evolves_refl [simp]: "evolves d d"
  by (auto simp: evolves_def)

lemma list_all2_prefix_trans:
  assumes "list_all2 P xs ys" "list_all2 P (ys @ zs) us" "\<And>x y z. P x y \<Longrightarrow> P y z \<Longrightarrow> P x z"
  shows "\<exists>vs ws. us = vs @ ws \<and> list_all2 P xs vs"
  using assms(2) unfolding list_all2_append1
  by (metis (no_types, lifting) list_all2_trans [of P P P] assms(1,3))

lemma evolves_trans:
  assumes "evolves d d1" "evolves d1 d2"
  shows "evolves d d2"
proof -
  obtain xs ys where 1: "withdrawals d1 = xs @ ys" "list_all2 advance (withdrawals d) xs"
    using assms(1) by (auto simp: evolves_def)
  obtain us vs where 2: "withdrawals d2 = us @ vs" "list_all2 advance (xs @ ys) us"
    using assms(2) 1 by (auto simp: evolves_def)
  obtain as bs where "us = as @ bs" "list_all2 advance (withdrawals d) as"
    using list_all2_prefix_trans [OF 1(2) 2(2)] advance_trans by blast
  then have "\<exists>xs ys. withdrawals d2 = xs @ ys \<and> list_all2 advance (withdrawals d) xs"
    using 2(1) by (metis append.assoc)
  moreover have "token_keys d \<subseteq> token_keys d2"
    using assms by (auto simp: evolves_def)
  ultimately show ?thesis
    using assms unfolding evolves_def by (elim conjE) (intro conjI; metis append.assoc)
qed

text \<open>Steps that leave some of the tables alone.\<close>

lemma evolves_update [simp]:
  "evolves d (d'\<lparr>deposits := xs\<rparr>) = evolves d d'"
  "evolves d (d'\<lparr>watcher_cursors := cs\<rparr>) = evolves d d'"
  "evolves d (d'\<lparr>unsupported_token_observations := us\<rparr>) = evolves d d'"
  "evolves d (d'\<lparr>idempotency_keys := ks\<rparr>) = evolves d d'"
  "evolves d (d'\<lparr>deposit_addresses := das\<rparr>) = evolves d d'"
  "evolves d (d'\<lparr>chain_nonce_state := ns\<rparr>) = evolves d d'"
  "evolves d (d'\<lparr>broadcast_attempts := bs\<rparr>) = evolves d d'"
  by (simp_all add: evolves_def)

lemma evolves_posted: "evolves d (posted d je p1 p2 ct cid x y n t)"
  by (auto simp: evolves_def posted_def)

lemma evolves_emit: "effect (emit ty pl now) t d u d' \<Longrightarrow> evolves d d'"
  by (elim effect_emitE) (auto simp: evolves_def)

lemma evolves_modify:
  assumes "d' = d\<lparr>withdrawals := modify p f (withdrawals d)\<rparr>" "\<And>x. p x \<Longrightarrow> advance x (f x)"
  shows "evolves d d'"
proof -
  have "list_all2 advance (withdrawals d) (modify p f (withdrawals d))"
    using assms(2) by (auto simp: modify_def list_all2_conv_all_nth)
  then have "\<exists>xs ys. modify p f (withdrawals d) = xs @ ys \<and> list_all2 advance (withdrawals d) xs"
    by (metis append_Nil2)
  then show ?thesis
    by (simp add: evolves_def assms(1))
qed

lemma evolves_transition:
  assumes "effect (transition i s f e) t d u d'" "\<And>x. w_status x = s \<Longrightarrow> advance x (f x)"
  shows "evolves d d'"
  using effect_transition [OF assms(1)] by (rule evolves_modify) (use assms(2) in simp)

subsection \<open>Every operation evolves the database\<close>

lemma evolves_create_customer:
  "effect (CreateCustomer_Execute up de) t d cu d' \<Longrightarrow> evolves d d'"
  by (erule effect_CreateCustomer_ExecuteE) (simp add: evolves_def)

lemma evolves_transfer:
  "effect (CreateTransfer_Execute treq) t d tf d' \<Longrightarrow> accounts_ok d \<Longrightarrow> evolves d d'"
  by (erule (1) effect_transferE) (simp add: evolves_posted)

lemma evolves_create_withdrawal:
  assumes "effect (CreateWithdrawal_Execute est wreq) t d wi d'" "accounts_ok d"
  shows "evolves d d'"
proof -
  from assms(1) obtain fee st where "effect (CreateWithdrawal wreq fee st) t d wi d'"
    by (rule effect_CreateWithdrawal_ExecuteE)
  from this assms(2) obtain av ho am je p1 p2 ty pl r d1 where
    i: "insert_withdrawal r (posted d je p1 p2 withdrawalHoldCauseType (wr_idempotency_key wreq) av ho am t) =
       Inr ((), d1)" and e: "effect (emit ty pl t) t d1 () d'"
    by (rule effect_CreateWithdrawalE) blast
  have "evolves d d1"
    using i by (auto simp: insert_withdrawal_def constrained_Inr evolves_def posted_def list_all2_refl)
  then show ?thesis
    using evolves_emit [OF e] evolves_trans by blast
qed

lemma evolves_approve:
  assumes "effect (ApproveWithdrawal_Execute i actor reason) t d wi d'"
  shows "evolves d d'"
  using assms
  by (rule effect_ApproveWithdrawalE)
    (auto dest!: evolves_emit elim!: evolves_trans [rotated] evolves_transition
      simp: advance_def intro!: r_into_rtranclp status_edge.approve)

lemma evolves_claim:
  assumes "effect (ClaimApprovedWithdrawal ch) t d (Some wi) d'"
  shows "evolves d d'"
  using assms
proof (rule effect_ClaimE)
  fix r :: withdrawal_row and n :: nonce_row and m aid d1 d2
  assume 1: "update_nonces (\<lambda>x. n_chain x = ch)
       (\<lambda>x. x\<lparr>n_next_nonce := n_next_nonce x + 1, n_updated_at := t\<rparr>) d = Inr (m, d1)"
    and 2: "insert_broadcast_attempt \<lparr>b_id = aid, b_withdrawal_id = w_id r, b_chain = ch,
       b_nonce = n_next_nonce n, b_tx_hash = None, b_signed_tx = None, b_created_at = t\<rparr> d1 = Inr ((), d2)"
    and 3: "effect (transition (w_id r) WithdrawalStatusApproved
       (\<lambda>x. x\<lparr>w_status := WithdrawalStatusSigned, w_nonce := Some (n_next_nonce n), w_updated_at := t\<rparr>)
       (ErrText ''status changed concurrently while claiming'')) t d2 () d'"
  have "evolves d d2"
    using 1 2 by (auto simp: update_nonces_Inr insert_broadcast_attempt_def constrained_Inr)
  moreover have "evolves d2 d'"
    by (rule evolves_transition [OF 3]) (auto simp: advance_def intro: status_edge.sign)
  ultimately show ?thesis
    by (rule evolves_trans)
qed

lemma evolves_record_signed: "effect (RecordSignedTx i h s) t d u d' \<Longrightarrow> evolves d d'"
  by (erule effect_RecordSignedTxE) simp

lemma evolves_mark_broadcast: "effect (MarkBroadcast i) t d u d' \<Longrightarrow> evolves d d'"
  by (erule effect_MarkBroadcastE)
    (auto elim!: evolves_transition simp: advance_def intro!: r_into_rtranclp status_edge.broadcast)

lemma evolves_settle:
  assumes "effect (settleWithdrawal i st ct et ty pf) t d u d'" "accounts_ok d" "ty \<noteq> AccountTypeHold"
    and "st = WithdrawalStatusConfirmed \<or> st = WithdrawalStatusFailed"
  shows "evolves d d'"
  using assms(1-3)
proof (rule effect_settleE)
  fix x :: withdrawal_row and ho co je p1 p2 d1
  assume tr: "effect (transition i WithdrawalStatusBroadcast (\<lambda>r. r\<lparr>w_status := st, w_updated_at := t\<rparr>)
       (ErrText ''status changed concurrently'')) t (posted d je p1 p2 ct i ho co (w_amount x) t) () d1"
    and em: "effect (emit et (withdrawalSettledPayload i je (w_customer_id x) (w_chain x) (w_asset x)
       (w_amount x)) t) t d1 () d'"
  have "evolves (posted d je p1 p2 ct i ho co (w_amount x) t) d1"
    by (rule evolves_transition [OF tr])
      (use assms(4) in \<open>auto simp: advance_def intro: status_edge.confirm status_edge.fail\<close>)
  then show ?thesis
    by (intro evolves_trans [OF evolves_posted evolves_trans [OF _ evolves_emit [OF em]]])
qed

lemma evolves_mark_stuck:
  assumes "effect (MarkStuckAlerted i) t d u d'"
  shows "evolves d d'"
  using assms
proof (rule effect_MarkStuckAlertedE)
  fix r :: withdrawal_row and n d1
  assume 1: "update_withdrawals (\<lambda>x. w_id x = i \<and> w_stuck_alerted_at x = None)
       (\<lambda>x. x\<lparr>w_stuck_alerted_at := Some t\<rparr>) d = Inr (n, d1)"
    and 2: "effect (emit withdrawalStuckEventType (withdrawalStuckPayload i r
       (case w_tx_hash r of None \<Rightarrow> [] | Some h \<Rightarrow> h)) t) t d1 () d'"
  have "d1 = d\<lparr>withdrawals := modify (\<lambda>x. w_id x = i \<and> w_stuck_alerted_at x = None)
       (\<lambda>x. x\<lparr>w_stuck_alerted_at := Some t\<rparr>) (withdrawals d)\<rparr>"
    using 1 by (simp add: update_withdrawals_Inr)
  then have "evolves d d1"
    by (rule evolves_modify) (simp add: advance_def)
  then show ?thesis
    using evolves_emit [OF 2] evolves_trans by blast
qed

lemma evolves_observe: "effect (observe_transfer now x) t d b d' \<Longrightarrow> evolves d d'"
  by (auto simp: observe_transfer_def m_success dest!: evolves_emit elim!: effect_bindmE effect_RecordObservedE
      evolves_trans [rotated])

lemma evolves_credit_deposit: "effect (credit_deposit now e) t d u d' \<Longrightarrow> evolves d d'"
  by (erule effect_credit_depositE)
    (auto dest!: evolves_emit elim!: evolves_trans [rotated] simp: evolves_posted)

lemma evolves_cycle:
  assumes "effect (poll_cycle sc ch ads reg latest sb fb) t d r d'"
  shows "evolves d d'"
  using assms
proof (cases rule: effect_poll_cycleE)
  case (1 sf st n m d1 k1 d2 d3 k2 d4 d5 k3)
  have "evolves d d1"
    by (rule scan_phase_keeps [where P = "evolves d", OF 1(2)])
      (auto dest: evolves_observe intro: evolves_trans)
  moreover have "evolves d1 d5"
    using 1(3-6) by (auto elim!: effect_promoteE effect_SetCursorE)
  moreover have "evolves d5 d'"
    using 1(7)
  proof (rule effect_CreditE)
    assume "effect (for_each (credit_deposit t) (eligible_deposits d5 ch)) t d5 () d'"
    then show ?thesis
      by (rule effect_for_each_keeps [where P = "evolves d5"])
        (auto dest: evolves_credit_deposit intro: evolves_trans)
  qed
  ultimately show ?thesis
    using evolves_trans by blast
qed


subsection \<open>Steps of the processes\<close>

text \<open>One call of an entry point, by any process, with its faults: a request to the api (alone, or
  overtaken by a step of another process between its lookup and its transaction), a poll cycle of
  a watcher and its start-up registration of a token, the three jobs of a broadcaster; and the
  passing of time, after which the clock, the identifiers drawn and the faults to come are new.\<close>

inductive step :: "deployment \<Rightarrow> string list \<Rightarrow> database world \<Rightarrow> database world \<Rightarrow> bool"
  for dp :: deployment and tokens :: "string list" where
  request: "serve dp tokens (\<lambda>d. d) req newResponseRecorder w = (res, w') \<Longrightarrow> step dp tokens w w'"
| race: "step dp tokens (w\<lparr>uuids := us, clock := t, outcomes := os\<rparr>) w1 \<Longrightarrow> wire w1 = wire w \<Longrightarrow>
    serve dp tokens (\<lambda>_. db w1) req newResponseRecorder w = (res, w') \<Longrightarrow> step dp tokens w w'"
| watch: "TrackDeposits_Execute sc ch w = (er, w') \<Longrightarrow> step dp tokens w w'"
| register: "UpsertToken ch addr a w = (u, w') \<Longrightarrow> step dp tokens w w'"
| broadcast: "SignAndBroadcast_Execute ps ch allow w = (br, w') \<Longrightarrow> assemble_nonempty ps \<Longrightarrow>
    step dp tokens w w'"
| receipts: "PollReceipts_Execute ps ch w = (pr, w') \<Longrightarrow> step dp tokens w w'"
| alerts: "DetectStuck_Execute ch olderThan w = (sr, w') \<Longrightarrow> step dp tokens w w'"
| tick: "step dp tokens w (w\<lparr>uuids := us, clock := t, outcomes := os\<rparr>)"

inductive reachable :: "deployment \<Rightarrow> string list \<Rightarrow> database world \<Rightarrow> bool"
  for dp :: deployment and tokens :: "string list" where
  start: "distinct us \<Longrightarrow> length us = 8 \<Longrightarrow> db w = seeded us t \<Longrightarrow> wire w = [] \<Longrightarrow> reachable dp tokens w"
| run: "reachable dp tokens w \<Longrightarrow> step dp tokens w w' \<Longrightarrow> reachable dp tokens w'"

inductive_cases stepE: "step dp tokens w w'"

lemma serve_committed:
  assumes "serve dp tokens rival req r w = (res, w')" "db w' \<noteq> db w" "db w' \<noteq> rival (db w)"
  obtains hash rec where "isMutatingMethod (rq_method req)"
    "committed (HandlerWithOptions dp) hash req (clock w) (rival (db w)) rec (db w')"
proof -
  have m: "isMutatingMethod (rq_method req)"
    using serve_read [OF assms(1)] assms(2) by blast
  have "authorized tokens req"
    using assms(1,2) by (cases "authorized tokens req") (auto simp: serve_authorized)
  with assms(1) have "IdempotencyMiddleware (dp_lib dp) rival (HandlerWithOptions dp) req r w = (res, w')"
    by (simp add: serve_authorized)
  from idempotency_db [OF this m quiet_router] assms(2,3) that m show thesis
    by blast
qed

lemma evolves_routed:
  assumes "effect (HandlerWithOptions dp req newResponseRecorder) t d rec d'" "success rec"
    and "isMutatingMethod (rq_method req)" "accounts_ok d"
  shows "evolves d d'"
  using assms(1-3)
  by (rule routed_success)
    (use assms(4) in \<open>auto intro: evolves_create_customer evolves_transfer evolves_create_withdrawal evolves_approve\<close>)

lemma evolves_committed:
  assumes "committed (HandlerWithOptions dp) hash req t d rec d'" "isMutatingMethod (rq_method req)" "core_ok d"
  shows "evolves d d'" "core_ok d'" "broadcast_attempts d' = broadcast_attempts d"
proof -
  obtain d1 where d1: "effect (HandlerWithOptions dp req newResponseRecorder) t d rec d1" "success rec"
    and d': "d' = d1\<lparr>idempotency_keys := idempotency_keys d1 @ [(idempotency_key req,
      \<lparr>se_request_hash = hash, se_response = result_of rec\<rparr>)]\<rparr>"
    using assms(1) unfolding committed_def success_def by blast
  show "evolves d d'"
    unfolding d' evolves_update by (rule evolves_routed [OF d1 assms(2) core_ok_schema(2) [OF assms(3)]])
  show "core_ok d'"
    by (rule api.committed_keeps(1) [OF assms])
  show "broadcast_attempts d' = broadcast_attempts d"
    using routed_keeps [OF d1 assms(2,3)] by (simp add: d' api_view_def)
qed

lemma serve_steps:
  assumes "serve dp tokens rival req r w = (res, w')" "core_ok (db w)"
    and "core_ok (rival (db w))" "evolves (db w) (rival (db w))"
  shows "evolves (db w) (db w')" "core_ok (db w')" "wire w' = wire w"
    "broadcast_attempts (db w') \<in> {broadcast_attempts (db w), broadcast_attempts (rival (db w))}"
proof -
  have "evolves (db w) (db w') \<and> core_ok (db w') \<and>
      broadcast_attempts (db w') \<in> {broadcast_attempts (db w), broadcast_attempts (rival (db w))}"
  proof (cases "db w' = db w \<or> db w' = rival (db w)")
    case False
    then obtain hash rec where m: "isMutatingMethod (rq_method req)"
      and c: "committed (HandlerWithOptions dp) hash req (clock w) (rival (db w)) rec (db w')"
      by (auto intro: serve_committed [OF assms(1)])
    show ?thesis
      using evolves_committed [OF c m assms(3)] evolves_trans [OF assms(4)] by simp
  qed (use assms(2-4) in auto)
  then show "evolves (db w) (db w')" "core_ok (db w')" "wire w' = wire w"
    "broadcast_attempts (db w') \<in> {broadcast_attempts (db w), broadcast_attempts (rival (db w))}"
    using serve_quiet [OF assms(1)] by blast+
qed

text \<open>A request that commits does so on what its rival left.\<close>

lemma serve_after_rival:
  assumes "serve dp tokens rival req r w = (res, w')" "core_ok (rival (db w))"
  shows "db w' = db w \<or> evolves (rival (db w)) (db w')"
proof (cases "db w' = db w \<or> db w' = rival (db w)")
  case False
  then obtain hash rec where "isMutatingMethod (rq_method req)"
    "committed (HandlerWithOptions dp) hash req (clock w) (rival (db w)) rec (db w')"
    by (auto intro: serve_committed [OF assms(1)])
  then show ?thesis
    using evolves_committed(1) [OF _ _ assms(2)] by blast
qed auto

lemma pipeline_watcher: "watcher_view d' = watcher_view d \<Longrightarrow> pipeline_ok d' = pipeline_ok d"
  by (simp add: watcher_view_def pipeline_ok_def nonces_ok_def attempts_match_def attempt_of_def)

lemma register_world:
  assumes "UpsertToken ch addr a w = (u, w')"
  shows "\<exists>ts. db w' = (db w)\<lparr>token_registry := ts\<rparr>" "wire w' = wire w" "evolves (db w) (db w')"
proof -
  let ?r = "\<lparr>tk_chain = ch, tk_contract_address = to_lower addr, tk_asset = a\<rparr>"
  have "(\<exists>ts. db w' = (db w)\<lparr>token_registry := ts\<rparr> \<and> token_keys (db w) \<subseteq> token_keys (db w')) \<and> wire w' = wire w"
  proof -
    obtain o1 w1 where n: "next_outcome w = (o1, w1)" "db w1 = db w" "wire w1 = wire w"
      using next_outcome_world by (metis prod.exhaust)
    consider "w' = w1" | d where "upsert_token_row ?r (db w) = Inr ((), d)" "w' = w1\<lparr>db := d\<rparr>"
      using assms n by (auto simp: UpsertToken_def stmt_def split: if_splits sum.splits)
    then show ?thesis
    proof cases
      case 1
      then show ?thesis
        using n by (auto intro: exI [of _ "token_registry (db w)"])
    next
      case (2 d)
      from 2(1) have "\<exists>ts. d = (db w)\<lparr>token_registry := ts\<rparr> \<and> token_keys (db w) \<subseteq> token_keys d"
        by (auto simp: upsert_token_row_def Let_def token_keys_def image_modify [of _ "\<lambda>r. (tk_chain r, tk_contract_address r)"] split: if_splits)
      with 2(2) n show ?thesis by auto
    qed
  qed
  then show "\<exists>ts. db w' = (db w)\<lparr>token_registry := ts\<rparr>" "wire w' = wire w" "evolves (db w) (db w')"
    by (auto simp: evolves_def)
qed

lemma core_ok_register: "core_ok (d\<lparr>token_registry := ts\<rparr>) = core_ok d"
  by (simp add: core_ok_def ledger_ok_def schema_ok_def schema_defs)


lemma evolves_watch:
  assumes "TrackDeposits_Execute sc ch w = (r, w')"
  shows "evolves (db w) (db w')"
  using assms
proof (cases rule: execute_reads)
  case (2 w2 reg latest sb fb)
  then show ?thesis
    using in_tx_effect [OF 2(8)] evolves_cycle by auto
qed simp

lemma evolves_execute:
  assumes "SignAndBroadcast_Execute ps ch allow w = (r, w')"
  shows "evolves (db w) (db w')"
  by (rule execute_keeps_all [where P = "evolves (db w)", OF assms])
    (auto intro: evolves_trans evolves_mark_broadcast evolves_record_signed evolves_claim)

lemma evolves_poll:
  assumes "PollReceipts_Execute ps ch w = (r, w')" "core_ok (db w)"
  shows "evolves (db w) (db w')"
proof -
  have "evolves (db w) (db w') \<and> core_ok (db w')"
  proof (rule poll_keeps [where P = "\<lambda>d. evolves (db w) d \<and> core_ok d", OF assms(1)])
    fix i t d d' and u :: unit
    assume d: "evolves (db w) d \<and> core_ok d"
    show "evolves (db w) d' \<and> core_ok d'" if e: "effect (SettleConfirmedWithdrawal i) t d u d'"
      using d core_settle_confirmed [OF e] core_ok_schema(2) evolves_trans
        evolves_settle [OF e [unfolded SettleConfirmedWithdrawal_def]] by simp blast
    show "evolves (db w) d' \<and> core_ok d'" if e: "effect (SettleFailedWithdrawal i) t d u d'"
      using d core_settle_failed [OF e] core_ok_schema(2) evolves_trans
        evolves_settle [OF e [unfolded SettleFailedWithdrawal_def]] by simp blast
  qed (use assms(2) in simp)
  then show ?thesis ..
qed

lemma evolves_detect:
  assumes "DetectStuck_Execute ch olderThan w = (r, w')"
  shows "evolves (db w) (db w')"
  by (rule detect_keeps [where P = "evolves (db w)", OF assms]) (auto intro: evolves_trans evolves_mark_stuck)

lemma attempts_settle:
  assumes "effect (settleWithdrawal i st ct et ty pf) t d u d'" "accounts_ok d" "ty \<noteq> AccountTypeHold"
  shows "broadcast_attempts d' = broadcast_attempts d"
  using assms by (rule effect_settleE) (auto dest!: effect_transition elim!: effect_emitE)

lemma attempts_mark_stuck:
  "effect (MarkStuckAlerted i) t d u d' \<Longrightarrow> broadcast_attempts d' = broadcast_attempts d"
  by (elim effect_MarkStuckAlertedE effect_emitE) (simp add: update_withdrawals_Inr)

lemma poll_attempts:
  assumes "PollReceipts_Execute ps ch w = (r, w')" "core_ok (db w)"
  shows "broadcast_attempts (db w') = broadcast_attempts (db w)"
proof -
  let ?P = "\<lambda>d. broadcast_attempts d = broadcast_attempts (db w) \<and> core_ok d"
  have "?P (db w')"
  proof (rule poll_keeps [where P = ?P, OF assms(1)])
    fix i t d d' and u :: unit
    assume d: "?P d"
    show "?P d'" if e: "effect (SettleConfirmedWithdrawal i) t d u d'"
      using d core_settle_confirmed [OF e] core_ok_schema(2)
        attempts_settle [OF e [unfolded SettleConfirmedWithdrawal_def]] by simp
    show "?P d'" if e: "effect (SettleFailedWithdrawal i) t d u d'"
      using d core_settle_failed [OF e] core_ok_schema(2)
        attempts_settle [OF e [unfolded SettleFailedWithdrawal_def]] by simp
  qed (use assms(2) in simp)
  then show ?thesis ..
qed

text \<open>Every step keeps the invariant and takes nothing back.\<close>

lemma step_keeps:
  assumes "step dp tokens w w'" "safe w"
  shows "safe w' \<and> evolves (db w) (db w')"
  using assms
proof (induction rule: step.induct)
  case (request req w res w')
  then show ?case
    using serve_steps [OF request(1)] by (auto simp: safe_def wire_ok_def)
next
  case (race os t us w w1 req res w')
  have w1: "safe w1" "evolves (db w) (db w1)"
    using race.IH race.prems by (simp_all add: safe_def)
  then have "wire_ok (db w) (wire w)" "wire_ok (db w1) (wire w)" "core_ok (db w)" "core_ok (db w1)"
    using race.prems race(2) by (simp_all add: safe_def)
  then show ?case
    using serve_steps [OF race(3)] w1(2) by (auto simp: safe_def wire_ok_def)
next
  case (watch sc ch w er w')
  note k = execute_keeps [OF watch(1)]
  have "broadcast_attempts (db w') = broadcast_attempts (db w)"
    using k(2) by (simp add: watcher_view_def)
  then show ?case
    using k pipeline_watcher [OF k(2)] evolves_watch [OF watch(1)] watch.prems
    by (simp add: safe_def core_ok_def wire_ok_def)
next
  case (register ch addr a w u w')
  then show ?case
    using register_world [OF register(1)] by (auto simp: safe_def core_ok_register wire_ok_def)
next
  case (broadcast ps ch allow w br w')
  then show ?case
    using safe_execute [OF broadcast(1) _ broadcast(2)] evolves_execute [OF broadcast(1)] by simp
next
  case (receipts ps ch w pr w')
  then show ?case
    using evolves_poll [OF receipts(1)] core_poll [OF receipts(1)] poll_attempts [OF receipts(1)]
      poll_wire [OF receipts(1)] by (auto simp: safe_def wire_ok_def)
next
  case (alerts ch olderThan w sr w')
  have "broadcast_attempts (db w') = broadcast_attempts (db w)"
    by (rule detect_keeps [where P = "\<lambda>d. broadcast_attempts d = broadcast_attempts (db w)", OF alerts(1)])
      (auto simp: attempts_mark_stuck)
  then show ?case
    using alerts.prems evolves_detect [OF alerts(1)] core_detect [OF alerts(1)] detect_wire [OF alerts(1)]
    by (auto simp: safe_def wire_ok_def)
next
  case (tick w os t us)
  then show ?case
    by (simp add: safe_def)
qed

subsection \<open>The migrated database\<close>

lemma eight_ids: "length us = 8 \<Longrightarrow> \<exists>u1 u2 u3 u4 u5 u6 u7 u8. us = [u1, u2, u3, u4, u5, u6, u7, u8]"
  by (simp add: eval_nat_numeral length_Suc_conv) blast

lemma seeded_tables:
  "postings (seeded us t) = []" "journal_entries (seeded us t) = []" "withdrawals (seeded us t) = []"
  "deposits (seeded us t) = []" "broadcast_attempts (seeded us t) = []" "outbox_events (seeded us t) = []"
  "customers (seeded us t) = []" "deposit_addresses (seeded us t) = []" "idempotency_keys (seeded us t) = []"
  by (simp_all add: seeded_def)

lemma schema_fresh:
  assumes "distinct us" "length us = 8"
  shows "schema_ok (seeded us t)"
  using eight_ids [OF assms(2)] assms(1)
  by (auto simp: schema_ok_def schema_defs active_deposits_def seeded_def
      SupportedChainAssetPairs_def account_key_def ChainBase_def ChainArbitrum_def AssetETH_def AssetUSDC_def)

lemma core_fresh:
  assumes "distinct us" "length us = 8"
  shows "core_ok (seeded us t)"
proof -
  have b: "balance (seeded us t) x = 0" for x
    by (simp add: balance_def seeded_tables)
  have "books (seeded us t)"
    unfolding books_def account_matches_def b settled_def credited_def held_def seeded_tables
    by (auto simp: seeded_def SupportedChainAssetPairs_def dest!: set_zip_rightD)
  moreover have "pairs_balanced (seeded us t)"
    by (simp add: pairs_balanced_def pair_total_def b total_of_def)
  moreover have "pipeline_ok (seeded us t)"
    by (simp add: pipeline_ok_def nonces_ok_def attempts_match_def seeded_def)
  ultimately show ?thesis
    using schema_fresh [OF assms] by (simp add: core_ok_def ledger_ok_def entries_balanced_def seeded_tables)
qed

text \<open>The two accounts of the platform for each pair.\<close>

lemma seeded_accounts:
  assumes "length us = 8" "(ch, a) \<in> set SupportedChainAssetPairs" "ty = AccountTypeAvailable \<or> ty = AccountTypeTreasury"
  shows "\<exists>r\<in>set (accounts (seeded us t)). account_key r = (None, ch, a, ty)"
  using eight_ids [OF assms(1)] assms(2,3)
  by (auto simp: seeded_def SupportedChainAssetPairs_def account_key_def)

lemma reachable_facts:
  assumes "reachable dp tokens w"
  shows "safe w \<and> (\<exists>us t. length us = 8 \<and> evolves (seeded us t) (db w))"
  using assms
proof (induction rule: reachable.induct)
  case (start us w t)
  then show ?case
    using core_fresh by (auto simp: safe_def wire_ok_def intro!: exI [of _ us] exI [of _ t])
next
  case (run w w')
  then show ?case
    using step_keeps [OF run(2)] evolves_trans by blast
qed

lemma evolves_accounts: "evolves d d' \<Longrightarrow> set (accounts d) \<subseteq> set (accounts d')"
  by (auto simp: evolves_def)

text \<open>What customers hold is what was credited minus what was paid out.\<close>

lemma solvent:
  assumes "ledger_ok d" "length us = 8" "evolves (seeded us t) d" "(ch, a) \<in> set SupportedChainAssetPairs"
  shows "customer_total d ch a = credited d ch a - settled d ch a"
proof -
  let ?b = "\<lambda>r. balance d (a_id r)" and ?p = "\<lambda>r. a_chain r = ch \<and> a_asset r = a"
  have key: "distinct (map account_key (accounts d))" and bk: "books d"
    using assms(1) by (simp_all add: ledger_ok_def schema_ok_def accounts_ok_def)
  obtain v where v: "v \<in> set (accounts d)" "account_key v = (None, ch, a, AccountTypeAvailable)"
    using seeded_accounts [OF assms(2,4)] evolves_accounts [OF assms(3)] by blast
  obtain y where y: "y \<in> set (accounts d)" "account_key y = (None, ch, a, AccountTypeTreasury)"
    using seeded_accounts [OF assms(2,4)] evolves_accounts [OF assms(3)] by blast
  have kinds: "a_type r \<noteq> AccountTypeHold" if "r \<in> set (accounts d)" "a_customer_id r = None" for r
    using bk that by (auto simp: books_def account_matches_def dest!: bspec split: account_type.splits)
  have 1: "total_of (\<lambda>r. (?p r \<and> \<not> a_customer_id r \<noteq> None) \<and> a_type r = AccountTypeAvailable) ?b (accounts d) = ?b v"
    by (rule total_of_unique [OF key v(1)]) (use v in \<open>auto simp: account_key_def\<close>)
  have 2: "total_of (\<lambda>r. (?p r \<and> \<not> a_customer_id r \<noteq> None) \<and> a_type r \<noteq> AccountTypeAvailable) ?b (accounts d) = ?b y"
  proof (rule total_of_unique [OF key y(1)])
    fix s assume "s \<in> set (accounts d)"
    then show "(?p s \<and> \<not> a_customer_id s \<noteq> None) \<and> a_type s \<noteq> AccountTypeAvailable \<longleftrightarrow> account_key s = account_key y"
      using kinds [of s] y(2) by (cases "a_type s") (auto simp: account_key_def)
  qed
  have "pair_total d ch a = customer_total d ch a + (?b v + ?b y)"
    unfolding pair_total_def customer_total_def
    using total_of_split [of ?p ?b "accounts d" "\<lambda>r. a_customer_id r \<noteq> None"]
      total_of_split [of "\<lambda>r. ?p r \<and> \<not> a_customer_id r \<noteq> None" ?b "accounts d" "\<lambda>r. a_type r = AccountTypeAvailable"] 1 2
    by simp
  moreover have "?b v = - credited d ch a" "?b y = settled d ch a"
    using bspec [OF bk [unfolded books_def] v(1)] bspec [OF bk [unfolded books_def] y(1)] v(2) y(2)
    by (simp_all add: account_matches_def account_key_def)
  ultimately show ?thesis
    using assms(1) by (simp add: ledger_ok_def pairs_balanced_def)
qed

lemma customer_balances_nonneg:
  assumes "ledger_ok d" "r \<in> set (accounts d)" "a_customer_id r \<noteq> None"
  shows "0 \<le> balance d (a_id r)"
proof -
  have amt: "0 \<le> w_amount x" if "x \<in> set (withdrawals d)" for x
    using assms(1) that by (auto simp: ledger_ok_def schema_ok_def withdrawals_ok_def withdrawal_checks_def less_imp_le)
  have h: "0 \<le> held d c ch a" for c ch a
    unfolding held_def total_of_def by (rule sum_list_nonneg) (use amt in auto)
  show ?thesis
    using assms h by (cases "a_type r") (auto simp: ledger_ok_def books_def account_matches_def dest!: bspec)
qed


subsection \<open>Lemmas for the properties\<close>

lemma wire_backed:
  assumes "safe w" "(ch, bs) \<in> set (wire w)"
  obtains x b where "x \<in> set (withdrawals (db w))" "b \<in> set (broadcast_attempts (db w))" "attempt_of (db w) x b"
    "b_chain b = ch" "claimed_status (w_status x)" "decode_signed_tx (b_signed_tx b) = Some bs" "bs \<noteq> []"
proof -
  from assms obtain b where b: "b \<in> set (broadcast_attempts (db w))" "b_chain b = ch"
    "decode_signed_tx (b_signed_tx b) = Some bs" "bs \<noteq> []"
    by (auto simp: safe_def wire_ok_def)
  have s: "attempts_ok (db w)" and m: "attempts_match (db w)"
    using assms(1) by (auto simp: safe_def core_ok_def ledger_ok_def schema_ok_def pipeline_ok_def)
  from s b(1) obtain x where x: "x \<in> set (withdrawals (db w))" "w_id x = b_withdrawal_id b"
    by (force simp: attempts_ok_def)
  have st: "claimed_status (w_status x)"
    using m x b(1) by (force simp: attempts_match_def split: if_splits)
  then obtain b' where b': "attempt_of (db w) x b'"
    using m x(1) unfolding attempts_match_def by meson
  then have "b' = b"
    using s b(1) x(2) by (auto simp: attempt_of_def attempts_ok_def distinct_map dest: inj_onD)
  with that [OF x(1) b(1) _ b(2) st b(3,4)] b' show thesis by blast
qed

text \<open>A chain has seen no more transactions than nonces were handed out.\<close>

lemma sent_bound:
  assumes "safe w" "n \<in> set (chain_nonce_state (db w))"
  shows "int (card {bs. (n_chain n, bs) \<in> set (wire w)}) \<le> n_next_nonce n"
proof -
  let ?f = "filter (\<lambda>b. b_chain b = n_chain n) (broadcast_attempts (db w))"
  have n: "map b_nonce ?f = map int [0..<nat (n_next_nonce n)]" "0 \<le> n_next_nonce n"
    using assms by (auto simp: safe_def core_ok_def pipeline_ok_def nonces_ok_def)
  have "{bs. (n_chain n, bs) \<in> set (wire w)} \<subseteq> (\<lambda>b. the (decode_signed_tx (b_signed_tx b))) ` set ?f"
  proof
    fix bs assume "bs \<in> {bs. (n_chain n, bs) \<in> set (wire w)}"
    then obtain b where "b \<in> set ?f" "decode_signed_tx (b_signed_tx b) = Some bs"
      by (auto elim: wire_backed [OF assms(1)])
    then show "bs \<in> (\<lambda>b. the (decode_signed_tx (b_signed_tx b))) ` set ?f"
      by force
  qed
  then have "card {bs. (n_chain n, bs) \<in> set (wire w)} \<le> length ?f"
    by (meson card_image_le card_length card_mono finite_imageI finite_set le_trans)
  moreover have "length ?f = nat (n_next_nonce n)"
    using arg_cong [OF n(1), of length] by simp
  ultimately show ?thesis
    using n(2) by simp
qed

lemma list_all2_in_set1:
  assumes "list_all2 P xs ys" "x \<in> set xs"
  obtains y where "y \<in> set ys" "P x y"
  using assms by (induction xs ys rule: list_all2_induct) auto

lemma advance_final:
  assumes "status_edge\<^sup>*\<^sup>* s s'" "\<not> open_status s"
  shows "s' = s"
  using assms by (induction rule: rtranclp_induct) (auto simp: open_status_def elim: status_edgeE)

lemma steps_keep:
  assumes "(step dp tokens)\<^sup>*\<^sup>* w w'" "safe w"
  shows "safe w' \<and> evolves (db w) (db w')"
  using assms
proof (induction rule: rtranclp_induct)
  case (step y z)
  then show ?case
    using step_keeps evolves_trans by blast
qed simp

end
