(* ===== verification/Fee_Estimator.thy ===== *)
theory Fee_Estimator
  imports Scanner Withdrawals
begin

text \<open>
  The fee estimator of the api process (\<^verbatim>\<open>evm/fee_estimator.go\<close>): the representative transaction, the
  two fee components per chain, and the lookup of the USDC contract it shares with the broadcaster.

  \<open>abi_lib\<close> and \<open>tx_lib\<close> hold the functions of go-ethereum it calls, over an abstract type of
  transactions; \<open>fee_client\<close> the calls to the node of a chain.  A registry is the list of the
  entries of the Go map.
\<close>

subsection \<open>go-ethereum and the node\<close>

datatype abi_value = AbiUint64 u64 | AbiBigInt int | AbiOther

record abi_lib =
  PackTransfer :: "byte list \<Rightarrow> int \<Rightarrow> error + byte list"
  PackGasEstimateComponents :: "byte list \<Rightarrow> bool \<Rightarrow> byte list \<Rightarrow> error + byte list"
  UnpackGasEstimateComponents :: "byte list \<Rightarrow> error + abi_value list"
  PackL1FeeUpperBound :: "int \<Rightarrow> error + byte list"
  UnpackL1FeeUpperBound :: "byte list \<Rightarrow> error + abi_value list"

record dynamic_fee_tx =
  dt_chain_id :: int
  dt_nonce :: u64
  dt_gas_tip_cap :: int
  dt_gas_fee_cap :: int
  dt_gas :: u64
  dt_to :: "byte list"
  dt_value :: int
  dt_data :: "byte list"

record 't tx_lib =
  NewTx :: "dynamic_fee_tx \<Rightarrow> 't"
  MarshalBinary :: "'t \<Rightarrow> error + byte list"
  UnmarshalBinary :: "byte list \<Rightarrow> string + 't"
  TxChainId :: "'t \<Rightarrow> int"
  SigningHash :: "int \<Rightarrow> 't \<Rightarrow> byte list"
  WithSignature :: "int \<Rightarrow> 't \<Rightarrow> byte list \<Rightarrow> error + 't"
  TxHash :: "'t \<Rightarrow> byte list"
  HexToHash :: "string \<Rightarrow> byte list"

record call_msg =
  cm_to :: "byte list"
  cm_data :: "byte list"
  cm_value :: int

record fee_client =
  CallContext :: "byte list \<Rightarrow> byte list \<Rightarrow> error + byte list"
  EstimateGas :: "call_msg \<Rightarrow> error + u64"
  SuggestGasPrice :: "error + int"

type_synonym token_entries = "chain \<Rightarrow> error + (address \<times> asset) list"

subsection \<open>The representative transaction\<close>

definition nodeInterfaceAddress :: "evm_lib \<Rightarrow> byte list" where
  "nodeInterfaceAddress lib = HexToAddress lib ''0x00000000000000000000000000000000000000C8''"

definition gasPriceOracleAddress :: "evm_lib \<Rightarrow> byte list" where
  "gasPriceOracleAddress lib = HexToAddress lib ''0x420000000000000000000000000000000000000F''"

definition feeEstimatePlaceholderAddress :: "evm_lib \<Rightarrow> byte list" where
  "feeEstimatePlaceholderAddress lib = HexToAddress lib ''0x000000000000000000000000000000000000dEaD''"

definition usdcContractAddress :: "evm_lib \<Rightarrow> token_entries \<Rightarrow> chain \<Rightarrow> error + byte list" where
  "usdcContractAddress lib registry ch =
     (case registry ch of
        Inl e \<Rightarrow> Inl e
      | Inr entries \<Rightarrow>
     (case map (\<lambda>(a, _). HexToAddress lib a) (filter (\<lambda>(_, x). x = AssetUSDC) entries) of
        [] \<Rightarrow> Inl (ErrText ''no token_registry entry for USDC'')
      | [found] \<Rightarrow> Inr found
      | _ \<Rightarrow> Inl (ErrText ''ambiguous token_registry'')))"

definition representativeTransaction ::
    "evm_lib \<Rightarrow> abi_lib \<Rightarrow> token_entries \<Rightarrow> chain \<Rightarrow> asset \<Rightarrow> int \<Rightarrow> error + byte list \<times> byte list \<times> int" where
  "representativeTransaction lib abi registry ch a amount =
     (if a = AssetETH then Inr (feeEstimatePlaceholderAddress lib, [], amount)
      else if a = AssetUSDC then
        (case usdcContractAddress lib registry ch of
           Inl e \<Rightarrow> Inl e
         | Inr usdcAddress \<Rightarrow>
        (case PackTransfer abi (feeEstimatePlaceholderAddress lib) 0 of
           Inl e \<Rightarrow> Inl e | Inr packed \<Rightarrow> Inr (usdcAddress, packed, 0)))
      else Inl (ErrText ''fee estimation not supported for asset''))"

subsection \<open>Arbitrum\<close>

definition ethCall :: "fee_client \<Rightarrow> byte list \<Rightarrow> byte list \<Rightarrow> error + byte list" where
  "ethCall client to_address calldata = CallContext client to_address calldata"

definition arbitrum_split :: "u64 \<Rightarrow> u64 \<Rightarrow> int \<Rightarrow> error + fee_estimate" where
  "arbitrum_split gasEstimate gasEstimateForL1 baseFee =
     (let l2Gas = uint gasEstimate - uint gasEstimateForL1 in
      if l2Gas < 0 then Inl (ErrText ''gasEstimateForL1 exceeds gasEstimate'')
      else Inr \<lparr>fe_l2 = Some (l2Gas * baseFee), fe_l1 = Some (uint gasEstimateForL1 * baseFee),
                fe_total = Some (uint gasEstimate * baseFee)\<rparr>)"

definition gas_components :: "abi_value list \<Rightarrow> error + u64 \<times> u64 \<times> int" where
  "gas_components outputs =
     (case outputs of
        [o0, o1, o2, o3] \<Rightarrow>
          (case o0 of
             AbiUint64 gasEstimate \<Rightarrow>
               (case o1 of
                  AbiUint64 gasEstimateForL1 \<Rightarrow>
                    (case o2 of
                       AbiBigInt baseFee \<Rightarrow> Inr (gasEstimate, gasEstimateForL1, baseFee)
                     | _ \<Rightarrow> Inl (ErrText ''unexpected type for baseFee''))
                | _ \<Rightarrow> Inl (ErrText ''unexpected type for gasEstimateForL1''))
           | _ \<Rightarrow> Inl (ErrText ''unexpected type for gasEstimate''))
      | _ \<Rightarrow> Inl (ErrText ''gasEstimateComponents: want 4 outputs''))"

definition estimateArbitrumFee ::
    "evm_lib \<Rightarrow> abi_lib \<Rightarrow> fee_client \<Rightarrow> byte list \<Rightarrow> byte list \<Rightarrow> error + fee_estimate" where
  "estimateArbitrumFee lib abi client to_address packed =
     (case PackGasEstimateComponents abi to_address False packed of
        Inl e \<Rightarrow> Inl e
      | Inr calldata \<Rightarrow>
     (case ethCall client (nodeInterfaceAddress lib) calldata of
        Inl e \<Rightarrow> Inl e
      | Inr result \<Rightarrow>
     (case UnpackGasEstimateComponents abi result of
        Inl e \<Rightarrow> Inl e
      | Inr outputs \<Rightarrow>
     (case gas_components outputs of
        Inl e \<Rightarrow> Inl e
      | Inr (gasEstimate, gasEstimateForL1, baseFee) \<Rightarrow>
          arbitrum_split gasEstimate gasEstimateForL1 baseFee))))"

subsection \<open>Base\<close>

text \<open>A transaction that cannot be marshalled panics.\<close>

definition representativeUnsignedTxSize ::
    "'t tx_lib \<Rightarrow> byte list \<Rightarrow> byte list \<Rightarrow> int \<Rightarrow> u64 \<Rightarrow> int \<Rightarrow> error + int" where
  "representativeUnsignedTxSize txs to_address packed v gasLimit gasPrice =
     (case MarshalBinary txs (NewTx txs
        \<lparr>dt_chain_id = 0, dt_nonce = 0, dt_gas_tip_cap = gasPrice, dt_gas_fee_cap = gasPrice, dt_gas = gasLimit,
         dt_to = to_address, dt_value = v, dt_data = packed\<rparr>) of
        Inl e \<Rightarrow> Inl (ErrText ''panic: marshal representative unsigned transaction'')
      | Inr encoded \<Rightarrow> Inr (int (length encoded)))"

definition l1_fee_bound :: "abi_value list \<Rightarrow> error + int" where
  "l1_fee_bound outputs =
     (case outputs of
        [o0] \<Rightarrow> (case o0 of AbiBigInt l1Fee \<Rightarrow> Inr l1Fee
                 | _ \<Rightarrow> Inl (ErrText ''getL1FeeUpperBound: unexpected type for result''))
      | _ \<Rightarrow> Inl (ErrText ''getL1FeeUpperBound: want 1 output''))"

definition estimateBaseFee ::
    "evm_lib \<Rightarrow> abi_lib \<Rightarrow> 't tx_lib \<Rightarrow> fee_client \<Rightarrow> byte list \<Rightarrow> byte list \<Rightarrow> int \<Rightarrow> error + fee_estimate" where
  "estimateBaseFee lib abi txs client to_address packed v =
     (case EstimateGas client \<lparr>cm_to = to_address, cm_data = packed, cm_value = v\<rparr> of
        Inl e \<Rightarrow> Inl e
      | Inr gasLimit \<Rightarrow>
     (case SuggestGasPrice client of
        Inl e \<Rightarrow> Inl e
      | Inr gasPrice \<Rightarrow>
     (let l2Fee = uint gasLimit * gasPrice in
      case representativeUnsignedTxSize txs to_address packed v gasLimit gasPrice of
        Inl e \<Rightarrow> Inl e
      | Inr txSize \<Rightarrow>
     (case PackL1FeeUpperBound abi txSize of
        Inl e \<Rightarrow> Inl e
      | Inr calldata \<Rightarrow>
     (case ethCall client (gasPriceOracleAddress lib) calldata of
        Inl e \<Rightarrow> Inl e
      | Inr result \<Rightarrow>
     (case UnpackL1FeeUpperBound abi result of
        Inl e \<Rightarrow> Inl e
      | Inr outputs \<Rightarrow>
     (case l1_fee_bound outputs of
        Inl e \<Rightarrow> Inl e
      | Inr l1Fee \<Rightarrow> Inr \<lparr>fe_l2 = Some l2Fee, fe_l1 = Some l1Fee, fe_total = Some (l2Fee + l1Fee)\<rparr>)))))))"

subsection \<open>EstimateFee\<close>

definition FeeEstimator_EstimateFee ::
    "evm_lib \<Rightarrow> abi_lib \<Rightarrow> 't tx_lib \<Rightarrow> (chain \<Rightarrow> fee_client option) \<Rightarrow> token_entries \<Rightarrow> fee_estimator" where
  "FeeEstimator_EstimateFee lib abi txs clients registry ch a amount =
     (case clients ch of
        None \<Rightarrow> Inl (ErrText ''fee estimation: no configured RPC client'')
      | Some client \<Rightarrow>
     (case representativeTransaction lib abi registry ch a amount of
        Inl e \<Rightarrow> Inl e
      | Inr (to_address, packed, v) \<Rightarrow>
          if ch = ChainArbitrum then estimateArbitrumFee lib abi client to_address packed
          else if ch = ChainBase then estimateBaseFee lib abi txs client to_address packed v
          else Inl (ErrText ''fee estimation not supported for chain'')))"

subsection \<open>What an estimate is made of\<close>

lemma usdcContractAddress_Inr:
  assumes "usdcContractAddress lib registry ch = Inr to_address"
  obtains entries a where "registry ch = Inr entries" "filter (\<lambda>(_, x). x = AssetUSDC) entries = [(a, AssetUSDC)]"
    "to_address = HexToAddress lib a"
proof -
  from assms obtain entries where r: "registry ch = Inr entries"
    and m: "map (\<lambda>(a, _). HexToAddress lib a) (filter (\<lambda>(_, x). x = AssetUSDC) entries) = [to_address]"
    by (auto simp: usdcContractAddress_def split: sum.splits list.splits)
  from m obtain a x where f: "filter (\<lambda>(_, x). x = AssetUSDC) entries = [(a, x)]" "to_address = HexToAddress lib a"
    by auto
  have "\<forall>p\<in>set (filter (\<lambda>(_, x). x = AssetUSDC) entries). snd p = AssetUSDC"
    by auto
  then have "x = AssetUSDC"
    unfolding f(1) by simp
  then show thesis
    using that r f by simp
qed

lemma arbitrum_split_Inr:
  assumes "arbitrum_split g g1 b = Inr fe"
  shows "uint g1 \<le> uint g" "fe = \<lparr>fe_l2 = Some ((uint g - uint g1) * b), fe_l1 = Some (uint g1 * b),
    fe_total = Some ((uint g - uint g1) * b + uint g1 * b)\<rparr>"
  using assms by (auto simp: arbitrum_split_def Let_def algebra_simps split: if_splits)

lemma gas_components_Inr: "gas_components outputs = Inr (g, g1, b) \<longleftrightarrow>
    (\<exists>o3. outputs = [AbiUint64 g, AbiUint64 g1, AbiBigInt b, o3])"
  by (auto simp: gas_components_def split: list.splits abi_value.splits)

lemma l1_fee_bound_Inr: "l1_fee_bound outputs = Inr l1 \<longleftrightarrow> outputs = [AbiBigInt l1]"
  by (auto simp: l1_fee_bound_def split: list.splits abi_value.splits)

text \<open>The answers of the node an estimate rests on.\<close>

definition arbitrum_answer ::
    "evm_lib \<Rightarrow> abi_lib \<Rightarrow> fee_client \<Rightarrow> byte list \<Rightarrow> byte list \<Rightarrow> u64 \<Rightarrow> u64 \<Rightarrow> int \<Rightarrow> bool" where
  "arbitrum_answer lib abi client to_address packed g g1 b \<longleftrightarrow>
     (\<exists>calldata result o3. PackGasEstimateComponents abi to_address False packed = Inr calldata \<and>
        CallContext client (nodeInterfaceAddress lib) calldata = Inr result \<and>
        UnpackGasEstimateComponents abi result = Inr [AbiUint64 g, AbiUint64 g1, AbiBigInt b, o3])"

definition base_answer ::
    "evm_lib \<Rightarrow> abi_lib \<Rightarrow> 't tx_lib \<Rightarrow> fee_client \<Rightarrow> byte list \<Rightarrow> byte list \<Rightarrow> int \<Rightarrow> u64 \<Rightarrow> int \<Rightarrow> int \<Rightarrow> bool" where
  "base_answer lib abi txs client to_address packed v gas price l1 \<longleftrightarrow>
     EstimateGas client \<lparr>cm_to = to_address, cm_data = packed, cm_value = v\<rparr> = Inr gas \<and>
     SuggestGasPrice client = Inr price \<and>
     (\<exists>txSize calldata result. representativeUnsignedTxSize txs to_address packed v gas price = Inr txSize \<and>
        PackL1FeeUpperBound abi txSize = Inr calldata \<and>
        CallContext client (gasPriceOracleAddress lib) calldata = Inr result \<and>
        UnpackL1FeeUpperBound abi result = Inr [AbiBigInt l1])"

lemma estimateArbitrumFee_Inr:
  assumes "estimateArbitrumFee lib abi client to_address packed = Inr fe"
  obtains g g1 b where "arbitrum_answer lib abi client to_address packed g g1 b" "arbitrum_split g g1 b = Inr fe"
  using assms
  by (auto simp: estimateArbitrumFee_def ethCall_def arbitrum_answer_def gas_components_Inr split: sum.splits)

lemma estimateBaseFee_Inr:
  assumes "estimateBaseFee lib abi txs client to_address packed v = Inr fe"
  obtains gas price l1 where "base_answer lib abi txs client to_address packed v gas price l1"
    "fe = \<lparr>fe_l2 = Some (uint gas * price), fe_l1 = Some l1, fe_total = Some (uint gas * price + l1)\<rparr>"
  using assms
  by (auto simp: estimateBaseFee_def ethCall_def base_answer_def l1_fee_bound_Inr Let_def split: sum.splits)

lemma representative_Inr:
  assumes "representativeTransaction lib abi registry ch a x = Inr (to_address, packed, v)"
  shows "a = AssetETH \<and> to_address = feeEstimatePlaceholderAddress lib \<and> packed = [] \<and> v = x \<or>
    a = AssetUSDC \<and> v = 0 \<and> PackTransfer abi (feeEstimatePlaceholderAddress lib) 0 = Inr packed \<and>
      (\<exists>entries c. registry ch = Inr entries \<and> filter (\<lambda>(_, x). x = AssetUSDC) entries = [(c, AssetUSDC)] \<and>
         to_address = HexToAddress lib c)"
  using assms
  by (auto simp: representativeTransaction_def split: if_splits sum.splits elim!: usdcContractAddress_Inr)

end
