(* ===== verification/Signer.thy ===== *)
theory Signer
  imports Encoding Domain
begin

text \<open>
  The two implementations of the port \<^verbatim>\<open>Signer\<close>: AWS KMS (\<^verbatim>\<open>signer/kms/kms_signer.go\<close>) and a key in
  memory (\<^verbatim>\<open>signer/software/software_signer.go\<close>).

  \<open>curve_lib\<close> holds the functions of \<^verbatim>\<open>decred/dcrd/dcrec/secp256k1\<close> and the Keccak hash they call, over
  types of public and private keys that stay abstract; \<open>kms_client\<close> the two calls of the AWS client.
  A panic of \<^verbatim>\<open>FillBytes\<close> is an error value.

  The locale \<open>core_signer\<close> is the contract of the port: a signature has 65 bytes and recovers to the
  key of the signer.  The KMS signer meets it for every client and library, because it checks the
  recovered key itself.
\<close>

subsection \<open>Libraries\<close>

record ('p, 'k) curve_lib =
  ParsePubKey :: "byte list \<Rightarrow> error + 'p"
  SerializeUncompressed :: "'p \<Rightarrow> byte list"
  RecoverCompact :: "byte list \<Rightarrow> byte list \<Rightarrow> error + 'p"
  IsEqual :: "'p \<Rightarrow> 'p \<Rightarrow> bool"
  LegacyKeccak256 :: "byte list \<Rightarrow> byte list"
  ScalarOverflows :: "byte list \<Rightarrow> bool"
  PrivKeyFromBytes :: "byte list \<Rightarrow> 'k"
  KeyIsZero :: "'k \<Rightarrow> bool"
  PubKey :: "'k \<Rightarrow> 'p"
  SignCompact :: "'k \<Rightarrow> byte list \<Rightarrow> byte list"

record kms_client =
  KmsSign :: "byte list \<Rightarrow> error + byte list"
  KmsGetPublicKey :: "error + byte list"

subsection \<open>Addresses\<close>

definition deriveAddress :: "('p, 'k) curve_lib \<Rightarrow> 'p \<Rightarrow> address" where
  "deriveAddress lib pub =
     ''0x'' @ hex_encode (drop 12 (LegacyKeccak256 lib (drop 1 (SerializeUncompressed lib pub))))"

subsection \<open>The KMS signer\<close>

definition secp256k1N :: int where
  "secp256k1N = 0xFFFFFFFFFFFFFFFFFFFFFFFFFFFFFFFEBAAEDCE6AF48A03BBFD25E8CD0364141"

definition secp256k1HalfN :: int where
  "secp256k1HalfN = drop_bit 1 secp256k1N"

record ('p, 'k) kms_signer =
  ks_client :: kms_client
  ks_pubKey :: 'p
  ks_address :: address

text \<open>\<^verbatim>\<open>asn1.Unmarshal\<close> into the algorithm and the bits of a key; bytes after the fields are allowed.\<close>

definition parse_algorithm :: "byte list \<Rightarrow> error option" where
  "parse_algorithm bs =
     (case parse_field TagOID bs of
        Inl e \<Rightarrow> Some e
      | Inr (oid, rest) \<Rightarrow>
     (case parseObjectIdentifier oid of
        Some e \<Rightarrow> Some e
      | None \<Rightarrow> if rest = [] then None else (case parse_any rest of Inl e \<Rightarrow> Some e | Inr _ \<Rightarrow> None)))"

definition parseSPKIPublicKey :: "('p, 'k) curve_lib \<Rightarrow> byte list \<Rightarrow> error + 'p" where
  "parseSPKIPublicKey lib der =
     (case parse_field TagSequence der of
        Inl e \<Rightarrow> Inl e
      | Inr (inner, _) \<Rightarrow>
     (case parse_field TagSequence inner of
        Inl e \<Rightarrow> Inl e
      | Inr (algorithm, rest) \<Rightarrow>
     (case parse_algorithm algorithm of
        Some e \<Rightarrow> Inl e
      | None \<Rightarrow>
     (case parse_field TagBitString rest of
        Inl e \<Rightarrow> Inl e
      | Inr (bits, _) \<Rightarrow>
     (case parseBitString bits of Inl e \<Rightarrow> Inl e | Inr point \<Rightarrow> ParsePubKey lib point)))))"

definition new_kms_signer :: "('p, 'k) curve_lib \<Rightarrow> kms_client \<Rightarrow> error + ('p, 'k) kms_signer" where
  "new_kms_signer lib client =
     (case KmsGetPublicKey client of
        Inl e \<Rightarrow> Inl e
      | Inr der \<Rightarrow>
     (case parseSPKIPublicKey lib der of
        Inl e \<Rightarrow> Inl e
      | Inr pub \<Rightarrow> Inr \<lparr>ks_client = client, ks_pubKey = pub, ks_address = deriveAddress lib pub\<rparr>))"

definition parseDERSignature :: "byte list \<Rightarrow> error + int \<times> int" where
  "parseDERSignature der =
     (case parse_field TagSequence der of
        Inl e \<Rightarrow> Inl e
      | Inr (inner, _) \<Rightarrow>
     (case parse_field TagInteger inner of
        Inl e \<Rightarrow> Inl e
      | Inr (rb, rest) \<Rightarrow>
     (case parseBigInt rb of
        Inl e \<Rightarrow> Inl e
      | Inr r \<Rightarrow>
     (case parse_field TagInteger rest of
        Inl e \<Rightarrow> Inl e
      | Inr (sb, _) \<Rightarrow> (case parseBigInt sb of Inl e \<Rightarrow> Inl e | Inr s \<Rightarrow> Inr (r, s))))))"

definition normalizeLowS :: "int \<Rightarrow> int" where
  "normalizeLowS s = (if s > secp256k1HalfN then secp256k1N - s else s)"

definition compact_signature :: "byte \<Rightarrow> byte list \<Rightarrow> byte list \<Rightarrow> byte list" where
  "compact_signature v rBytes sBytes = (27 + v) # rBytes @ sBytes"

fun try_recovery :: "('p, 'k) curve_lib \<Rightarrow> byte list \<Rightarrow> byte list \<Rightarrow> byte list \<Rightarrow> 'p \<Rightarrow> byte list \<Rightarrow> error + byte" where
  "try_recovery lib digest rBytes sBytes want [] =
     Inl (ErrText ''no recovery id in {0, 1} recovered the expected public key for this signature'')"
| "try_recovery lib digest rBytes sBytes want (v # vs) =
     (case RecoverCompact lib (compact_signature v rBytes sBytes) digest of
        Inl _ \<Rightarrow> try_recovery lib digest rBytes sBytes want vs
      | Inr candidate \<Rightarrow>
          if IsEqual lib candidate want then Inr v else try_recovery lib digest rBytes sBytes want vs)"

definition recoverRecoveryID :: "('p, 'k) curve_lib \<Rightarrow> byte list \<Rightarrow> int \<Rightarrow> int \<Rightarrow> 'p \<Rightarrow> error + byte" where
  "recoverRecoveryID lib digest r s want =
     (case FillBytes 32 r of
        Inl e \<Rightarrow> Inl e
      | Inr rBytes \<Rightarrow>
     (case FillBytes 32 s of
        Inl e \<Rightarrow> Inl e
      | Inr sBytes \<Rightarrow> try_recovery lib digest rBytes sBytes want [0, 1]))"

definition kms_Sign :: "('p, 'k) curve_lib \<Rightarrow> ('p, 'k) kms_signer \<Rightarrow> byte list \<Rightarrow> error + byte list" where
  "kms_Sign lib signer digest =
     (case KmsSign (ks_client signer) digest of
        Inl e \<Rightarrow> Inl e
      | Inr der \<Rightarrow>
     (case parseDERSignature der of
        Inl e \<Rightarrow> Inl e
      | Inr (r, s) \<Rightarrow>
     (let sig = normalizeLowS s in
      case recoverRecoveryID lib digest r sig (ks_pubKey signer) of
        Inl e \<Rightarrow> Inl e
      | Inr v \<Rightarrow>
     (case FillBytes 32 r of
        Inl e \<Rightarrow> Inl e
      | Inr rBytes \<Rightarrow>
     (case FillBytes 32 sig of Inl e \<Rightarrow> Inl e | Inr sBytes \<Rightarrow> Inr (rBytes @ sBytes @ [v]))))))"

subsection \<open>The software signer\<close>

record 'k software_signer =
  ss_privateKey :: 'k
  ss_address :: address

definition PrivKeyBytesLen :: nat where "PrivKeyBytesLen = 32"

definition new_software_signer :: "('p, 'k) curve_lib \<Rightarrow> string \<Rightarrow> error + 'k software_signer" where
  "new_software_signer lib privateKeyHex =
     (case hex_decode (trim_prefix ''0x'' privateKeyHex) of
        None \<Rightarrow> Inl (ErrText ''decode signer private key hex'')
      | Some keyBytes \<Rightarrow>
          if length keyBytes \<noteq> PrivKeyBytesLen
          then Inl (ErrText ''signer private key must be exactly 32 bytes'')
          else if ScalarOverflows lib keyBytes
          then Inl (ErrText ''signer private key must be less than the secp256k1 curve order'')
          else (let privateKey = PrivKeyFromBytes lib keyBytes in
            if KeyIsZero lib privateKey then Inl (ErrText ''signer private key must not be zero'')
            else Inr \<lparr>ss_privateKey = privateKey, ss_address = deriveAddress lib (PubKey lib privateKey)\<rparr>))"

definition software_Sign :: "('p, 'k) curve_lib \<Rightarrow> 'k software_signer \<Rightarrow> byte list \<Rightarrow> error + byte list" where
  "software_Sign lib signer digest =
     (let compact = SignCompact lib (ss_privateKey signer) digest in
      if length compact \<noteq> 65 then Inl (ErrText ''unexpected compact signature length'')
      else Inr (take 64 (drop 1 compact) @ [hd compact - 27]))"

subsection \<open>The contract of the port\<close>

text \<open>What it takes to accept a signature of the digest for a key.\<close>

definition recovers_to :: "('p, 'k) curve_lib \<Rightarrow> 'p \<Rightarrow> byte list \<Rightarrow> byte list \<Rightarrow> bool" where
  "recovers_to lib pub digest sig \<longleftrightarrow>
     (case RecoverCompact lib ((27 + last sig) # butlast sig) digest of
        Inl _ \<Rightarrow> False | Inr candidate \<Rightarrow> IsEqual lib candidate pub)"

locale core_signer =
  fixes sign :: "byte list \<Rightarrow> error + byte list"
    and accepts :: "byte list \<Rightarrow> byte list \<Rightarrow> bool"
  assumes shape: "sign digest = Inr sig \<Longrightarrow> length sig = 65"
    and genuine: "sign digest = Inr sig \<Longrightarrow> accepts digest sig"
begin

lemma signed_parts:
  assumes "sign digest = Inr sig"
  obtains rb sb v where "sig = rb @ sb @ [v]" "length rb = 32" "length sb = 32" "accepts digest (rb @ sb @ [v])"
proof -
  let ?b = "butlast sig"
  have l: "length sig = 65"
    by (rule shape [OF assms])
  then have "sig = ?b @ [last sig]"
    by (metis append_butlast_last_id list.size(3) zero_neq_numeral)
  then have "sig = take 32 ?b @ drop 32 ?b @ [last sig]"
    by (metis append.assoc append_take_drop_id)
  then show thesis
    using that [of "take 32 ?b" "drop 32 ?b" "last sig"] l genuine [OF assms] by simp
qed

end

lemma FillBytes_Inr: "FillBytes k n = Inr bs \<longleftrightarrow> \<bar>n\<bar> < 256 ^ k \<and> bs = big_endian k \<bar>n\<bar>"
  by (auto simp: FillBytes_def)

lemma try_recovery_Inr:
  assumes "try_recovery lib digest rb sb want vs = Inr v"
  shows "v \<in> set vs \<and> (\<exists>p. RecoverCompact lib (compact_signature v rb sb) digest = Inr p \<and> IsEqual lib p want)"
  using assms by (induction vs) (auto split: sum.splits if_splits)

lemma kms_Sign_InrE:
  assumes "kms_Sign lib signer digest = Inr sig"
  obtains der r s rb sb v p where "KmsSign (ks_client signer) digest = Inr der" "parseDERSignature der = Inr (r, s)"
    "FillBytes 32 r = Inr rb" "FillBytes 32 (normalizeLowS s) = Inr sb" "sig = rb @ sb @ [v]" "v \<in> {0, 1}"
    "RecoverCompact lib (compact_signature v rb sb) digest = Inr p" "IsEqual lib p (ks_pubKey signer)"
proof -
  from assms obtain der r s rb sb v where k: "KmsSign (ks_client signer) digest = Inr der"
    "parseDERSignature der = Inr (r, s)" "FillBytes 32 r = Inr rb" "FillBytes 32 (normalizeLowS s) = Inr sb"
    "sig = rb @ sb @ [v]" and v: "try_recovery lib digest rb sb (ks_pubKey signer) [0, 1] = Inr v"
    by (auto simp: kms_Sign_def recoverRecoveryID_def Let_def split: sum.splits simp del: try_recovery.simps)
  from try_recovery_Inr [OF v] show thesis
    using that [OF k] by auto
qed

interpretation kms: core_signer "kms_Sign lib signer" "recovers_to lib (ks_pubKey signer)"
  for lib :: "('p, 'k) curve_lib" and signer :: "('p, 'k) kms_signer"
proof
  fix digest sig assume "kms_Sign lib signer digest = Inr sig"
  then show "length sig = 65"
    by (rule kms_Sign_InrE) (auto simp: FillBytes_Inr)
next
  fix digest sig assume "kms_Sign lib signer digest = Inr sig"
  then show "recovers_to lib (ks_pubKey signer) digest sig"
    by (rule kms_Sign_InrE) (simp add: recovers_to_def compact_signature_def butlast_append)
qed

text \<open>The software signer only moves the recovery byte from the front to the back.\<close>

lemma software_signature:
  assumes "software_Sign lib signer digest = Inr sig"
  shows "length sig = 65" "(27 + last sig) # butlast sig = SignCompact lib (ss_privateKey signer) digest"
  using assms by (cases "SignCompact lib (ss_privateKey signer) digest"; auto simp: software_Sign_def Let_def split: if_splits)+

text \<open>So it meets the contract when the library recovers what it signs.\<close>

lemma software_core_signer:
  assumes "\<And>digest. \<exists>p. RecoverCompact lib (SignCompact lib (ss_privateKey signer) digest) digest = Inr p \<and>
    IsEqual lib p (PubKey lib (ss_privateKey signer))"
  shows "core_signer (software_Sign lib signer) (recovers_to lib (PubKey lib (ss_privateKey signer)))"
proof
  fix digest sig assume s: "software_Sign lib signer digest = Inr sig"
  show "length sig = 65"
    by (rule software_signature(1) [OF s])
  show "recovers_to lib (PubKey lib (ss_privateKey signer)) digest sig"
    using assms [of digest] by (auto simp: recovers_to_def software_signature(2) [OF s])
qed

end
