(* ===== verification/Evm_Broadcaster.thy ===== *)
theory Evm_Broadcaster
  imports Fee_Estimator Signer Broadcaster
begin

text \<open>
  The chain side of the broadcaster (\<^verbatim>\<open>evm/broadcaster.go\<close>): the unsigned transaction of a withdrawal
  and its digest, the assembly with a signature, sending, and finalized receipts.  \<open>evm_ports\<close> joins it
  with the KMS signer into the ports the use cases of \<open>Broadcast\<close> call.
\<close>

subsection \<open>The node\<close>

record receipt =
  rc_block_number :: "int option"
  rc_status :: u64

record 't broadcast_client =
  bc_EstimateGas :: "call_msg \<Rightarrow> error + u64"
  bc_SuggestGasPrice :: "error + int"
  bc_SendTransaction :: "'t \<Rightarrow> string option"
  bc_TransactionReceipt :: "byte list \<Rightarrow> rpc_error + receipt"
  bc_HeaderByNumber :: "block_tag \<Rightarrow> rpc_error + block_header option"

record 't evm_broadcaster =
  eb_chain :: chain
  eb_chain_id :: u64
  eb_client :: "'t broadcast_client"
  eb_registry :: token_entries

definition checkChain :: "'t evm_broadcaster \<Rightarrow> chain \<Rightarrow> error option" where
  "checkChain b ch =
     (if eb_chain b \<noteq> ch then Some (ErrText ''broadcaster configured for another chain'') else None)"

subsection \<open>BuildUnsignedWithdrawal\<close>

text \<open>What the transaction of a withdrawal does: target, calldata, value, and the calldata that gas is
  estimated with.\<close>

definition withdrawal_call ::
    "evm_lib \<Rightarrow> abi_lib \<Rightarrow> token_entries \<Rightarrow> chain \<Rightarrow> asset \<Rightarrow> address \<Rightarrow> int \<Rightarrow>
     error + byte list \<times> byte list \<times> int \<times> byte list" where
  "withdrawal_call lib abi registry ch a to_address amount =
     (let destination = HexToAddress lib to_address in
      if a = AssetETH then Inr (destination, [], amount, [])
      else if a = AssetUSDC then
        (case usdcContractAddress lib registry ch of
           Inl e \<Rightarrow> Inl e
         | Inr usdcAddress \<Rightarrow>
        (case PackTransfer abi destination amount of
           Inl e \<Rightarrow> Inl e
         | Inr packed \<Rightarrow>
        (case PackTransfer abi destination 0 of
           Inl e \<Rightarrow> Inl e | Inr estimatePacked \<Rightarrow> Inr (usdcAddress, packed, 0, estimatePacked))))
      else Inl (ErrText ''broadcasting not supported for asset''))"

definition fee_cap :: "int \<Rightarrow> int" where
  "fee_cap gasPrice = gasPrice * 120 div 100"

definition withdrawal_tx ::
    "u64 \<Rightarrow> int \<Rightarrow> u64 \<Rightarrow> int \<Rightarrow> byte list \<Rightarrow> int \<Rightarrow> byte list \<Rightarrow> dynamic_fee_tx" where
  "withdrawal_tx chainID nonce gasLimit gasPrice txTo v packed =
     \<lparr>dt_chain_id = uint chainID, dt_nonce = word_of_int nonce, dt_gas_tip_cap = gasPrice,
      dt_gas_fee_cap = fee_cap gasPrice, dt_gas = gasLimit, dt_to = txTo, dt_value = v, dt_data = packed\<rparr>"

definition evm_BuildUnsignedWithdrawal ::
    "evm_lib \<Rightarrow> abi_lib \<Rightarrow> 't tx_lib \<Rightarrow> 't evm_broadcaster \<Rightarrow> chain \<Rightarrow> asset \<Rightarrow> int \<Rightarrow> address \<Rightarrow> int \<Rightarrow>
     error + byte list \<times> byte list" where
  "evm_BuildUnsignedWithdrawal lib abi txs b ch a nonce to_address amount =
     (case checkChain b ch of
        Some e \<Rightarrow> Inl e
      | None \<Rightarrow>
     (if nonce < 0 then Inl (ErrText ''nonce must be non-negative'')
      else if amount \<le> 0 then Inl (ErrText ''amount must be positive'')
      else
     (case withdrawal_call lib abi (eb_registry b) ch a to_address amount of
        Inl e \<Rightarrow> Inl e
      | Inr (txTo, packed, v, estimateData) \<Rightarrow>
     (case bc_EstimateGas (eb_client b) \<lparr>cm_to = txTo, cm_data = estimateData, cm_value = v\<rparr> of
        Inl e \<Rightarrow> Inl e
      | Inr gasLimit \<Rightarrow>
     (case bc_SuggestGasPrice (eb_client b) of
        Inl e \<Rightarrow> Inl e
      | Inr gasPrice \<Rightarrow>
     (let tx = NewTx txs (withdrawal_tx (eb_chain_id b) nonce gasLimit gasPrice txTo v packed) in
      case MarshalBinary txs tx of
        Inl e \<Rightarrow> Inl e
      | Inr encoded \<Rightarrow> Inr (SigningHash txs (uint (eb_chain_id b)) tx, encoded)))))))"

subsection \<open>AssembleSignedTx, SendRawTransaction\<close>

definition evm_AssembleSignedTx ::
    "evm_lib \<Rightarrow> 't tx_lib \<Rightarrow> byte list \<Rightarrow> byte list \<Rightarrow> error + byte list \<times> string" where
  "evm_AssembleSignedTx lib txs unsignedTx sig =
     (case UnmarshalBinary txs unsignedTx of
        Inl e \<Rightarrow> Inl (ErrText (''unmarshal unsigned withdrawal tx: '' @ e))
      | Inr tx \<Rightarrow>
     (case WithSignature txs (TxChainId txs tx) tx sig of
        Inl e \<Rightarrow> Inl e
      | Inr signedTx \<Rightarrow>
     (case MarshalBinary txs signedTx of
        Inl e \<Rightarrow> Inl e
      | Inr encoded \<Rightarrow> Inr (encoded, HashHex lib (TxHash txs signedTx)))))"

text \<open>The result is the text of the error, which the use case inspects.\<close>

definition evm_SendRawTransaction ::
    "'t tx_lib \<Rightarrow> 't evm_broadcaster \<Rightarrow> chain \<Rightarrow> byte list \<Rightarrow> string option" where
  "evm_SendRawTransaction txs b ch signedTx =
     (case checkChain b ch of
        Some e \<Rightarrow> Some ''broadcaster configured for another chain''
      | None \<Rightarrow>
     (case UnmarshalBinary txs signedTx of
        Inl e \<Rightarrow> Some (''unmarshal signed withdrawal tx: '' @ e)
      | Inr tx \<Rightarrow>
     (case bc_SendTransaction (eb_client b) tx of
        Some e \<Rightarrow> Some (''send raw withdrawal transaction: '' @ e)
      | None \<Rightarrow> None)))"

subsection \<open>GetFinalizedReceipt\<close>

definition ReceiptStatusSuccessful :: u64 where "ReceiptStatusSuccessful = 1"

definition evm_GetFinalizedReceipt ::
    "'t tx_lib \<Rightarrow> 't evm_broadcaster \<Rightarrow> chain \<Rightarrow> string \<Rightarrow> error + bool \<times> bool" where
  "evm_GetFinalizedReceipt txs b ch txHash =
     (case checkChain b ch of
        Some e \<Rightarrow> Inl e
      | None \<Rightarrow>
     (case bc_TransactionReceipt (eb_client b) (HexToHash txs txHash) of
        Inl NotFound \<Rightarrow> Inr (False, False)
      | Inl (RpcFailed e) \<Rightarrow> Inl e
      | Inr r \<Rightarrow>
     (case bc_HeaderByNumber (eb_client b) FinalizedBlockNumber of
        Inl NotFound \<Rightarrow> Inl (ErrText ''not found'')
      | Inl (RpcFailed e) \<Rightarrow> Inl e
      | Inr None \<Rightarrow> Inl (ErrText ''RPC returned no header'')
      | Inr (Some h) \<Rightarrow>
     (case bh_number h of
        None \<Rightarrow> Inl (ErrText ''RPC returned no header'')
      | Some finalized \<Rightarrow>
     (case rc_block_number r of
        None \<Rightarrow> Inr (False, False)
      | Some n \<Rightarrow>
          if n > finalized then Inr (False, False)
          else Inr (True, rc_status r = ReceiptStatusSuccessful))))))"

subsection \<open>The ports\<close>

definition evm_ports ::
    "evm_lib \<Rightarrow> abi_lib \<Rightarrow> 't tx_lib \<Rightarrow> 't evm_broadcaster \<Rightarrow> (byte list \<Rightarrow> error + byte list) \<Rightarrow> ports" where
  "evm_ports lib abi txs b sign =
     \<lparr>BuildUnsignedWithdrawal = evm_BuildUnsignedWithdrawal lib abi txs b, Sign = (\<lambda>ch. sign),
      AssembleSignedTx = evm_AssembleSignedTx lib txs, SendRawTransaction = evm_SendRawTransaction txs b,
      GetFinalizedReceipt = evm_GetFinalizedReceipt txs b\<rparr>"

end
