(* ===== verification/Adapter_Guarantees.thy ===== *)
theory Adapter_Guarantees
  imports Evm_Broadcaster Custody
begin

text \<open>
  The guarantees of the chain and signing adapters: the signature the KMS signer makes of an answer
  of KMS, what a raw transaction the broadcaster sends pays and who signed it, when a receipt counts,
  and what a fee estimate consists of.
\<close>

subsection \<open>Reading back a signature\<close>

lemma der_round_trip:
  assumes "0 \<le> r" "r < 256 ^ 32" "0 \<le> s" "s < 256 ^ 32"
  shows "parseDERSignature (der_signature r s @ rest) = Inr (r, s)"
proof -
  let ?r = "integer_bytes r" and ?s = "integer_bytes s"
  let ?body = "der_integer r @ der_integer s"
  have l: "length ?r \<le> 33" "length ?s \<le> 33"
    using length_integer_bytes assms by auto
  then have "length ?body < 128"
    by (simp add: der_integer_bytes)
  then have "parse_field TagSequence (der_signature r s @ rest) = Inr (?body, rest)"
    unfolding der_signature_def Let_def append_Cons append_assoc
    using parse_field_short [of "0x30" ?body rest TagSequence] by simp
  moreover have "parse_field TagInteger ?body = Inr (?r, der_integer s)"
    unfolding der_integer_bytes append_Cons append_assoc
    using parse_field_short [of 2 ?r "der_integer s" TagInteger] l by (simp add: der_integer_bytes)
  moreover have "parse_field TagInteger (der_integer s) = Inr (?s, [])"
    unfolding der_integer_bytes
    using parse_field_short [of 2 ?s "[]" TagInteger] l by simp
  ultimately show ?thesis
    using assms by (simp add: parseDERSignature_def parseBigInt_bytes)
qed

lemma half_N: "2 * secp256k1HalfN + 1 = secp256k1N" "secp256k1N < 256 ^ 32" "0 < secp256k1HalfN"
  by (simp_all add: secp256k1HalfN_def secp256k1N_def)

lemma normalizeLowS_bounds:
  assumes "0 < s" "s < secp256k1N"
  shows "0 < normalizeLowS s" "2 * normalizeLowS s < secp256k1N" "normalizeLowS s < 256 ^ 32"
    "normalizeLowS s = s \<or> normalizeLowS s = secp256k1N - s"
  using assms half_N by (auto simp: normalizeLowS_def)

lemma try_recovery_two:
  "try_recovery lib digest rb sb want [0, 1] =
    (let ok = \<lambda>v. recovers_to lib want digest (rb @ sb @ [v]) in
     if ok 0 then Inr 0 else if ok 1 then Inr 1
     else Inl (ErrText ''no recovery id in {0, 1} recovered the expected public key for this signature''))"
  by (simp add: recovers_to_def compact_signature_def butlast_append Let_def split: sum.split)

subsection \<open>The transaction that reaches the node\<close>

text \<open>The steps of the system ask of the adapter that it never assembles an empty transaction; it does
  not when the encoding is never empty.\<close>

lemma evm_ports_nonempty:
  assumes "\<And>tx bs. MarshalBinary txs tx = Inr bs \<Longrightarrow> bs \<noteq> []"
  shows "assemble_nonempty (evm_ports lib abi txs b sign)"
  using assms
  by (auto simp: assemble_nonempty_def evm_ports_def evm_AssembleSignedTx_def split: sum.splits if_splits)

text \<open>The raw bytes are a transaction of this chain with this nonce that moves the amount to the
  destination, as ether or through one of the given contracts, with an accepted signature of its own
  digest.\<close>

definition pays ::
    "evm_lib \<Rightarrow> abi_lib \<Rightarrow> 't tx_lib \<Rightarrow> u64 \<Rightarrow> address set \<Rightarrow> (byte list \<Rightarrow> byte list \<Rightarrow> bool) \<Rightarrow>
     asset \<Rightarrow> int \<Rightarrow> address \<Rightarrow> int \<Rightarrow> byte list \<Rightarrow> bool" where
  "pays lib abi txs chainID contracts accepts a nonce destination amount raw \<longleftrightarrow>
     (\<exists>t sig stx. uint (dt_nonce t) = nonce \<and> dt_chain_id t = uint chainID \<and>
        dt_gas_fee_cap t = dt_gas_tip_cap t * 120 div 100 \<and>
        (a = AssetETH \<and> dt_to t = HexToAddress lib destination \<and> dt_value t = amount \<and> dt_data t = [] \<or>
         a = AssetUSDC \<and> dt_value t = 0 \<and> PackTransfer abi (HexToAddress lib destination) amount = Inr (dt_data t) \<and>
           (\<exists>c\<in>contracts. dt_to t = HexToAddress lib c)) \<and>
        length sig = 65 \<and> accepts (SigningHash txs (dt_chain_id t) (NewTx txs t)) sig \<and>
        WithSignature txs (dt_chain_id t) (NewTx txs t) sig = Inr stx \<and> MarshalBinary txs stx = Inr raw)"

text \<open>The contract of USDC on a chain, when the registry names exactly one.\<close>

definition usdc_contracts :: "token_entries \<Rightarrow> chain \<Rightarrow> address set" where
  "usdc_contracts registry ch =
     {c. \<exists>entries. registry ch = Inr entries \<and> filter (\<lambda>(_, x). x = AssetUSDC) entries = [(c, AssetUSDC)]}"

lemma pays_mono:
  assumes "pays lib abi txs i cs accepts a n destination amount raw" "cs \<subseteq> cs'"
  shows "pays lib abi txs i cs' accepts a n destination amount raw"
  using assms unfolding pays_def by blast

text \<open>What go-ethereum documents of its encoding: it is never empty, decoding gives back what was
  encoded, and a transaction knows its chain.\<close>

definition tx_codec :: "'t tx_lib \<Rightarrow> bool" where
  "tx_codec txs \<longleftrightarrow>
     (\<forall>tx bs. MarshalBinary txs tx = Inr bs \<longrightarrow> bs \<noteq> [] \<and> UnmarshalBinary txs bs = Inr tx) \<and>
     (\<forall>t. 0 \<le> dt_chain_id t \<and> dt_chain_id t < 2 ^ 64 \<longrightarrow> TxChainId txs (NewTx txs t) = dt_chain_id t)"

lemma withdrawal_call_Inr:
  assumes "withdrawal_call lib abi registry ch a destination amount = Inr (txTo, packed, v, est)"
  shows "a = AssetETH \<and> txTo = HexToAddress lib destination \<and> v = amount \<and> packed = [] \<or>
    a = AssetUSDC \<and> v = 0 \<and> PackTransfer abi (HexToAddress lib destination) amount = Inr packed \<and>
      (\<exists>c\<in>usdc_contracts registry ch. txTo = HexToAddress lib c)"
  using assms
  by (auto simp: withdrawal_call_def usdc_contracts_def Let_def split: if_splits sum.splits
      elim!: usdcContractAddress_Inr)

lemma build_Inr:
  assumes "evm_BuildUnsignedWithdrawal lib abi txs b ch a nonce destination amount = Inr (digest, utx)"
  obtains txTo packed v est gas price where "ch = eb_chain b" "0 \<le> nonce" "0 < amount"
    "withdrawal_call lib abi (eb_registry b) ch a destination amount = Inr (txTo, packed, v, est)"
    "digest = SigningHash txs (uint (eb_chain_id b))
       (NewTx txs (withdrawal_tx (eb_chain_id b) nonce gas price txTo v packed))"
    "MarshalBinary txs (NewTx txs (withdrawal_tx (eb_chain_id b) nonce gas price txTo v packed)) = Inr utx"
  using assms
  by (auto simp: evm_BuildUnsignedWithdrawal_def checkChain_def Let_def split: if_splits sum.splits)

lemma assemble_Inr:
  assumes "evm_AssembleSignedTx lib txs utx sig = Inr (raw, h)"
  obtains tx stx where "UnmarshalBinary txs utx = Inr tx" "WithSignature txs (TxChainId txs tx) tx sig = Inr stx"
    "MarshalBinary txs stx = Inr raw" "h = HashHex lib (TxHash txs stx)"
  using assms by (auto simp: evm_AssembleSignedTx_def split: sum.splits)

text \<open>For every signer that meets the contract of the port, bytes that are built, signed and assembled
  are a payment.\<close>

context core_signer
begin

lemma pipeline_pays:
  assumes "evm_BuildUnsignedWithdrawal lib abi txs b ch a nonce destination amount = Inr (digest, utx)"
    and "sign digest = Inr sig" "evm_AssembleSignedTx lib txs utx sig = Inr (raw, h)"
    and "tx_codec txs" "nonce < 2 ^ 63"
  shows "pays lib abi txs (eb_chain_id b) (usdc_contracts (eb_registry b) ch) accepts a nonce destination amount raw"
proof -
  from assms(1) obtain txTo packed v est gas price where ch: "ch = eb_chain b" and n: "0 \<le> nonce"
    and c: "withdrawal_call lib abi (eb_registry b) ch a destination amount = Inr (txTo, packed, v, est)"
    and d: "digest = SigningHash txs (uint (eb_chain_id b))
       (NewTx txs (withdrawal_tx (eb_chain_id b) nonce gas price txTo v packed))"
    and m: "MarshalBinary txs (NewTx txs (withdrawal_tx (eb_chain_id b) nonce gas price txTo v packed)) = Inr utx"
    by (rule build_Inr)
  let ?t = "withdrawal_tx (eb_chain_id b) nonce gas price txTo v packed"
  from assms(3) obtain tx stx where "UnmarshalBinary txs utx = Inr tx"
    and w: "WithSignature txs (TxChainId txs tx) tx sig = Inr stx" "MarshalBinary txs stx = Inr raw"
    by (rule assemble_Inr)
  then have tx: "tx = NewTx txs ?t"
    using assms(4) m by (simp add: tx_codec_def)
  have id: "dt_chain_id ?t = uint (eb_chain_id b)"
    by (simp add: withdrawal_tx_def)
  then have "TxChainId txs tx = uint (eb_chain_id b)"
    using assms(4) uint_bounded [of "eb_chain_id b"] by (simp add: tx tx_codec_def)
  then have ws: "WithSignature txs (uint (eb_chain_id b)) (NewTx txs ?t) sig = Inr stx"
    using w(1) tx by simp
  have "uint (dt_nonce ?t) = nonce"
    using n assms(5) by (simp add: withdrawal_tx_def uint_word_of_int)
  then show ?thesis
    unfolding pays_def
    by (intro exI [of _ ?t] exI [of _ sig] exI [of _ stx])
      (use withdrawal_call_Inr [OF c] ws w(2) shape [OF assms(2)] genuine [OF assms(2)] d in
        \<open>simp add: withdrawal_tx_def fee_cap_def\<close>)
qed

text \<open>Signing and sending stores and sends the same bytes.\<close>

lemma sign_and_send_pays:
  assumes "signAndSend (evm_ports lib abi txs b sign) ch wi w = (r, w')" "tx_codec txs"
    and "wi_nonce wi = Some nonce" "nonce < 2 ^ 63"
  obtains "w' = w"
  | raw h r1 w1 where
    "pays lib abi txs (eb_chain_id b) (usdc_contracts (eb_registry b) ch) accepts (wi_asset wi) nonce
       (wi_destination_address wi) (wi_amount wi) raw"
    "in_tx (RecordSignedTx (wi_id wi) h (hex_encode raw)) w = (r1, w1)"
    "case r1 of Inl e \<Rightarrow> w' = w1 \<and> r = Inl e
     | Inr _ \<Rightarrow> sendAndFinalize (evm_ports lib abi txs b sign) ch (wi\<lparr>wi_signed_tx := raw, wi_tx_hash := h\<rparr>) w1 = (r, w')"
proof -
  let ?ps = "evm_ports lib abi txs b sign"
  consider "w' = w" | digest utx sig raw h where
    "BuildUnsignedWithdrawal ?ps ch (wi_asset wi) nonce (wi_destination_address wi) (wi_amount wi) = Inr (digest, utx)"
    "Sign ?ps ch digest = Inr sig" "AssembleSignedTx ?ps utx sig = Inr (raw, h)"
    using assms(1,3) by (auto simp: signAndSend_def bindm_def deref_run lift_result_run split: sum.splits)
  then show thesis
  proof cases
    case (2 digest utx sig raw h)
    obtain r1 w1 where r1: "in_tx (RecordSignedTx (wi_id wi) h (hex_encode raw)) w = (r1, w1)"
      by fastforce
    have "pays lib abi txs (eb_chain_id b) (usdc_contracts (eb_registry b) ch) accepts (wi_asset wi) nonce
        (wi_destination_address wi) (wi_amount wi) raw"
      by (rule pipeline_pays [where ch = ch and digest = digest and utx = utx and sig = sig and h = h])
        (use 2 assms(2,4) in \<open>simp_all add: evm_ports_def\<close>)
    then show thesis
      by (rule that(2) [OF _ r1])
        (use assms(1,3) 2 r1 in \<open>auto simp: signAndSend_def bindm_def deref_run lift_result_run split: sum.split\<close>)
  qed (rule that(1))
qed

end

text \<open>The withdrawal a claim hands on is the row it took.\<close>

lemma claim_fields:
  assumes "effect (ClaimApprovedWithdrawal ch) t d (Some wi) d'"
  obtains x n where "next_approved d ch = Some x" "n \<in> set (chain_nonce_state d)" "n_chain n = ch"
    "wi_nonce wi = Some (n_next_nonce n)" "wi_asset wi = w_asset x" "wi_amount wi = w_amount x"
    "wi_destination_address wi = w_destination_address x"
proof -
  have "\<exists>x. next_approved d ch = Some x \<and> wi_asset wi = w_asset x \<and> wi_amount wi = w_amount x \<and>
      wi_destination_address wi = w_destination_address x"
    using assms by (auto simp: ClaimApprovedWithdrawal_def effect_query effect_ret empty_withdrawal_def
        split: option.splits elim!: effect_bindmE)
  with that assms show thesis
    by (elim effect_ClaimE) auto
qed

subsection \<open>Sample libraries\<close>

text \<open>A transaction is its encoding, a public key the first byte of a compact signature.\<close>

definition sample_txs :: "byte list tx_lib" where
  "sample_txs =
     \<lparr>NewTx = (\<lambda>t. big_endian 8 (dt_chain_id t) @ big_endian 8 (uint (dt_nonce t)) @ dt_to t @
        big_endian 32 (dt_value t) @ dt_data t),
      MarshalBinary = (\<lambda>t. if t = [] then Inl (ErrText ''no transaction'') else Inr t), UnmarshalBinary = Inr, TxChainId = (\<lambda>t. SetBytes (take 8 t)),
      SigningHash = (\<lambda>c t. t), WithSignature = (\<lambda>c t s. Inr (t @ s)), TxHash = (\<lambda>t. t), HexToHash = map of_char\<rparr>"

definition sample_curve :: "(byte, byte list) curve_lib" where
  "sample_curve =
     \<lparr>ParsePubKey = (\<lambda>bs. Inr (hd bs)), SerializeUncompressed = (\<lambda>p. [p]),
      RecoverCompact = (\<lambda>c d. Inr (hd c)), IsEqual = (=), LegacyKeccak256 = (\<lambda>bs. bs),
      ScalarOverflows = (\<lambda>bs. False), PrivKeyFromBytes = (\<lambda>bs. bs), KeyIsZero = (\<lambda>k. k = []),
      PubKey = (\<lambda>k. 28), SignCompact = (\<lambda>k d. 28 # replicate 64 0)\<rparr>"

definition sample_kms :: "(byte, byte list) kms_signer" where
  "sample_kms =
     \<lparr>ks_client = \<lparr>KmsSign = (\<lambda>d. Inr (der_signature 5 (secp256k1N - 7))), KmsGetPublicKey = Inr []\<rparr>,
      ks_pubKey = 28, ks_address = ''0xhot''\<rparr>"

definition adapter_lib :: evm_lib where
  "adapter_lib =
     \<lparr>HexToAddress = map of_char, AddressHex = (\<lambda>_. ''0xToken''), HashHex = (\<lambda>h. ''0xhash''),
      BytesToAddress = (\<lambda>bs. bs), BytesToHash = (\<lambda>bs. bs), Keccak256Hash = map of_char\<rparr>"

definition sample_abi :: abi_lib where
  "sample_abi =
     \<lparr>PackTransfer = (\<lambda>a n. Inr (a @ big_endian 32 n)), PackGasEstimateComponents = (\<lambda>a c d. Inr (a @ d)),
      UnpackGasEstimateComponents = (\<lambda>bs. Inr [AbiUint64 30000, AbiUint64 9000, AbiBigInt 100, AbiBigInt 1]),
      PackL1FeeUpperBound = (\<lambda>n. Inr (big_endian 32 n)), UnpackL1FeeUpperBound = (\<lambda>bs. Inr [AbiBigInt 77])\<rparr>"

definition sample_eb :: "byte list evm_broadcaster" where
  "sample_eb =
     \<lparr>eb_chain = ChainBase, eb_chain_id = 8453,
      eb_client = \<lparr>bc_EstimateGas = (\<lambda>m. Inr 21000), bc_SuggestGasPrice = Inr 50, bc_SendTransaction = (\<lambda>t. None),
        bc_TransactionReceipt = (\<lambda>h. Inr \<lparr>rc_block_number = Some 7, rc_status = 1\<rparr>),
        bc_HeaderByNumber = (\<lambda>tag. Inr (Some \<lparr>bh_number = Some 9, bh_hash = []\<rparr>))\<rparr>,
      eb_registry = (\<lambda>ch. Inr [(''0xusdc'', AssetUSDC)])\<rparr>"

lemma sample_codec: "tx_codec sample_txs"
  by (simp add: tx_codec_def sample_txs_def SetBytes_big_endian)

subsection \<open>Properties\<close>

text \<open>C36: when KMS answers with a DER signature of numbers below the order of the curve, the signer
  returns its 65 bytes: the first number, the second in its lower half, and the recovery identifier,
  0 or 1, that recovers the key of the signer; it refuses the signature when neither does.\<close>

theorem kms_signature_exact:
  assumes "KmsSign (ks_client signer) digest = Inr (der_signature r s @ rest)"
    and "0 \<le> r" "r < 256 ^ 32" "0 < s" "s < secp256k1N"
  shows "\<exists>s'. (s' = s \<or> s' = secp256k1N - s) \<and> 0 < s' \<and> 2 * s' < secp256k1N \<and>
    (let sig = \<lambda>v. big_endian 32 r @ big_endian 32 s' @ [v]; ok = \<lambda>v. recovers_to lib (ks_pubKey signer) digest (sig v)
     in length (sig 0) = 65 \<and>
        kms_Sign lib signer digest =
          (if ok 0 then Inr (sig 0) else if ok 1 then Inr (sig 1)
           else Inl (ErrText ''no recovery id in {0, 1} recovered the expected public key for this signature'')))"
proof -
  note n = normalizeLowS_bounds [OF assms(4,5)]
  have "parseDERSignature (der_signature r s @ rest) = Inr (r, s)"
    using assms(2-5) half_N(2) by (intro der_round_trip) auto
  then have "kms_Sign lib signer digest =
      (case try_recovery lib digest (big_endian 32 r) (big_endian 32 (normalizeLowS s)) (ks_pubKey signer) [0, 1] of
         Inl e \<Rightarrow> Inl e | Inr v \<Rightarrow> Inr (big_endian 32 r @ big_endian 32 (normalizeLowS s) @ [v]))"
    using assms(1-3) n by (simp add: kms_Sign_def recoverRecoveryID_def FillBytes_def Let_def del: try_recovery.simps
        split: sum.split)
  then show ?thesis
    using n unfolding try_recovery_two by (intro exI [of _ "normalizeLowS s"]) (simp add: Let_def)
qed

theorem kms_signature_exact_witness:
  "\<exists>s'. (s' = secp256k1N - 7 \<or> s' = secp256k1N - (secp256k1N - 7)) \<and> 2 * s' < secp256k1N \<and>
     kms_Sign sample_curve sample_kms [1] = Inr (big_endian 32 5 @ big_endian 32 s' @ [1])"
proof -
  have k: "KmsSign (ks_client sample_kms) [1] = Inr (der_signature 5 (secp256k1N - 7) @ [])"
    by (simp add: sample_kms_def)
  have "(0 :: int) \<le> 5" "(5 :: int) < 256 ^ 32" "0 < secp256k1N - 7" "secp256k1N - 7 < secp256k1N"
    by (simp_all add: secp256k1N_def)
  from kms_signature_exact [OF k this, of sample_curve] show ?thesis
    by (auto simp: Let_def recovers_to_def sample_curve_def sample_kms_def butlast_append)
qed

text \<open>What a broadcaster sends for a freshly claimed withdrawal pays the oldest approved withdrawal of
  its chain, at the nonce the claim allocated.\<close>

lemma sent_withdrawal_pays:
  assumes "claim_fresh (evm_ports lib abi txs b (kms_Sign cv signer)) ch w = (res, w')" "wire w' \<noteq> wire w"
    and "tx_codec txs" "\<forall>n\<in>set (chain_nonce_state (db w)). n_next_nonce n < 2 ^ 63"
  shows "\<exists>x n raw. next_approved (db w) ch = Some x \<and> n \<in> set (chain_nonce_state (db w)) \<and> n_chain n = ch \<and>
    wire w' = wire w @ [(ch, raw)] \<and>
    pays lib abi txs (eb_chain_id b) (usdc_contracts (eb_registry b) ch) (recovers_to cv (ks_pubKey signer))
      (w_asset x) (n_next_nonce n) (w_destination_address x) (w_amount x) raw"
proof -
  let ?ps = "evm_ports lib abi txs b (kms_Sign cv signer)"
  obtain c w1 where c: "claim_checked ch w = (c, w1)"
    by fastforce
  have w1: "wire w1 = wire w"
    using quietD(2) [OF quiet_claim_checked c] by simp
  then obtain wi where wi: "c = Inr (Some wi)"
    using assms(1,2) c by (auto simp: claim_fresh_def split: sum.splits option.splits)
  obtain r where s: "signAndSend ?ps ch wi w1 = (r, w')"
    using assms(1) c wi by (cases "signAndSend ?ps ch wi w1")
      (auto simp: claim_fresh_def as_claimed_def split: sum.splits)
  obtain x n where x: "next_approved (db w) ch = Some x" "n \<in> set (chain_nonce_state (db w))" "n_chain n = ch"
    "wi_nonce wi = Some (n_next_nonce n)" "wi_asset wi = w_asset x" "wi_amount wi = w_amount x"
    "wi_destination_address wi = w_destination_address x"
    by (rule claim_fields [OF claim_checked_Some [OF c [unfolded wi]]])
  have "n_next_nonce n < 2 ^ 63"
    using assms(4) x(2) by simp
  with s assms(3) x(4) show ?thesis
  proof (rule kms.sign_and_send_pays)
    fix raw h and r1 :: "error + unit" and w2
    assume 2: "in_tx (RecordSignedTx (wi_id wi) h (hex_encode raw)) w1 = (r1, w2)"
      "case r1 of Inl e \<Rightarrow> w' = w2 \<and> r = Inl e
       | Inr _ \<Rightarrow> sendAndFinalize ?ps ch (wi\<lparr>wi_signed_tx := raw, wi_tx_hash := h\<rparr>) w2 = (r, w')"
      and p: "pays lib abi txs (eb_chain_id b) (usdc_contracts (eb_registry b) ch) (recovers_to cv (ks_pubKey signer))
        (wi_asset wi) (n_next_nonce n) (wi_destination_address wi) (wi_amount wi) raw"
    have "wire w2 = wire w"
      using quietD(2) [OF quiet_in_tx 2(1)] w1 by simp
    then have "wire w' = wire w @ [(ch, raw)]"
      using 2(2) assms(2) wire_sendAndFinalize [of ?ps ch "wi\<lparr>wi_signed_tx := raw, wi_tx_hash := h\<rparr>" w2]
      by (auto split: sum.splits)
    with p x show ?thesis by auto
  qed (use assms(2) w1 in simp)
qed

text \<open>C37: a withdrawal is settled only on a final receipt.  If polling one changes the tables, the
  node reported a receipt for its transaction in a block at or below the finalized one, and the
  settlement is that of a confirmed withdrawal exactly if the receipt says success.\<close>

theorem settled_only_final:
  assumes "settle_one (evm_ports lib abi txs b sign) ch wi pr w = (pr', w')" "db w' \<noteq> db w"
  shows "\<exists>r hd n f u. ch = eb_chain b \<and>
    bc_TransactionReceipt (eb_client b) (HexToHash txs (wi_tx_hash wi)) = Inr r \<and> rc_block_number r = Some n \<and>
    bc_HeaderByNumber (eb_client b) FinalizedBlockNumber = Inr (Some hd) \<and> bh_number hd = Some f \<and> n \<le> f \<and>
    (if rc_status r = 1 then in_tx (SettleConfirmedWithdrawal (wi_id wi)) w = (u, w')
     else in_tx (SettleFailedWithdrawal (wi_id wi)) w = (u, w'))"
proof -
  let ?ps = "evm_ports lib abi txs b sign"
  obtain success where g: "evm_GetFinalizedReceipt txs b ch (wi_tx_hash wi) = Inr (True, success)"
    using assms by (auto simp: settle_one_def evm_ports_def split: sum.splits if_splits)
  then obtain r hd n f where r: "ch = eb_chain b"
    "bc_TransactionReceipt (eb_client b) (HexToHash txs (wi_tx_hash wi)) = Inr r" "rc_block_number r = Some n"
    "bc_HeaderByNumber (eb_client b) FinalizedBlockNumber = Inr (Some hd)" "bh_number hd = Some f" "n \<le> f"
    "success = (rc_status r = 1)"
    by (auto simp: evm_GetFinalizedReceipt_def checkChain_def ReceiptStatusSuccessful_def
        split: option.splits sum.splits rpc_error.splits if_splits)
  have "\<exists>u. if success then in_tx (SettleConfirmedWithdrawal (wi_id wi)) w = (u, w')
      else in_tx (SettleFailedWithdrawal (wi_id wi)) w = (u, w')"
    using assms(1) g by (auto simp: settle_one_def evm_ports_def split: sum.splits prod.splits if_splits)
  with r show ?thesis by auto
qed

definition sample_poll :: poll_result where
  "sample_poll = \<lparr>pr_checked = 0, pr_confirmed = 0, pr_failed = 0, pr_errs = []\<rparr>"

lemma sample_settled: "db (snd (settle_one (evm_ports adapter_lib sample_abi sample_txs sample_eb (\<lambda>d. Inr d)) ChainBase
    (empty_withdrawal\<lparr>wi_id := ''w1'', wi_tx_hash := ''0xaa''\<rparr>) sample_poll (later_world sample_broadcast))) \<noteq>
    db (later_world sample_broadcast)"
  by code_simp

theorem settled_only_final_witness:
  "\<exists>u. in_tx (SettleConfirmedWithdrawal ''w1'') (later_world sample_broadcast) =
     (u, snd (settle_one (evm_ports adapter_lib sample_abi sample_txs sample_eb (\<lambda>d. Inr d)) ChainBase
       (empty_withdrawal\<lparr>wi_id := ''w1'', wi_tx_hash := ''0xaa''\<rparr>) sample_poll (later_world sample_broadcast)))"
proof -
  from settled_only_final [OF surjective_pairing sample_settled]
  obtain r u where "bc_TransactionReceipt (eb_client sample_eb)
      (HexToHash sample_txs (wi_tx_hash (empty_withdrawal\<lparr>wi_id := ''w1'', wi_tx_hash := ''0xaa''\<rparr>))) = Inr r"
    and u: "if rc_status r = 1
      then in_tx (SettleConfirmedWithdrawal (wi_id (empty_withdrawal\<lparr>wi_id := ''w1'', wi_tx_hash := ''0xaa''\<rparr>)))
        (later_world sample_broadcast) = (u, snd (settle_one (evm_ports adapter_lib sample_abi sample_txs sample_eb
          (\<lambda>d. Inr d)) ChainBase (empty_withdrawal\<lparr>wi_id := ''w1'', wi_tx_hash := ''0xaa''\<rparr>) sample_poll
          (later_world sample_broadcast)))
      else in_tx (SettleFailedWithdrawal (wi_id (empty_withdrawal\<lparr>wi_id := ''w1'', wi_tx_hash := ''0xaa''\<rparr>)))
        (later_world sample_broadcast) = (u, snd (settle_one (evm_ports adapter_lib sample_abi sample_txs sample_eb
          (\<lambda>d. Inr d)) ChainBase (empty_withdrawal\<lparr>wi_id := ''w1'', wi_tx_hash := ''0xaa''\<rparr>) sample_poll
          (later_world sample_broadcast)))"
    by blast
  then have "rc_status r = 1"
    by (auto simp: sample_eb_def)
  with u show ?thesis
    by auto
qed

subsection \<open>Fee estimates\<close>

text \<open>C38: a fee estimate exists only for a positive amount of at most 256 bits on one of the two
  chains, for ether or for USDC with exactly one registered contract; its total is the sum of its
  two parts.  On Arbitrum both parts are gas times the reported base fee, on Base the second is gas
  times price and the first what the oracle answers for the size of the transaction; on either no
  part is negative when the answers of the node are not.\<close>

theorem fee_estimate_exact:
  assumes "EstimateFee_Execute (FeeEstimator_EstimateFee lib abi txs clients registry) ch a amount = Inr fe"
  shows "\<exists>x client to_address packed v l1 l2. amount = Some x \<and> 0 < x \<and> x < 2 ^ 256 \<and> clients ch = Some client \<and>
    representativeTransaction lib abi registry ch a x = Inr (to_address, packed, v) \<and>
    (a = AssetETH \<and> v = x \<or> a = AssetUSDC \<and> v = 0 \<and> (\<exists>entries c. registry ch = Inr entries \<and>
       filter (\<lambda>(_, x). x = AssetUSDC) entries = [(c, AssetUSDC)])) \<and>
    fe = \<lparr>fe_l2 = Some l2, fe_l1 = Some l1, fe_total = Some (l2 + l1)\<rparr> \<and>
    (ch = ChainArbitrum \<and> (\<exists>g g1 b. arbitrum_answer lib abi client to_address packed g g1 b \<and>
         g1 \<le> g \<and> l1 = uint g1 * b \<and> l2 = (uint g - uint g1) * b \<and> (0 \<le> b \<longrightarrow> 0 \<le> l1 \<and> 0 \<le> l2)) \<or>
     ch = ChainBase \<and> (\<exists>gas price. base_answer lib abi txs client to_address packed v gas price l1 \<and>
         l2 = uint gas * price \<and> (0 \<le> price \<longrightarrow> 0 \<le> l2)))"
proof -
  obtain x where x: "amount = Some x" "0 < x" "bit_len x \<le> 256"
    and f: "FeeEstimator_EstimateFee lib abi txs clients registry ch a x = Inr fe"
    using assms by (auto simp: EstimateFee_Execute_def split: option.splits if_splits)
  obtain client to_address packed v where c: "clients ch = Some client"
    and r: "representativeTransaction lib abi registry ch a x = Inr (to_address, packed, v)"
    and e: "ch = ChainArbitrum \<and> estimateArbitrumFee lib abi client to_address packed = Inr fe \<or>
      ch = ChainBase \<and> estimateBaseFee lib abi txs client to_address packed v = Inr fe"
    using f by (auto simp: FeeEstimator_EstimateFee_def split: option.splits sum.splits if_splits)
  have "x < 2 ^ 256"
    using x(2,3) by (simp add: bit_len_le)
  moreover have "a = AssetETH \<and> v = x \<or> a = AssetUSDC \<and> v = 0 \<and> (\<exists>entries c. registry ch = Inr entries \<and>
       filter (\<lambda>(_, x). x = AssetUSDC) entries = [(c, AssetUSDC)])"
    using representative_Inr [OF r] by blast
  moreover have "\<exists>l1 l2. fe = \<lparr>fe_l2 = Some l2, fe_l1 = Some l1, fe_total = Some (l2 + l1)\<rparr> \<and>
    (ch = ChainArbitrum \<and> (\<exists>g g1 b. arbitrum_answer lib abi client to_address packed g g1 b \<and>
         g1 \<le> g \<and> l1 = uint g1 * b \<and> l2 = (uint g - uint g1) * b \<and> (0 \<le> b \<longrightarrow> 0 \<le> l1 \<and> 0 \<le> l2)) \<or>
     ch = ChainBase \<and> (\<exists>gas price. base_answer lib abi txs client to_address packed v gas price l1 \<and>
         l2 = uint gas * price \<and> (0 \<le> price \<longrightarrow> 0 \<le> l2)))"
    using e
  proof (elim disjE conjE)
    assume ch: "ch = ChainArbitrum" and "estimateArbitrumFee lib abi client to_address packed = Inr fe"
    then obtain g g1 b where a: "arbitrum_answer lib abi client to_address packed g g1 b" "arbitrum_split g g1 b = Inr fe"
      by (elim estimateArbitrumFee_Inr)
    note s = arbitrum_split_Inr [OF a(2)]
    have "g1 \<le> g"
      using s(1) by (simp add: word_le_def)
    moreover have "0 \<le> b \<longrightarrow> 0 \<le> uint g1 * b \<and> 0 \<le> (uint g - uint g1) * b"
      using s(1) by simp
    ultimately show ?thesis
      using a(1) s(2) ch by blast
  next
    assume ch: "ch = ChainBase" and "estimateBaseFee lib abi txs client to_address packed v = Inr fe"
    then obtain gas price l1 where "base_answer lib abi txs client to_address packed v gas price l1"
      "fe = \<lparr>fe_l2 = Some (uint gas * price), fe_l1 = Some l1, fe_total = Some (uint gas * price + l1)\<rparr>"
      by (elim estimateBaseFee_Inr)
    moreover have "0 \<le> price \<longrightarrow> 0 \<le> uint gas * price"
      by simp
    ultimately show ?thesis
      using ch by blast
  qed
  ultimately show ?thesis
    using x(1,2) c r by blast
qed

definition sample_fee_client :: fee_client where
  "sample_fee_client =
     \<lparr>CallContext = (\<lambda>a c. Inr [1]), EstimateGas = (\<lambda>m. Inr 21000), SuggestGasPrice = Inr 50\<rparr>"

lemma sample_fee: "EstimateFee_Execute (FeeEstimator_EstimateFee adapter_lib sample_abi sample_txs
    (\<lambda>ch. Some sample_fee_client) (eb_registry sample_eb)) ChainArbitrum AssetUSDC (Some 500) =
    Inr \<lparr>fe_l2 = Some 2100000, fe_l1 = Some 900000, fe_total = Some 3000000\<rparr>"
  by code_simp

theorem fee_estimate_exact_witness:
  "\<exists>to_address packed g g1 b. representativeTransaction adapter_lib sample_abi (eb_registry sample_eb) ChainArbitrum
     AssetUSDC 500 = Inr (to_address, packed, 0) \<and>
     arbitrum_answer adapter_lib sample_abi sample_fee_client to_address packed g g1 b \<and> g1 \<le> g \<and>
     uint g1 * b = 900000 \<and> (uint g - uint g1) * b = 2100000"
proof -
  from fee_estimate_exact [OF sample_fee] obtain x client to_address packed v l1 l2 where
    h: "Some 500 = Some x" "Some sample_fee_client = Some client"
    "representativeTransaction adapter_lib sample_abi (eb_registry sample_eb) ChainArbitrum AssetUSDC x =
       Inr (to_address, packed, v)" "AssetUSDC = AssetETH \<and> v = x \<or> AssetUSDC = AssetUSDC \<and> v = 0"
    and l: "\<lparr>fe_l2 = Some 2100000, fe_l1 = Some 900000, fe_total = Some 3000000\<rparr> =
       \<lparr>fe_l2 = Some l2, fe_l1 = Some l1, fe_total = Some (l2 + l1)\<rparr>"
    and "\<exists>g g1 b. arbitrum_answer adapter_lib sample_abi client to_address packed g g1 b \<and> g1 \<le> g \<and>
       l1 = uint g1 * b \<and> l2 = (uint g - uint g1) * b"
    by auto blast
  moreover have "l1 = 900000" "l2 = 2100000"
    using l by simp_all
  ultimately show ?thesis
    by (metis chain_asset_distinct option.inject)
qed

end
