(* ===== verification/Payments.thy ===== *)
theory Payments
  imports System Adapter_Guarantees
begin

text \<open>
  What the stored transactions pay.  \<open>attempts_pay\<close> is an invariant of the database over the concrete
  adapter: every attempt with stored bytes holds a payment of exactly its withdrawal.  The broadcaster
  keeps it because it is the only writer of these bytes and builds them from the row it claimed or
  resumed; everything else keeps it because rows are only added to and no field it mentions changes.
\<close>

subsection \<open>The hot wallet\<close>

text \<open>The libraries, the chain identifiers and the key that the broadcasters of a platform share.\<close>

record 't wallet =
  wl_evm :: evm_lib
  wl_abi :: abi_lib
  wl_txs :: "'t tx_lib"
  wl_chain_id :: "chain \<Rightarrow> u64"
  wl_accepts :: "byte list \<Rightarrow> byte list \<Rightarrow> bool"

text \<open>The contracts registered for a chain, in the case in which the registry reads them.\<close>

definition registered :: "database \<Rightarrow> chain \<Rightarrow> address set" where
  "registered d ch = to_lower ` {a. (ch, a) \<in> token_keys d}"

definition payment :: "'t wallet \<Rightarrow> database \<Rightarrow> chain \<Rightarrow> withdrawal_row \<Rightarrow> int \<Rightarrow> byte list \<Rightarrow> bool" where
  "payment wl d ch x n raw \<longleftrightarrow>
     pays (wl_evm wl) (wl_abi wl) (wl_txs wl) (wl_chain_id wl ch) (registered d ch) (wl_accepts wl)
       (w_asset x) n (w_destination_address x) (w_amount x) raw"

text \<open>The registry an adapter works with is the one the database answers.\<close>

definition registry_reads :: "database \<Rightarrow> token_entries \<Rightarrow> bool" where
  "registry_reads d registry \<longleftrightarrow>
     (\<forall>ch entries. registry ch = Inr entries \<longrightarrow>
        (\<exists>m. registry_map (filter (\<lambda>r. tk_chain r = ch) (token_registry d)) = Inr m \<and>
           (\<forall>(c, a)\<in>set entries. m c = Some a)))"

lemma registry_map_registered:
  "registry_map rs = Inr m \<Longrightarrow> m c = Some a \<Longrightarrow> \<exists>r\<in>set rs. c = to_lower (tk_contract_address r)"
  by (induction rs arbitrary: m) (auto split: if_splits sum.splits option.splits)

lemma usdc_registered:
  assumes "registry_reads d registry"
  shows "usdc_contracts registry ch \<subseteq> registered d ch"
proof
  fix c assume "c \<in> usdc_contracts registry ch"
  then obtain entries where e: "registry ch = Inr entries"
    "filter (\<lambda>(_, x). x = AssetUSDC) entries = [(c, AssetUSDC)]"
    by (auto simp: usdc_contracts_def)
  have "(c, AssetUSDC) \<in> set (filter (\<lambda>(_, x). x = AssetUSDC) entries)"
    unfolding e(2) by simp
  then have "(c, AssetUSDC) \<in> set entries"
    by simp
  with assms e(1) obtain m where m: "registry_map (filter (\<lambda>r. tk_chain r = ch) (token_registry d)) = Inr m"
    "m c = Some AssetUSDC"
    unfolding registry_reads_def by fastforce
  from registry_map_registered [OF this] show "c \<in> registered d ch"
    by (auto simp: registered_def token_keys_def intro!: image_eqI)
qed

lemma payment_later:
  assumes "payment wl d ch x n raw" "evolves d d'" "advance x y"
  shows "payment wl d' ch y n raw"
proof -
  have "registered d ch \<subseteq> registered d' ch"
    using assms(2) by (auto simp: evolves_def registered_def)
  from pays_mono [OF _ this] show ?thesis
    using assms(1,3) by (simp add: payment_def advance_def)
qed

subsection \<open>The invariant\<close>

definition attempt_pays :: "'t wallet \<Rightarrow> database \<Rightarrow> attempt_row \<Rightarrow> bool" where
  "attempt_pays wl d b \<longleftrightarrow> bigint (b_nonce b) \<and>
     (\<forall>raw. decode_signed_tx (b_signed_tx b) = Some raw \<and> raw \<noteq> [] \<longrightarrow>
        (\<exists>x\<in>set (withdrawals d). w_id x = b_withdrawal_id b \<and> payment wl d (b_chain b) x (b_nonce b) raw))"

definition attempts_pay :: "'t wallet \<Rightarrow> database \<Rightarrow> bool" where
  "attempts_pay wl d \<longleftrightarrow> (\<forall>b\<in>set (broadcast_attempts d). attempt_pays wl d b)"

lemma evolves_row:
  assumes "evolves d d'" "x \<in> set (withdrawals d)"
  obtains y where "y \<in> set (withdrawals d')" "advance x y"
proof -
  obtain xs ys where "withdrawals d' = xs @ ys" "list_all2 advance (withdrawals d) xs"
    using assms(1) by (auto simp: evolves_def)
  with that assms(2) show thesis
    by (auto elim: list_all2_in_set1)
qed

lemma attempt_pays_later:
  assumes "attempt_pays wl d b" "evolves d d'"
  shows "attempt_pays wl d' b"
  unfolding attempt_pays_def
proof (intro conjI allI impI)
  fix raw assume "decode_signed_tx (b_signed_tx b) = Some raw \<and> raw \<noteq> []"
  then obtain x where x: "x \<in> set (withdrawals d)" "w_id x = b_withdrawal_id b"
    "payment wl d (b_chain b) x (b_nonce b) raw"
    using assms(1) by (auto simp: attempt_pays_def)
  obtain y where "y \<in> set (withdrawals d')" "advance x y"
    by (rule evolves_row [OF assms(2) x(1)])
  then show "\<exists>x\<in>set (withdrawals d'). w_id x = b_withdrawal_id b \<and> payment wl d' (b_chain b) x (b_nonce b) raw"
    using payment_later [OF x(3) assms(2)] x(2) by (auto simp: advance_def intro!: bexI [of _ y])
qed (use assms(1) in \<open>simp add: attempt_pays_def\<close>)

lemma attempts_pay_later:
  assumes "attempts_pay wl d" "evolves d d'"
    and "\<And>b. b \<in> set (broadcast_attempts d') \<Longrightarrow> b \<notin> set (broadcast_attempts d) \<Longrightarrow> attempt_pays wl d' b"
  shows "attempts_pay wl d'"
  using assms attempt_pays_later unfolding attempts_pay_def by blast

subsection \<open>The broadcaster keeps it\<close>

text \<open>The withdrawal handed to the signer is a row, with the chain and the nonce of its attempt.\<close>

definition carries :: "database \<Rightarrow> chain \<Rightarrow> withdrawal \<Rightarrow> bool" where
  "carries d ch wi \<longleftrightarrow>
     (\<exists>x\<in>set (withdrawals d). w_id x = wi_id wi \<and> w_asset x = wi_asset wi \<and> w_amount x = wi_amount wi \<and>
        w_destination_address x = wi_destination_address wi) \<and>
     (\<forall>b\<in>set (broadcast_attempts d). b_withdrawal_id b = wi_id wi \<longrightarrow>
        b_chain b = ch \<and> wi_nonce wi = Some (b_nonce b))"

lemma record_pays:
  assumes "effect (RecordSignedTx (wi_id wi) h (hex_encode raw)) t d u d'" "attempts_pay wl d" "carries d ch wi"
    and "\<And>n. wi_nonce wi = Some n \<Longrightarrow>
      pays (wl_evm wl) (wl_abi wl) (wl_txs wl) (wl_chain_id wl ch) (registered d ch) (wl_accepts wl)
        (wi_asset wi) n (wi_destination_address wi) (wi_amount wi) raw"
  shows "attempts_pay wl d'"
proof (rule attempts_pay_later [OF assms(2) evolves_record_signed [OF assms(1)]])
  fix b assume b: "b \<in> set (broadcast_attempts d')" "b \<notin> set (broadcast_attempts d)"
  from assms(1) show "attempt_pays wl d' b"
  proof (rule effect_RecordSignedTxE)
    assume d': "d' = d\<lparr>broadcast_attempts := modify (\<lambda>b. b_withdrawal_id b = wi_id wi)
       (\<lambda>b. b\<lparr>b_tx_hash := Some h, b_signed_tx := Some (hex_encode raw)\<rparr>) (broadcast_attempts d)\<rparr>"
    then obtain a where a: "a \<in> set (broadcast_attempts d)" "b_withdrawal_id a = wi_id wi"
      "b = a\<lparr>b_tx_hash := Some h, b_signed_tx := Some (hex_encode raw)\<rparr>"
      using b by (auto simp: set_modify)
    obtain x where x: "x \<in> set (withdrawals d)" "w_id x = wi_id wi" "w_asset x = wi_asset wi"
      "w_amount x = wi_amount wi" "w_destination_address x = wi_destination_address wi"
      using assms(3) by (auto simp: carries_def)
    have "b_chain a = ch" "wi_nonce wi = Some (b_nonce a)"
      using assms(3) a(1,2) by (auto simp: carries_def)
    moreover have "registered d' = registered d"
      by (simp add: d' registered_def fun_eq_iff)
    ultimately have "payment wl d' (b_chain b) x (b_nonce b) raw"
      using assms(4) x a(3) by (simp add: payment_def)
    then show ?thesis
      using assms(2) a x(1,2) by (auto simp: attempt_pays_def attempts_pay_def d' decode_signed_encode)
  qed
qed

lemma mark_pays: "effect (MarkBroadcast i) t d u d' \<Longrightarrow> attempts_pay wl d \<Longrightarrow> attempts_pay wl d'"
  using attempts_pay_later evolves_mark_broadcast attempts_mark_broadcast by metis

lemma send_pays:
  assumes "sendAndFinalize ps ch wi w = (r, w')" "attempts_pay wl (db w)"
  shows "attempts_pay wl (db w')"
proof -
  let ?w = "w\<lparr>wire := wire w @ [(ch, wi_signed_tx wi)]\<rparr>"
  have "in_tx (MarkBroadcast (wi_id wi)) ?w = (r, w') \<or> w' = ?w"
    using assms(1) by (auto simp: sendAndFinalize_def bindm_def send_raw_def split: option.splits if_splits)
  then show ?thesis
    using in_tx_effect [of "MarkBroadcast (wi_id wi)" ?w r w'] mark_pays assms(2) by auto
qed

text \<open>The adapter of a broadcaster on this chain, in the state \<open>d\<close>.\<close>

definition adapter_of :: "'t wallet \<Rightarrow> database \<Rightarrow> chain \<Rightarrow> 't evm_broadcaster \<Rightarrow> bool" where
  "adapter_of wl d ch b \<longleftrightarrow> eb_chain b = ch \<and> eb_chain_id b = wl_chain_id wl ch \<and> registry_reads d (eb_registry b)"

lemma sign_pays:
  assumes "signAndSend (evm_ports (wl_evm wl) (wl_abi wl) (wl_txs wl) b sign) ch wi w = (r, w')"
    and "core_signer sign (wl_accepts wl)" "tx_codec (wl_txs wl)" "adapter_of wl (db w) ch b"
    and "attempts_pay wl (db w)" "carries (db w) ch wi" "wi_nonce wi = Some n" "n < 2 ^ 63"
  shows "attempts_pay wl (db w')"
  using assms(2,1,3,7,8)
proof (rule core_signer.sign_and_send_pays)
  fix raw h and r1 :: "error + unit" and w1
  assume p: "pays (wl_evm wl) (wl_abi wl) (wl_txs wl) (eb_chain_id b) (usdc_contracts (eb_registry b) ch)
      (wl_accepts wl) (wi_asset wi) n (wi_destination_address wi) (wi_amount wi) raw"
    and r1: "in_tx (RecordSignedTx (wi_id wi) h (hex_encode raw)) w = (r1, w1)"
    and k: "case r1 of Inl e \<Rightarrow> w' = w1 \<and> r = Inl e
      | Inr _ \<Rightarrow> sendAndFinalize (evm_ports (wl_evm wl) (wl_abi wl) (wl_txs wl) b sign) ch
          (wi\<lparr>wi_signed_tx := raw, wi_tx_hash := h\<rparr>) w1 = (r, w')"
  have "pays (wl_evm wl) (wl_abi wl) (wl_txs wl) (wl_chain_id wl ch) (registered (db w) ch) (wl_accepts wl)
      (wi_asset wi) n (wi_destination_address wi) (wi_amount wi) raw"
    using pays_mono [OF p usdc_registered] assms(4) by (simp add: adapter_of_def)
  then have "attempts_pay wl (db w1)"
    using in_tx_effect [OF r1] record_pays [OF _ assms(5,6)] assms(5,7) by auto
  then show ?thesis
    using k send_pays by (auto split: sum.splits)
qed (use assms(5) in simp)

text \<open>A claim adds an attempt without bytes and hands on its row.\<close>

lemma claim_pays:
  assumes "effect (ClaimApprovedWithdrawal ch) t d (Some wi) d'" "attempts_pay wl d" "schema_ok d"
  shows "attempts_pay wl d'" "carries d' ch wi" "\<exists>n. wi_nonce wi = Some n \<and> n < 2 ^ 63"
proof -
  note e = evolves_claim [OF assms(1)]
  obtain x where x: "next_approved d ch = Some x" "wi_asset wi = w_asset x" "wi_amount wi = w_amount x"
    "wi_destination_address wi = w_destination_address x"
    by (rule claim_fields [OF assms(1)])
  from assms(1) obtain r :: withdrawal_row and n :: nonce_row and aid d1 d2 m where r: "next_approved d ch = Some r" "wi_id wi = w_id r"
    and n: "wi_nonce wi = Some (n_next_nonce n)"
    and 1: "update_nonces (\<lambda>x. n_chain x = ch)
       (\<lambda>x. x\<lparr>n_next_nonce := n_next_nonce x + 1, n_updated_at := t\<rparr>) d = Inr (m, d1)"
    and 2: "insert_broadcast_attempt \<lparr>b_id = aid, b_withdrawal_id = w_id r, b_chain = ch,
       b_nonce = n_next_nonce n, b_tx_hash = None, b_signed_tx = None, b_created_at = t\<rparr> d1 = Inr ((), d2)"
    and 3: "effect (transition (w_id r) WithdrawalStatusApproved
       (\<lambda>x. x\<lparr>w_status := WithdrawalStatusSigned, w_nonce := Some (n_next_nonce n), w_updated_at := t\<rparr>)
       (ErrText ''status changed concurrently while claiming'')) t d2 () d'"
    by (rule effect_ClaimE) (rule that; assumption)
  have rx: "r = x"
    using r(1) x(1) by simp
  let ?b = "\<lparr>b_id = aid, b_withdrawal_id = w_id x, b_chain = ch, b_nonce = n_next_nonce n,
    b_tx_hash = None, b_signed_tx = None, b_created_at = t\<rparr>"
  have bs: "broadcast_attempts d' = broadcast_attempts d @ [?b]" "bigint (n_next_nonce n)"
    "w_id x \<notin> b_withdrawal_id ` set (broadcast_attempts d)"
    using 1 2 effect_transition [OF 3] by (auto simp: rx update_nonces_Inr insert_broadcast_attempt_def constrained_Inr)
  have "attempt_pays wl d' ?b"
    using bs(2) by (simp add: attempt_pays_def decode_signed_tx_def)
  then show "attempts_pay wl d'"
    using attempts_pay_later [OF assms(2) e] bs(1) by auto
  obtain y where y: "y \<in> set (withdrawals d')" "advance x y"
    by (rule evolves_row [OF e next_approved_Some(1) [OF x(1)]])
  have "b_chain b = ch \<and> wi_nonce wi = Some (b_nonce b)"
    if "b \<in> set (broadcast_attempts d')" "b_withdrawal_id b = wi_id wi" for b
  proof -
    have "b = ?b"
      using that bs(1,3) r(2) rx by (auto simp: image_iff)
    then show ?thesis
      using n by simp
  qed
  then show "carries d' ch wi"
    using y x r(2) rx unfolding carries_def by (intro conjI bexI [of _ y]) (simp_all add: advance_def)
  show "\<exists>n. wi_nonce wi = Some n \<and> n < 2 ^ 63"
    using n bs(2) by (simp add: bigint_def)
qed

lemma claim_registry:
  "effect (ClaimApprovedWithdrawal ch) t d (Some wi) d' \<Longrightarrow> token_registry d' = token_registry d"
  by (elim effect_ClaimE)
    (auto dest!: effect_transition simp: update_nonces_Inr insert_broadcast_attempt_def constrained_Inr)

text \<open>So does the list of the signed ones.\<close>

lemma listed_carries:
  assumes "read_tx (ListSignedWithdrawals ch) w = (Inr wis, w1)" "wi \<in> set wis" "core_ok (db w)" "attempts_pay wl (db w)"
  shows "carries (db w) ch wi" "\<exists>n. wi_nonce wi = Some n \<and> n < 2 ^ 63"
proof -
  let ?j = "joined_attempts (\<lambda>w b. w_chain w = ch \<and> w_status w = WithdrawalStatusSigned) (db w)"
  have "wis = List.map_filter (signed_withdrawal ch) (take listSignedWithdrawalsBatchLimit ?j)"
    using in_tx_when_Inr [OF assms(1) [unfolded read_tx_def]]
    by (auto simp: ListSignedWithdrawals_def effect_query)
  with assms(2) obtain x b where xb: "(x, b) \<in> set (take listSignedWithdrawalsBatchLimit ?j)"
    and wi: "signed_withdrawal ch (x, b) = Some wi"
    by (auto simp: map_filter_def)
  then have x: "x \<in> set (withdrawals (db w))" "b \<in> set (broadcast_attempts (db w))" "b_withdrawal_id b = w_id x"
    using in_set_takeD [OF xb] by (simp_all add: joined_attempts_set)
  have f: "wi_id wi = w_id x" "wi_asset wi = w_asset x" "wi_amount wi = w_amount x"
    "wi_destination_address wi = w_destination_address x" "wi_nonce wi = Some (b_nonce b)"
    using wi by (auto simp: signed_withdrawal_def empty_withdrawal_def split: option.splits)
  have sc: "schema_ok (db w)"
    using assms(3) by (rule core_ok_schema)
  have u: "c = b" if "c \<in> set (broadcast_attempts (db w))" "b_withdrawal_id c = w_id x" for c
    using attempt_unique [OF sc that(1) x(2)] that(2) x(3) by simp
  obtain c where "c \<in> set (broadcast_attempts (db w))" "b_withdrawal_id c = wi_id wi" "b_chain c = ch"
    using listed_attempt [OF assms(1-3)] by blast
  then have "b_chain b = ch"
    using u f(1) by auto
  then have "b_chain c = ch \<and> wi_nonce wi = Some (b_nonce c)"
    if "c \<in> set (broadcast_attempts (db w))" "b_withdrawal_id c = wi_id wi" for c
    using u [OF that(1)] that(2) f(1,5) by simp
  then show "carries (db w) ch wi"
    using x(1) f(1-4) unfolding carries_def by (intro conjI bexI [of _ x]) simp_all
  show "\<exists>n. wi_nonce wi = Some n \<and> n < 2 ^ 63"
    using assms(4) x(2) f(5) by (auto simp: attempts_pay_def attempt_pays_def bigint_def)
qed

lemma execute_pays:
  assumes "SignAndBroadcast_Execute (evm_ports (wl_evm wl) (wl_abi wl) (wl_txs wl) b sign) ch allow w = (r, w')"
    and "core_signer sign (wl_accepts wl)" "tx_codec (wl_txs wl)" "adapter_of wl (db w) ch b"
    and "attempts_pay wl (db w)" "core_ok (db w)"
  shows "attempts_pay wl (db w')"
proof -
  let ?ps = "evm_ports (wl_evm wl) (wl_abi wl) (wl_txs wl) b sign"
  note sc = core_ok_schema(1) [OF assms(6)]
  obtain l w1 where l: "read_tx (ListSignedWithdrawals ch) w = (l, w1)"
    by fastforce
  have w1: "db w1 = db w"
    using read_tx_world [OF l] by simp
  consider (same) "w' = w1"
    | (resume) wi wis where "l = Inr (wi # wis)" "resume_signed ?ps ch wi w1 = (r, w')"
    | (fresh) "claim_fresh ?ps ch w1 = (r, w')"
    using assms(1) l by (auto simp: SignAndBroadcast_Execute_def split: sum.splits list.splits if_splits)
  then show ?thesis
  proof cases
    case same
    then show ?thesis
      using assms(5) w1 by simp
  next
    case (resume wi wis)
    obtain n where c: "carries (db w) ch wi" "wi_nonce wi = Some n" "n < 2 ^ 63"
      using listed_carries [OF l [unfolded resume(1)] _ assms(6,5), of wi] by auto
    consider "w' = w1" | r2 where "sendAndFinalize ?ps ch wi w1 = (r2, w')" | r2 where "signAndSend ?ps ch wi w1 = (r2, w')"
      using resume(2) by (auto simp: resume_signed_def as_claimed_def split: if_splits prod.splits sum.splits)
    then show ?thesis
    proof cases
      case 2
      then show ?thesis
        using send_pays [OF 2] assms(5) by (simp add: w1)
    next
      case 3
      then show ?thesis
        using sign_pays [OF 3 assms(2,3) _ _ _ c(2,3)] assms(4,5) c(1) by (simp add: w1)
    qed (use assms(5) w1 in simp)
  next
    case fresh
    obtain k w2 where k: "claim_checked ch w1 = (k, w2)"
      by fastforce
    show ?thesis
    proof (cases "\<exists>wi. k = Inr (Some wi)")
      case True
      then obtain wi where wi: "k = Inr (Some wi)"
        by blast
      have e: "effect (ClaimApprovedWithdrawal ch) (clock w1) (db w) (Some wi) (db w2)"
        using claim_checked_Some [OF k [unfolded wi]] w1 by simp
      note p = claim_pays [OF e assms(5) sc]
      obtain n where n: "wi_nonce wi = Some n" "n < 2 ^ 63"
        using p(3) by blast
      obtain r2 where s: "signAndSend ?ps ch wi w2 = (r2, w')"
        using fresh k wi by (auto simp: claim_fresh_def as_claimed_def split: prod.splits sum.splits)
      have "adapter_of wl (db w2) ch b"
        using assms(4) claim_registry [OF e] by (simp add: adapter_of_def registry_reads_def)
      from sign_pays [OF s assms(2,3) this p(1,2) n] show ?thesis .
    next
      case False
      then have "w' = w2"
        using fresh k by (auto simp: claim_fresh_def split: sum.splits option.splits)
      moreover have "attempts_pay wl (db w2)"
      proof (rule claim_checked_keeps [where P = "\<lambda>d. attempts_pay wl d \<and> core_ok d", OF k, THEN conjunct1])
        fix t d wi d' assume "effect (ClaimApprovedWithdrawal ch) t d (Some wi) d'" "attempts_pay wl d \<and> core_ok d"
        then show "attempts_pay wl d' \<and> core_ok d'"
          using claim_pays(1) core_claim core_ok_schema by blast
      qed (use assms(5,6) w1 in simp)
      ultimately show ?thesis by simp
    qed
  qed
qed

text \<open>What is on the wire pays its withdrawal, which has no other transaction.\<close>

lemma wire_pays:
  assumes "safe w" "attempts_pay wl (db w)" "(ch, raw) \<in> set (wire w)"
  shows "\<exists>x\<in>set (withdrawals (db w)). \<exists>b n. w_chain x = ch \<and> claimed_status (w_status x) \<and> w_nonce x = Some n \<and>
    payment wl (db w) ch x n raw \<and>
    {b'\<in>set (broadcast_attempts (db w)). b_withdrawal_id b' = w_id x} = {b} \<and> decode_signed_tx (b_signed_tx b) = Some raw"
proof -
  obtain x b where x: "x \<in> set (withdrawals (db w))" "b \<in> set (broadcast_attempts (db w))" "attempt_of (db w) x b"
    "b_chain b = ch" "claimed_status (w_status x)" "decode_signed_tx (b_signed_tx b) = Some raw" "raw \<noteq> []"
    by (rule wire_backed [OF assms(1,3)])
  have sc: "schema_ok (db w)"
    using assms(1) by (simp add: safe_def core_ok_schema)
  have "attempt_pays wl (db w) b"
    using assms(2) x(2) by (auto simp: attempts_pay_def)
  then obtain y where y: "y \<in> set (withdrawals (db w))" "w_id y = b_withdrawal_id b" "payment wl (db w) ch y (b_nonce b) raw"
    using x(4,6,7) by (auto simp: attempt_pays_def)
  have "y = x"
    using sc y(1,2) x(1,3) by (auto simp: schema_ok_def withdrawals_ok_def attempt_of_def distinct_map dest: inj_onD)
  moreover have "{b'\<in>set (broadcast_attempts (db w)). b_withdrawal_id b' = w_id x} = {b}"
  proof -
    have i: "b_withdrawal_id b = w_id x"
      using x(3) by (simp add: attempt_of_def)
    have "c = b" if "c \<in> set (broadcast_attempts (db w))" "b_withdrawal_id c = w_id x" for c
      using attempt_unique [OF sc that(1) x(2)] that(2) i by simp
    with x(2) i show ?thesis by blast
  qed
  ultimately show ?thesis
    using x y by (intro bexI [of _ x] exI [of _ b] exI [of _ "b_nonce b"]) (auto simp: attempt_of_def)
qed

end
