(* ===== verification/Startup.thy ===== *)
theory Startup
  imports Scanner Signer Evm_Broadcaster Samples
begin

text \<open>
  How the processes come up (\<^verbatim>\<open>cmd/walletd/main.go\<close>, with \<^verbatim>\<open>evm/deployer.go\<close>, \<^verbatim>\<open>evm/address.go\<close> and the
  constructors of the adapters): the command line, the environment, the probe of the chains, the
  advisory locks, the order of these checks, and the processes that run side by side.

  \<open>host\<close> is what surrounds a starting process: its environment and the answers of the systems it
  connects to.  \<^verbatim>\<open>time.ParseDuration\<close> (which computes in floating point), dialling, the migration
  runner and the AWS configuration are its fields.  A duration is a signed 64-bit number of
  nanoseconds.

  \<open>cluster\<close> is the running processes with the advisory locks that their database sessions hold.  A
  lock lives as long as its session; a session is taken to live as long as its process.
\<close>

subsection \<open>The deterministic addresses\<close>

definition canonicalDeployerAddress :: "evm_lib \<Rightarrow> byte list" where
  "canonicalDeployerAddress lib = HexToAddress lib ''0x4e59b44847b379578588920cA78FbF26c0B4956C''"

definition factorySalt :: "byte list" where "factorySalt = replicate 32 0"

text \<open>A failed decode is a panic at package initialisation.\<close>

definition mustHexToHash32 :: "string \<Rightarrow> byte list option" where
  "mustHexToHash32 s =
     (case hex_decode s of None \<Rightarrow> None | Some b \<Rightarrow> if length b \<noteq> 32 then None else Some b)"

definition forwarderInitCodeHash :: "byte list" where
  "forwarderInitCodeHash =
     the (mustHexToHash32 ''8105f1890b2e4462d702e4b7983b3e7b50b71b24318eb817cd5e6dc52cfd455c'')"

definition factoryInitCodeHash :: "byte list" where
  "factoryInitCodeHash =
     the (mustHexToHash32 ''9f6b39d1bf0f757756561f234c073c8814754cc663f94ea4492dc77cc9af5996'')"

text \<open>The package initialises: both constants decode.\<close>

lemma hash_constants_decode:
  "mustHexToHash32 ''8105f1890b2e4462d702e4b7983b3e7b50b71b24318eb817cd5e6dc52cfd455c'' \<noteq> None"
  "mustHexToHash32 ''9f6b39d1bf0f757756561f234c073c8814754cc663f94ea4492dc77cc9af5996'' \<noteq> None"
  by code_simp+

lemma init_code_hashes:
  "mustHexToHash32 ''8105f1890b2e4462d702e4b7983b3e7b50b71b24318eb817cd5e6dc52cfd455c'' =
     Some forwarderInitCodeHash"
  "mustHexToHash32 ''9f6b39d1bf0f757756561f234c073c8814754cc663f94ea4492dc77cc9af5996'' =
     Some factoryInitCodeHash"
  unfolding forwarderInitCodeHash_def factoryInitCodeHash_def
  using hash_constants_decode by (metis option.collapse)+

type_synonym create2 = "byte list \<Rightarrow> byte list \<Rightarrow> byte list \<Rightarrow> byte list"

definition platformFactoryAddress :: "create2 \<Rightarrow> evm_lib \<Rightarrow> byte list" where
  "platformFactoryAddress create2Address lib =
     create2Address (canonicalDeployerAddress lib) factorySalt factoryInitCodeHash"

definition DeriveAddress :: "create2 \<Rightarrow> evm_lib \<Rightarrow> byte list \<Rightarrow> error + address" where
  "DeriveAddress create2Address lib salt =
     Inr (AddressHex lib
       (create2Address (platformFactoryAddress create2Address lib) salt forwarderInitCodeHash))"

definition IsChecksummedAddress :: "evm_lib \<Rightarrow> string \<Rightarrow> bool" where
  "IsChecksummedAddress lib s \<longleftrightarrow> AddressHex lib (HexToAddress lib s) = s"

subsection \<open>The surroundings of a process\<close>

type_synonym duration = "64 word"

record chain_config =
  cc_name :: chain
  cc_rpc_url :: string
  cc_chain_id :: u64

record chain_client =
  pc_ChainID :: "error + int"
  pc_CodeAt :: "byte list \<Rightarrow> error + byte list"

record ('p, 'k) host =
  getenv :: "string \<Rightarrow> string"
  ParseDuration :: "string \<Rightarrow> error + duration"
  dial_probe :: "chain_config \<Rightarrow> error + chain_client"
  dial_chain :: "chain_config \<Rightarrow> error option"
  open_pool :: "string \<Rightarrow> error option"
  acquire_conn :: "error option"
  lock_query :: "error option"
  migrate :: "unit db_m"
  load_kms :: "string \<Rightarrow> error + kms_client"
  host_evm :: evm_lib
  host_curve :: "('p, 'k) curve_lib"

text \<open>\<^verbatim>\<open>VerifyDeployerPresence\<close>: the endpoint is the chain it claims to be and has the deployer.\<close>

definition verifyDeployerPresence :: "evm_lib \<Rightarrow> chain_client \<Rightarrow> chain_config \<Rightarrow> error option" where
  "verifyDeployerPresence lib client ch =
     (case pc_ChainID client of
        Inl e \<Rightarrow> Some e
      | Inr gotID \<Rightarrow>
          if gotID \<noteq> uint (cc_chain_id ch) then Some (ErrText ''RPC endpoint reports another chain id'')
          else
     (case pc_CodeAt client (canonicalDeployerAddress lib) of
        Inl e \<Rightarrow> Some e
      | Inr code \<Rightarrow> if code = [] then Some (ErrText ''canonical CREATE2 deployer has no code'') else None))"

definition VerifyDeployerPresence :: "('p, 'k) host \<Rightarrow> chain_config \<Rightarrow> error option" where
  "VerifyDeployerPresence h ch =
     (case dial_probe h ch of Inl e \<Rightarrow> Some e | Inr client \<Rightarrow> verifyDeployerPresence (host_evm h) client ch)"

fun first_error :: "('a \<Rightarrow> error option) \<Rightarrow> 'a list \<Rightarrow> error option" where
  "first_error f [] = None"
| "first_error f (x # xs) = (case f x of Some e \<Rightarrow> Some e | None \<Rightarrow> first_error f xs)"

lemma first_error_None: "first_error f xs = None \<longleftrightarrow> (\<forall>x\<in>set xs. f x = None)"
  by (induction xs) (auto split: option.splits)

subsection \<open>The command line and the environment\<close>

text \<open>\<^verbatim>\<open>FlagSet.Parse\<close> for the one flag \<^verbatim>\<open>chain\<close>: one or two dashes, the value after an equals sign or
  in the next argument, the last one wins; parsing stops at the first argument that is no flag.\<close>

fun split_flag :: "string \<Rightarrow> string \<times> string option" where
  "split_flag [] = ([], None)"
| "split_flag [c] = ([c], None)"
| "split_flag (c # d # cs) =
     (if d = CHR ''='' then ([c], Some cs)
      else (case split_flag (d # cs) of (name, v) \<Rightarrow> (c # name, v)))"

fun parse_flags :: "string list \<Rightarrow> string \<Rightarrow> error + string" where
  "parse_flags [] v = Inr v"
| "parse_flags (s # args) v =
     (if length s < 2 \<or> hd s \<noteq> CHR ''-'' then Inr v
      else if s = ''--'' then Inr v
      else (let flag = (if s ! 1 = CHR ''-'' then drop 2 s else drop 1 s) in
        if flag = [] \<or> hd flag = CHR ''-'' \<or> hd flag = CHR ''='' then Inl (ErrText ''bad flag syntax'')
        else (case split_flag flag of
            (name, given) \<Rightarrow>
              if name \<noteq> ''chain'' then Inl (ErrText ''flag provided but not defined'')
              else (case given of
                  Some value \<Rightarrow> parse_flags args value
                | None \<Rightarrow>
                    (case args of
                       [] \<Rightarrow> Inl (ErrText ''flag needs an argument'')
                     | value # rest \<Rightarrow> parse_flags rest value)))))"

definition env_prefix :: "string \<Rightarrow> error + string" where
  "env_prefix chainName =
     (if chainName = ''base'' then Inr ''BASE''
      else if chainName = ''arbitrum'' then Inr ''ARBITRUM''
      else Inl (ErrText ''--chain must be base or arbitrum''))"

definition requiredStringEnv :: "('p, 'k) host \<Rightarrow> string \<Rightarrow> error + string" where
  "requiredStringEnv h name =
     (let v = getenv h name in if v = [] then Inl (ErrText (name @ '' is required'')) else Inr v)"

definition requiredChainIDEnv :: "('p, 'k) host \<Rightarrow> string \<Rightarrow> error + u64" where
  "requiredChainIDEnv h name =
     (let v = getenv h name in
      if v = [] then Inl (ErrText (name @ '' is required''))
      else (case parse_nat10 v of
          None \<Rightarrow> Inl (ErrText (name @ '' must be a positive decimal EIP-155 chain id''))
        | Some n \<Rightarrow>
            if n \<ge> 2 ^ 64 \<or> n = 0 then Inl (ErrText (name @ '' must be a positive decimal EIP-155 chain id''))
            else Inr (of_nat n)))"

fun split_char :: "char \<Rightarrow> string \<Rightarrow> string list" where
  "split_char sep [] = [[]]"
| "split_char sep (c # cs) =
     (case split_char sep cs of
        [] \<Rightarrow> [[c]]
      | p # ps \<Rightarrow> if c = sep then [] # p # ps else (c # p) # ps)"

definition splitNonEmpty :: "string \<Rightarrow> char \<Rightarrow> string list" where
  "splitNonEmpty s sep = (if s = [] then [] else filter (\<lambda>p. p \<noteq> []) (map trim_space (split_char sep s)))"

text \<open>An optional duration: the default when unset, an error when malformed or not positive.\<close>

definition duration_env :: "('p, 'k) host \<Rightarrow> string \<Rightarrow> duration \<Rightarrow> error + duration" where
  "duration_env h name fallback =
     (let v = getenv h name in
      if v = [] then Inr fallback
      else (case ParseDuration h v of
          Inl e \<Rightarrow> Inl e
        | Inr d \<Rightarrow> if sint d \<le> 0 then Inl (ErrText (name @ '' must be a positive duration'')) else Inr d))"

definition defaultWatcherPollInterval :: duration where "defaultWatcherPollInterval = 5 * 1000000000"
definition defaultBroadcasterPollInterval :: duration where "defaultBroadcasterPollInterval = 5 * 1000000000"
definition defaultWithdrawalStuckThreshold :: duration where
  "defaultWithdrawalStuckThreshold = 30 * 60 * 1000000000"
definition defaultLivenessStalenessMultiplier :: duration where "defaultLivenessStalenessMultiplier = 3"

text \<open>The watcher's interval as the broadcaster reads it: an unusable value is ignored.\<close>

definition watcher_interval :: "('p, 'k) host \<Rightarrow> duration" where
  "watcher_interval h =
     (let v = getenv h ''WATCHER_POLL_INTERVAL'' in
      if v = [] then defaultWatcherPollInterval
      else (case ParseDuration h v of
          Inl e \<Rightarrow> defaultWatcherPollInterval
        | Inr d \<Rightarrow> if sint d > 0 then d else defaultWatcherPollInterval))"

definition liveness_default :: "('p, 'k) host \<Rightarrow> duration" where
  "liveness_default h = defaultLivenessStalenessMultiplier * watcher_interval h"

subsection \<open>What the processes are configured with\<close>

record api_config =
  ac_listen_addr :: string
  ac_valid_tokens :: "string list"
  ac_cursor_signing_key :: string
  ac_chains :: "chain_config list"

record watcher_config =
  wt_chain :: chain_config
  wt_usdc_address :: address
  wt_poll_interval :: duration

record broadcaster_config =
  bc_chain :: chain_config
  bc_poll_interval :: duration
  bc_stuck_threshold :: duration
  bc_liveness_threshold :: duration
  bc_sign :: "byte list \<Rightarrow> error + byte list"
  bc_signer_address :: address

datatype process = ApiProcess api_config | WatcherProcess watcher_config | BroadcasterProcess broadcaster_config

definition api_env :: "('p, 'k) host \<Rightarrow> error + string \<times> api_config" where
  "api_env h =
     (case requiredStringEnv h ''DATABASE_URL'' of
        Inl e \<Rightarrow> Inl e
      | Inr dsn \<Rightarrow>
     (let listenAddr = (if getenv h ''API_LISTEN_ADDR'' = [] then '':8080'' else getenv h ''API_LISTEN_ADDR'');
          validTokens = splitNonEmpty (getenv h ''API_BEARER_TOKENS'') (CHR '','') in
     (case requiredStringEnv h ''API_CURSOR_SIGNING_KEY'' of
        Inl e \<Rightarrow> Inl e
      | Inr cursorSigningKey \<Rightarrow>
     (case requiredStringEnv h ''BASE_RPC_URL'' of
        Inl e \<Rightarrow> Inl e
      | Inr baseRPCURL \<Rightarrow>
     (case requiredStringEnv h ''ARBITRUM_RPC_URL'' of
        Inl e \<Rightarrow> Inl e
      | Inr arbitrumRPCURL \<Rightarrow>
     (case requiredChainIDEnv h ''BASE_CHAIN_ID'' of
        Inl e \<Rightarrow> Inl e
      | Inr baseChainID \<Rightarrow>
     (case requiredChainIDEnv h ''ARBITRUM_CHAIN_ID'' of
        Inl e \<Rightarrow> Inl e
      | Inr arbitrumChainID \<Rightarrow>
          Inr (dsn, \<lparr>ac_listen_addr = listenAddr, ac_valid_tokens = validTokens,
            ac_cursor_signing_key = cursorSigningKey,
            ac_chains = [\<lparr>cc_name = ''base'', cc_rpc_url = baseRPCURL, cc_chain_id = baseChainID\<rparr>,
              \<lparr>cc_name = ''arbitrum'', cc_rpc_url = arbitrumRPCURL, cc_chain_id = arbitrumChainID\<rparr>]\<rparr>))))))))"

definition chain_env :: "('p, 'k) host \<Rightarrow> string \<Rightarrow> error + string \<times> string \<times> chain_config" where
  "chain_env h chainName =
     (case env_prefix chainName of
        Inl e \<Rightarrow> Inl e
      | Inr envPrefix \<Rightarrow>
     (case requiredStringEnv h ''DATABASE_URL'' of
        Inl e \<Rightarrow> Inl e
      | Inr dsn \<Rightarrow>
     (case requiredStringEnv h (envPrefix @ ''_RPC_URL'') of
        Inl e \<Rightarrow> Inl e
      | Inr rpcURL \<Rightarrow>
     (case requiredChainIDEnv h (envPrefix @ ''_CHAIN_ID'') of
        Inl e \<Rightarrow> Inl e
      | Inr chainID \<Rightarrow>
          Inr (envPrefix, dsn, \<lparr>cc_name = chainName, cc_rpc_url = rpcURL, cc_chain_id = chainID\<rparr>)))))"

definition zeroAddress :: address where
  "zeroAddress = ''0x0000000000000000000000000000000000000000''"

definition watcher_env :: "('p, 'k) host \<Rightarrow> string \<Rightarrow> error + string \<times> watcher_config" where
  "watcher_env h chainName =
     (case chain_env h chainName of
        Inl e \<Rightarrow> Inl e
      | Inr (envPrefix, dsn, ch) \<Rightarrow>
     (case requiredStringEnv h (envPrefix @ ''_USDC_ADDRESS'') of
        Inl e \<Rightarrow> Inl e
      | Inr usdcAddress \<Rightarrow>
          if \<not> IsChecksummedAddress (host_evm h) usdcAddress
          then Inl (ErrText (envPrefix @ ''_USDC_ADDRESS must be a checksummed address''))
          else if usdcAddress = zeroAddress
          then Inl (ErrText (envPrefix @ ''_USDC_ADDRESS is still the placeholder zero address''))
          else
     (case duration_env h ''WATCHER_POLL_INTERVAL'' defaultWatcherPollInterval of
        Inl e \<Rightarrow> Inl e
      | Inr pollInterval \<Rightarrow>
          Inr (dsn, \<lparr>wt_chain = ch, wt_usdc_address = usdcAddress, wt_poll_interval = pollInterval\<rparr>))))"

definition broadcaster_env ::
    "('p, 'k) host \<Rightarrow> string \<Rightarrow> error + string \<times> chain_config \<times> duration \<times> duration \<times> duration" where
  "broadcaster_env h chainName =
     (case chain_env h chainName of
        Inl e \<Rightarrow> Inl e
      | Inr (_, dsn, ch) \<Rightarrow>
     (case duration_env h ''BROADCASTER_POLL_INTERVAL'' defaultBroadcasterPollInterval of
        Inl e \<Rightarrow> Inl e
      | Inr pollInterval \<Rightarrow>
     (case duration_env h ''WITHDRAWAL_STUCK_THRESHOLD'' defaultWithdrawalStuckThreshold of
        Inl e \<Rightarrow> Inl e
      | Inr stuckThreshold \<Rightarrow>
     (case duration_env h ''LIVENESS_STALENESS_THRESHOLD'' (liveness_default h) of
        Inl e \<Rightarrow> Inl e
      | Inr livenessThreshold \<Rightarrow> Inr (dsn, ch, pollInterval, stuckThreshold, livenessThreshold)))))"

definition signer_backend :: "('p, 'k) host \<Rightarrow> error + (byte list \<Rightarrow> error + byte list) \<times> address" where
  "signer_backend h =
     (case requiredStringEnv h ''SIGNER_BACKEND'' of
        Inl e \<Rightarrow> Inl e
      | Inr signerBackend \<Rightarrow>
          if signerBackend = ''software'' then
            (case requiredStringEnv h ''SIGNER_PRIVATE_KEY'' of
               Inl e \<Rightarrow> Inl e
             | Inr privateKeyHex \<Rightarrow>
                 map_sum id (\<lambda>s. (software_Sign (host_curve h) s, ss_address s))
                   (new_software_signer (host_curve h) privateKeyHex))
          else if signerBackend = ''kms'' then
            (case requiredStringEnv h ''SIGNER_KMS_KEY_ID'' of
               Inl e \<Rightarrow> Inl e
             | Inr kmsKeyID \<Rightarrow>
            (case load_kms h kmsKeyID of
               Inl e \<Rightarrow> Inl e
             | Inr client \<Rightarrow>
                 map_sum id (\<lambda>s. (kms_Sign (host_curve h) s, ks_address s)) (new_kms_signer (host_curve h) client)))
          else Inl (ErrText ''SIGNER_BACKEND must be software or kms''))"

subsection \<open>Coming up\<close>

record ('p, 'k) cluster =
  cl_running :: "(('p, 'k) host \<times> process) list"
  cl_locks :: "int list"
  cl_world :: "database world"

text \<open>Only for the two names that \<open>env_prefix\<close> lets through; the code panics on others.\<close>

definition watcherLockID :: "chain \<Rightarrow> int" where
  "watcherLockID chainName = (if chainName = ''base'' then 890100001 else 890100002)"

definition broadcasterLockID :: "chain \<Rightarrow> int" where
  "broadcasterLockID chainName = (if chainName = ''base'' then 890200001 else 890200002)"

fun lock_of :: "process \<Rightarrow> int option" where
  "lock_of (ApiProcess cfg) = None"
| "lock_of (WatcherProcess cfg) = Some (watcherLockID (cc_name (wt_chain cfg)))"
| "lock_of (BroadcasterProcess cfg) = Some (broadcasterLockID (cc_name (bc_chain cfg)))"

text \<open>\<^verbatim>\<open>pg_try_advisory_lock\<close> over a connection of a new pool: \<open>Inr\<close> when the lock is acquired.\<close>

definition take_lock :: "('p, 'k) host \<Rightarrow> string \<Rightarrow> int \<Rightarrow> int list \<Rightarrow> error + int list" where
  "take_lock h dsn key taken =
     (case open_pool h dsn of
        Some e \<Rightarrow> Inl e
      | None \<Rightarrow>
     (case acquire_conn h of
        Some e \<Rightarrow> Inl e
      | None \<Rightarrow>
     (case lock_query h of
        Some e \<Rightarrow> Inl e
      | None \<Rightarrow>
          if key \<in> set taken then Inl (ErrText ''another process already holds the advisory lock'')
          else Inr (key # taken))))"

text \<open>A process that is up, or the error it exits with and the tables it leaves.\<close>

type_synonym ('p, 'k) boot = "('p, 'k) cluster \<Rightarrow> (error + process \<times> int list) \<times> database world"

text \<open>\<^verbatim>\<open>NewFeeEstimator\<close> dials every chain, one after another.\<close>

definition NewFeeEstimator :: "('p, 'k) host \<Rightarrow> chain_config list \<Rightarrow> error option" where
  "NewFeeEstimator h chs = first_error (dial_chain h) chs"

definition runAPI_start :: "('p, 'k) host \<Rightarrow> ('p, 'k) boot" where
  "runAPI_start h c =
     (let w = cl_world c in
      case api_env h of
        Inl e \<Rightarrow> (Inl e, w)
      | Inr (dsn, cfg) \<Rightarrow>
     (case first_error (VerifyDeployerPresence h) (ac_chains cfg) of
        Some e \<Rightarrow> (Inl e, w)
      | None \<Rightarrow>
     (case open_pool h dsn of
        Some e \<Rightarrow> (Inl e, w)
      | None \<Rightarrow>
     (case migrate h w of
        (Inl e, w1) \<Rightarrow> (Inl e, w1)
      | (Inr _, w1) \<Rightarrow>
     (case NewFeeEstimator h (ac_chains cfg) of
        Some e \<Rightarrow> (Inl e, w1)
      | None \<Rightarrow> (Inr (ApiProcess cfg, cl_locks c), w1))))))"

definition runWatcher_start :: "('p, 'k) host \<Rightarrow> string list \<Rightarrow> ('p, 'k) boot" where
  "runWatcher_start h args c =
     (let w = cl_world c in
      case parse_flags args [] of
        Inl e \<Rightarrow> (Inl e, w)
      | Inr chainName \<Rightarrow>
     (case watcher_env h chainName of
        Inl e \<Rightarrow> (Inl e, w)
      | Inr (dsn, cfg) \<Rightarrow>
     (case VerifyDeployerPresence h (wt_chain cfg) of
        Some e \<Rightarrow> (Inl e, w)
      | None \<Rightarrow>
     (case take_lock h dsn (watcherLockID chainName) (cl_locks c) of
        Inl e \<Rightarrow> (Inl e, w)
      | Inr locks \<Rightarrow>
     (case migrate h w of
        (Inl e, w1) \<Rightarrow> (Inl e, w1)
      | (Inr _, w1) \<Rightarrow>
     (case UpsertToken chainName (wt_usdc_address cfg) AssetUSDC w1 of
        (Inl e, w2) \<Rightarrow> (Inl e, w2)
      | (Inr _, w2) \<Rightarrow>
     (case dial_chain h (wt_chain cfg) of
        Some e \<Rightarrow> (Inl e, w2)
      | None \<Rightarrow> (Inr (WatcherProcess cfg, locks), w2))))))))"

definition runBroadcaster_start :: "('p, 'k) host \<Rightarrow> string list \<Rightarrow> ('p, 'k) boot" where
  "runBroadcaster_start h args c =
     (let w = cl_world c in
      case parse_flags args [] of
        Inl e \<Rightarrow> (Inl e, w)
      | Inr chainName \<Rightarrow>
     (case broadcaster_env h chainName of
        Inl e \<Rightarrow> (Inl e, w)
      | Inr (dsn, ch, pollInterval, stuckThreshold, livenessThreshold) \<Rightarrow>
     (case take_lock h dsn (broadcasterLockID chainName) (cl_locks c) of
        Inl e \<Rightarrow> (Inl e, w)
      | Inr locks \<Rightarrow>
     (case migrate h w of
        (Inl e, w1) \<Rightarrow> (Inl e, w1)
      | (Inr _, w1) \<Rightarrow>
     (case dial_chain h ch of
        Some e \<Rightarrow> (Inl e, w1)
      | None \<Rightarrow>
     (case signer_backend h of
        Inl e \<Rightarrow> (Inl e, w1)
      | Inr (sign, address) \<Rightarrow>
          (Inr (BroadcasterProcess \<lparr>bc_chain = ch, bc_poll_interval = pollInterval,
             bc_stuck_threshold = stuckThreshold, bc_liveness_threshold = livenessThreshold,
             bc_sign = sign, bc_signer_address = address\<rparr>, locks), w1)))))))"

definition walletd_main :: "('p, 'k) host \<Rightarrow> string list \<Rightarrow> ('p, 'k) boot" where
  "walletd_main h args c =
     (case args of
        _ # subcommand # rest \<Rightarrow>
          if subcommand = ''api'' then runAPI_start h c
          else if subcommand = ''watcher'' then runWatcher_start h rest c
          else if subcommand = ''broadcaster'' then runBroadcaster_start h rest c
          else (Inl (ErrText ''unknown subcommand''), cl_world c)
      | _ \<Rightarrow> (Inl (ErrText ''usage: walletd <api|watcher|broadcaster>''), cl_world c))"

subsection \<open>The processes side by side\<close>

text \<open>A process comes up, fails to, or ends (its session with it); the work of the running processes
  changes the tables in any way.\<close>

inductive cluster_step :: "('p, 'k) cluster \<Rightarrow> ('p, 'k) cluster \<Rightarrow> bool" where
  up: "walletd_main h args c = (Inr (p, locks), w') \<Longrightarrow>
    cluster_step c \<lparr>cl_running = (h, p) # cl_running c, cl_locks = locks, cl_world = w'\<rparr>"
| refused: "walletd_main h args c = (Inl e, w') \<Longrightarrow> cluster_step c (c\<lparr>cl_world := w'\<rparr>)"
| ended: "cl_running c = xs @ (h, p) # ys \<Longrightarrow>
    cluster_step c (c\<lparr>cl_running := xs @ ys,
      cl_locks := (case lock_of p of None \<Rightarrow> cl_locks c | Some key \<Rightarrow> removeAll key (cl_locks c))\<rparr>)"
| work: "cluster_step c (c\<lparr>cl_world := w'\<rparr>)"

inductive cluster_reachable :: "('p, 'k) cluster \<Rightarrow> bool" where
  empty: "cl_running c = [] \<Longrightarrow> cl_locks c = [] \<Longrightarrow> cluster_reachable c"
| more: "cluster_reachable c \<Longrightarrow> cluster_step c c' \<Longrightarrow> cluster_reachable c'"

subsection \<open>What a process that is up has checked\<close>

definition chain_ok :: "chain_config \<Rightarrow> bool" where
  "chain_ok ch \<longleftrightarrow> (cc_name ch = ''base'' \<or> cc_name ch = ''arbitrum'') \<and> cc_rpc_url ch \<noteq> [] \<and> cc_chain_id ch \<noteq> 0"

text \<open>The endpoint reports the configured chain id and has code at the deployer.\<close>

definition probed :: "('p, 'k) host \<Rightarrow> chain_config \<Rightarrow> bool" where
  "probed h ch \<longleftrightarrow> (\<exists>client code. dial_probe h ch = Inr client \<and> pc_ChainID client = Inr (uint (cc_chain_id ch)) \<and>
     pc_CodeAt client (canonicalDeployerAddress (host_evm h)) = Inr code \<and> code \<noteq> [])"

text \<open>The signer is the one of the named backend, built from a key of its own.\<close>

definition backed :: "('p, 'k) host \<Rightarrow> (byte list \<Rightarrow> error + byte list) \<Rightarrow> address \<Rightarrow> bool" where
  "backed h sign address \<longleftrightarrow>
     (getenv h ''SIGNER_BACKEND'' = ''software'' \<and>
       (\<exists>s. new_software_signer (host_curve h) (getenv h ''SIGNER_PRIVATE_KEY'') = Inr s \<and>
          sign = software_Sign (host_curve h) s \<and> address = ss_address s)) \<or>
     (getenv h ''SIGNER_BACKEND'' = ''kms'' \<and>
       (\<exists>client s. load_kms h (getenv h ''SIGNER_KMS_KEY_ID'') = Inr client \<and>
          new_kms_signer (host_curve h) client = Inr s \<and>
          sign = kms_Sign (host_curve h) s \<and> address = ks_address s))"

fun configured :: "('p, 'k) host \<Rightarrow> process \<Rightarrow> bool" where
  "configured h (ApiProcess cfg) \<longleftrightarrow>
     [] \<notin> set (ac_valid_tokens cfg) \<and> ac_cursor_signing_key cfg \<noteq> [] \<and> ac_listen_addr cfg \<noteq> [] \<and>
     map cc_name (ac_chains cfg) = [''base'', ''arbitrum''] \<and>
     list_all (\<lambda>ch. chain_ok ch \<and> probed h ch) (ac_chains cfg)"
| "configured h (WatcherProcess cfg) \<longleftrightarrow>
     chain_ok (wt_chain cfg) \<and> probed h (wt_chain cfg) \<and>
     IsChecksummedAddress (host_evm h) (wt_usdc_address cfg) \<and> wt_usdc_address cfg \<noteq> zeroAddress \<and>
     0 < sint (wt_poll_interval cfg)"
| "configured h (BroadcasterProcess cfg) \<longleftrightarrow>
     chain_ok (bc_chain cfg) \<and> 0 < sint (bc_poll_interval cfg) \<and> 0 < sint (bc_stuck_threshold cfg) \<and>
     (0 < sint (bc_liveness_threshold cfg) \<or>
      getenv h ''LIVENESS_STALENESS_THRESHOLD'' = [] \<and> 2 ^ 63 \<le> 3 * sint (watcher_interval h)) \<and>
     backed h (bc_sign cfg) (bc_signer_address cfg)"

lemma requiredStringEnv_Inr: "requiredStringEnv h name = Inr v \<longleftrightarrow> getenv h name = v \<and> v \<noteq> []"
  by (auto simp: requiredStringEnv_def Let_def)

lemma requiredChainIDEnv_nonzero: "requiredChainIDEnv h name = Inr v \<Longrightarrow> v \<noteq> 0"
  by (auto simp: requiredChainIDEnv_def Let_def word_of_nat_eq_0_iff nat_dvd_not_less split: if_splits option.splits)

lemma splitNonEmpty_nonempty [simp]: "[] \<notin> set (splitNonEmpty s sep)"
  by (simp add: splitNonEmpty_def)

lemma duration_env_positive:
  "duration_env h name d = Inr r \<Longrightarrow> 0 < sint r \<or> getenv h name = [] \<and> r = d"
  by (auto simp: duration_env_def Let_def split: if_splits sum.splits)

lemma watcher_interval_positive: "0 < sint (watcher_interval h)"
  by (auto simp: watcher_interval_def defaultWatcherPollInterval_def Let_def split: sum.splits)

text \<open>Three times the interval of the watcher, unless that passes the top of the 64-bit range.\<close>

lemma liveness_default_exact:
  assumes "3 * sint (watcher_interval h) < 2 ^ 63"
  shows "sint (liveness_default h) = 3 * sint (watcher_interval h)"
proof -
  have "liveness_default h = word_of_int (3 * sint (watcher_interval h))"
    by (simp add: liveness_default_def defaultLivenessStalenessMultiplier_def)
  then show ?thesis
    using assms watcher_interval_positive [of h]
    by (simp add: sint_word_ariths signed_take_bit_int_eq_self)
qed

lemma liveness_default_wraps:
  assumes "watcher_interval h = 2 ^ 62"
  shows "sint (liveness_default h) < 0"
  unfolding liveness_default_def defaultLivenessStalenessMultiplier_def assms by simp

lemma VerifyDeployerPresence_None: "VerifyDeployerPresence h ch = None \<longleftrightarrow> probed h ch"
  by (auto simp: VerifyDeployerPresence_def verifyDeployerPresence_def probed_def split: sum.splits if_splits)

lemma signer_backend_Inr: "signer_backend h = Inr (sign, address) \<Longrightarrow> backed h sign address"
  by (auto simp: signer_backend_def backed_def requiredStringEnv_Inr map_sum_def split: sum.splits if_splits)

lemma chain_env_ok: "chain_env h name = Inr (p, dsn, ch) \<Longrightarrow> chain_ok ch \<and> cc_name ch = name"
  by (auto simp: chain_env_def chain_ok_def env_prefix_def requiredStringEnv_Inr
      dest!: requiredChainIDEnv_nonzero split: sum.splits if_splits)

lemma api_env_ok:
  assumes "api_env h = Inr (dsn, cfg)" "list_all (probed h) (ac_chains cfg)"
  shows "configured h (ApiProcess cfg)"
  using assms
  by (auto simp: api_env_def requiredStringEnv_Inr Let_def chain_ok_def dest!: requiredChainIDEnv_nonzero
      split: sum.splits if_splits)

lemma watcher_env_ok:
  assumes "watcher_env h name = Inr (dsn, cfg)" "probed h (wt_chain cfg)"
  shows "configured h (WatcherProcess cfg) \<and> cc_name (wt_chain cfg) = name"
  using assms
  by (auto simp: watcher_env_def defaultWatcherPollInterval_def dest!: chain_env_ok duration_env_positive
      split: sum.splits if_splits)

lemma liveness_positive:
  assumes "duration_env h ''LIVENESS_STALENESS_THRESHOLD'' (liveness_default h) = Inr d"
  shows "0 < sint d \<or> getenv h ''LIVENESS_STALENESS_THRESHOLD'' = [] \<and> 2 ^ 63 \<le> 3 * sint (watcher_interval h)"
proof (cases "0 < sint d")
  case False
  then have d: "getenv h ''LIVENESS_STALENESS_THRESHOLD'' = []" "d = liveness_default h"
    using duration_env_positive [OF assms] by simp_all
  then have "\<not> 3 * sint (watcher_interval h) < 2 ^ 63"
    using False liveness_default_exact [of h] watcher_interval_positive [of h] by fastforce
  then show ?thesis
    using d(1) by simp
qed simp

lemma broadcaster_env_ok:
  assumes "broadcaster_env h name = Inr (dsn, ch, p, s, l)" "backed h sign address"
  shows "configured h (BroadcasterProcess \<lparr>bc_chain = ch, bc_poll_interval = p, bc_stuck_threshold = s,
      bc_liveness_threshold = l, bc_sign = sign, bc_signer_address = address\<rparr>) \<and> cc_name ch = name"
proof -
  obtain pre where e: "chain_env h name = Inr (pre, dsn, ch)"
    "duration_env h ''BROADCASTER_POLL_INTERVAL'' defaultBroadcasterPollInterval = Inr p"
    "duration_env h ''WITHDRAWAL_STUCK_THRESHOLD'' defaultWithdrawalStuckThreshold = Inr s"
    "duration_env h ''LIVENESS_STALENESS_THRESHOLD'' (liveness_default h) = Inr l"
    using assms(1) by (auto simp: broadcaster_env_def split: sum.splits)
  show ?thesis
    using chain_env_ok [OF e(1)] duration_env_positive [OF e(2)] duration_env_positive [OF e(3)]
      liveness_positive [OF e(4)] assms(2)
    by (auto simp: defaultBroadcasterPollInterval_def defaultWithdrawalStuckThreshold_def)
qed

text \<open>The locks after a start: those before, and the one of the process, which was free.\<close>

definition locked :: "int list \<Rightarrow> process \<Rightarrow> int list \<Rightarrow> bool" where
  "locked before p locks \<longleftrightarrow>
     (case lock_of p of None \<Rightarrow> locks = before | Some k \<Rightarrow> k \<notin> set before \<and> locks = k # before)"

lemma take_lock_Inr: "take_lock h dsn key taken = Inr locks \<Longrightarrow> key \<notin> set taken \<and> locks = key # taken"
  by (auto simp: take_lock_def split: option.splits if_splits)

lemma api_up:
  "runAPI_start h c = (Inr (p, locks), w') \<Longrightarrow> configured h p \<and> locked (cl_locks c) p locks"
  by (auto simp: runAPI_start_def Let_def locked_def first_error_None VerifyDeployerPresence_None list_all_iff
      simp del: configured.simps intro!: api_env_ok split: sum.splits option.splits prod.splits)

lemma watcher_up:
  assumes "runWatcher_start h args c = (Inr (p, locks), w')"
  shows "configured h p \<and> locked (cl_locks c) p locks"
proof -
  obtain name dsn cfg where e: "watcher_env h name = Inr (dsn, cfg)" "probed h (wt_chain cfg)"
    and l: "take_lock h dsn (watcherLockID name) (cl_locks c) = Inr locks" and p: "p = WatcherProcess cfg"
    using assms
    by (auto simp: runWatcher_start_def Let_def VerifyDeployerPresence_None
        split: sum.splits option.splits prod.splits)
  show ?thesis
    using watcher_env_ok [OF e] take_lock_Inr [OF l] by (auto simp: p locked_def simp del: configured.simps)
qed

lemma broadcaster_up:
  assumes "runBroadcaster_start h args c = (Inr (p, locks), w')"
  shows "configured h p \<and> locked (cl_locks c) p locks"
proof -
  obtain name dsn ch pi st li sign address where e: "broadcaster_env h name = Inr (dsn, ch, pi, st, li)"
    and l: "take_lock h dsn (broadcasterLockID name) (cl_locks c) = Inr locks"
    and g: "signer_backend h = Inr (sign, address)"
    and p: "p = BroadcasterProcess \<lparr>bc_chain = ch, bc_poll_interval = pi, bc_stuck_threshold = st,
      bc_liveness_threshold = li, bc_sign = sign, bc_signer_address = address\<rparr>"
    using assms
    by (auto simp: runBroadcaster_start_def Let_def split: sum.splits option.splits prod.splits)
  show ?thesis
    using broadcaster_env_ok [OF e signer_backend_Inr [OF g]] take_lock_Inr [OF l]
    by (auto simp: p locked_def simp del: configured.simps)
qed

lemma main_up:
  "walletd_main h args c = (Inr (p, locks), w') \<Longrightarrow> configured h p \<and> locked (cl_locks c) p locks"
  unfolding walletd_main_def
  by (auto simp del: configured.simps dest: api_up watcher_up broadcaster_up split: list.splits if_splits)

subsection \<open>One process of a kind per chain\<close>

definition held_locks :: "(('p, 'k) host \<times> process) list \<Rightarrow> int list" where
  "held_locks ps = List.map_filter (lock_of \<circ> snd) ps"

lemma held_locks_simps [simp]:
  "held_locks [] = []"
  "held_locks (x # ps) = (case lock_of (snd x) of None \<Rightarrow> held_locks ps | Some k \<Rightarrow> k # held_locks ps)"
  "held_locks (ps @ qs) = held_locks ps @ held_locks qs"
  by (simp_all add: held_locks_def map_filter_def split: option.split)

definition cluster_ok :: "('p, 'k) cluster \<Rightarrow> bool" where
  "cluster_ok c \<longleftrightarrow> distinct (held_locks (cl_running c)) \<and> set (cl_locks c) = set (held_locks (cl_running c)) \<and>
     list_all (\<lambda>(h, p). configured h p) (cl_running c)"

lemma cluster_up_ok:
  assumes "cluster_ok c" "configured h p" "locked (cl_locks c) p locks"
  shows "cluster_ok \<lparr>cl_running = (h, p) # cl_running c, cl_locks = locks, cl_world = w\<rparr>"
  using assms by (cases "lock_of p") (simp_all add: cluster_ok_def locked_def)

lemma cluster_ended_ok:
  assumes "cluster_ok c" "cl_running c = xs @ (h, p) # ys"
  shows "cluster_ok (c\<lparr>cl_running := xs @ ys,
      cl_locks := (case lock_of p of None \<Rightarrow> cl_locks c | Some key \<Rightarrow> removeAll key (cl_locks c))\<rparr>)"
  using assms by (cases "lock_of p") (auto simp: cluster_ok_def)

lemma cluster_step_ok: "cluster_step c c' \<Longrightarrow> cluster_ok c \<Longrightarrow> cluster_ok c'"
proof (induction rule: cluster_step.induct)
  case (up h args c p locks w')
  then show ?case
    using main_up cluster_up_ok by blast
next
  case (refused h args c e w')
  then show ?case
    by (simp add: cluster_ok_def)
next
  case (work c w')
  then show ?case
    by (simp add: cluster_ok_def)
qed (rule cluster_ended_ok)

lemma reachable_cluster_ok: "cluster_reachable c \<Longrightarrow> cluster_ok c"
proof (induction rule: cluster_reachable.induct)
  case (empty c)
  then show ?case
    by (simp add: cluster_ok_def)
qed (rule cluster_step_ok)

definition watches :: "chain \<Rightarrow> process \<Rightarrow> bool" where
  "watches ch p \<longleftrightarrow> (case p of WatcherProcess cfg \<Rightarrow> cc_name (wt_chain cfg) = ch | _ \<Rightarrow> False)"

definition broadcasts :: "chain \<Rightarrow> process \<Rightarrow> bool" where
  "broadcasts ch p \<longleftrightarrow> (case p of BroadcasterProcess cfg \<Rightarrow> cc_name (bc_chain cfg) = ch | _ \<Rightarrow> False)"

lemma one_per_lock:
  assumes "distinct (held_locks ps)" "\<And>x. x \<in> set ps \<Longrightarrow> P (snd x) \<Longrightarrow> lock_of (snd x) = Some k"
  shows "length (filter P (map snd ps)) \<le> 1"
  using assms
proof (induction ps)
  case (Cons x ps)
  show ?case
  proof (cases "P (snd x)")
    case True
    then have "k \<notin> set (held_locks ps)"
      using Cons.prems by simp
    moreover have "\<And>y. y \<in> set ps \<Longrightarrow> P (snd y) \<Longrightarrow> k \<in> set (held_locks ps)"
      using Cons.prems(2) by (force simp: held_locks_def map_filter_def image_iff)
    ultimately have "filter P (map snd ps) = []"
      by (auto simp: filter_empty_conv)
    then show ?thesis
      by simp
  next
    case False
    then show ?thesis
      using Cons.IH Cons.prems by (auto split: option.splits)
  qed
qed simp

text \<open>A host whose environment configures a watcher and a broadcaster of Base, and the run that starts
  the watcher, then tries a second one.\<close>

definition startup_evm :: evm_lib where
  "startup_evm =
     \<lparr>HexToAddress = map of_char, AddressHex = map (\<lambda>b. char_of (unat b)), HashHex = (\<lambda>h. []),
      BytesToAddress = (\<lambda>bs. bs), BytesToHash = (\<lambda>bs. bs), Keccak256Hash = map of_char\<rparr>"

definition startup_env :: "string \<Rightarrow> string" where
  "startup_env name =
     (case map_of [(''DATABASE_URL'', ''postgres''), (''BASE_RPC_URL'', ''http://node''), (''BASE_CHAIN_ID'', ''8453''),
        (''BASE_USDC_ADDRESS'', alice_address), (''WATCHER_POLL_INTERVAL'', ''2s'')] name of
        None \<Rightarrow> [] | Some v \<Rightarrow> v)"

definition startup_host :: "(byte, byte list) host" where
  "startup_host =
     \<lparr>getenv = startup_env, ParseDuration = (\<lambda>s. if s = ''2s'' then Inr 2000000000 else Inl (ErrText ''duration'')),
      dial_probe = (\<lambda>ch. Inr \<lparr>pc_ChainID = Inr 8453, pc_CodeAt = (\<lambda>a. Inr [1])\<rparr>),
      dial_chain = (\<lambda>ch. None), open_pool = (\<lambda>dsn. None), acquire_conn = None, lock_query = None,
      migrate = ret (), load_kms = (\<lambda>k. Inl (ErrText ''no kms'')), host_evm = startup_evm,
      host_curve = \<lparr>ParsePubKey = (\<lambda>bs. Inr (hd bs)), SerializeUncompressed = (\<lambda>p. [p]),
        RecoverCompact = (\<lambda>c d. Inr (hd c)), IsEqual = (=), LegacyKeccak256 = (\<lambda>bs. bs),
        ScalarOverflows = (\<lambda>bs. False), PrivKeyFromBytes = (\<lambda>bs. bs), KeyIsZero = (\<lambda>k. k = []),
        PubKey = (\<lambda>k. 28), SignCompact = (\<lambda>k d. 28 # replicate 64 0)\<rparr>\<rparr>"

definition startup_cluster :: "(byte, byte list) cluster" where
  "startup_cluster = \<lparr>cl_running = [], cl_locks = [], cl_world = sample_world sample\<rparr>"

definition startup_watcher :: watcher_config where
  "startup_watcher =
     \<lparr>wt_chain = \<lparr>cc_name = ''base'', cc_rpc_url = ''http://node'', cc_chain_id = 8453\<rparr>,
      wt_usdc_address = alice_address, wt_poll_interval = 2000000000\<rparr>"

definition startup_args :: "string list" where
  "startup_args = [''walletd'', ''watcher'', ''--chain=base'']"

definition startup_run :: "(byte, byte list) cluster" where
  "startup_run =
     \<lparr>cl_running = [(startup_host, WatcherProcess startup_watcher)], cl_locks = [890100001],
      cl_world = snd (walletd_main startup_host startup_args startup_cluster)\<rparr>"

lemma startup_flags: "parse_flags [''--chain=base''] [] = Inr ''base''"
  by code_simp

lemma startup_token:
  "IsChecksummedAddress startup_evm alice_address" "alice_address \<noteq> zeroAddress" "alice_address \<noteq> []"
  "fst (UpsertToken ''base'' alice_address AssetUSDC (sample_world sample)) = Inr ()"
  by code_simp+

lemma startup_env_parsed: "watcher_env startup_host ''base'' = Inr (''postgres'', startup_watcher)"
  by (simp add: watcher_env_def chain_env_def env_prefix_def requiredStringEnv_def requiredChainIDEnv_def
      duration_env_def startup_host_def startup_env_def parse_nat10_def startup_watcher_def startup_token)

lemma startup_probe: "VerifyDeployerPresence startup_host (wt_chain startup_watcher) = None"
  by (simp add: VerifyDeployerPresence_None probed_def startup_host_def startup_watcher_def)

lemma startup_lock:
  "take_lock startup_host dsn key taken =
     (if key \<in> set taken then Inl (ErrText ''another process already holds the advisory lock'')
      else Inr (key # taken))"
  by (simp add: take_lock_def startup_host_def)

lemma startup_up: "walletd_main startup_host startup_args startup_cluster =
    (Inr (WatcherProcess startup_watcher, [890100001]), cl_world startup_run)"
proof -
  have m: "migrate startup_host = ret ()" "dial_chain startup_host ch = None"
    "wt_usdc_address startup_watcher = alice_address" for ch
    by (simp_all add: startup_host_def startup_watcher_def)
  obtain w' where w': "UpsertToken ''base'' alice_address AssetUSDC (sample_world sample) = (Inr (), w')"
    using startup_token(4) by (metis prod.collapse)
  have "fst (walletd_main startup_host startup_args startup_cluster) = Inr (WatcherProcess startup_watcher, [890100001])"
    using w'
    by (simp add: walletd_main_def startup_args_def runWatcher_start_def Let_def startup_flags startup_env_parsed
        startup_probe startup_lock m startup_cluster_def watcherLockID_def)
  then show ?thesis
    by (simp add: startup_run_def prod_eq_iff)
qed

lemma startup_reachable: "cluster_reachable startup_run"
proof -
  have "cluster_reachable startup_cluster"
    by (rule cluster_reachable.empty) (simp_all add: startup_cluster_def)
  then have "cluster_reachable \<lparr>cl_running = (startup_host, WatcherProcess startup_watcher) # cl_running startup_cluster,
      cl_locks = [890100001], cl_world = cl_world startup_run\<rparr>"
    using cluster_step.up [OF startup_up] by (rule cluster_reachable.more)
  then show ?thesis
    by (simp add: startup_run_def startup_cluster_def)
qed

lemma startup_second:
  "fst (walletd_main startup_host startup_args startup_run) =
     Inl (ErrText ''another process already holds the advisory lock'')"
  by (simp add: walletd_main_def startup_args_def runWatcher_start_def Let_def startup_flags startup_env_parsed
      startup_probe startup_lock startup_run_def watcherLockID_def)

text \<open>C39: the processes that run side by side.  Whatever starts, is refused, ends and works in any order,
  at most one watcher and at most one broadcaster run for a chain, and every running process has
  passed its checks in the environment it was started in: an api has no empty bearer token, a key for
  its cursors and both chains, named, numbered and probed; a watcher a probed chain, a checksummed
  token address that is not the placeholder, and a positive interval; a broadcaster positive
  intervals and thresholds and the signer of the backend it was told, and no other.  The one exception
  is the default of the liveness threshold, three times the interval of the watcher, which is as
  computed only while it fits 64 bits.\<close>

theorem started_processes:
  assumes "cluster_reachable c"
  shows "length (filter (watches ch) (map snd (cl_running c))) \<le> 1 \<and>
    length (filter (broadcasts ch) (map snd (cl_running c))) \<le> 1 \<and>
    list_all (\<lambda>(h, p). configured h p) (cl_running c)"
proof -
  have ok: "cluster_ok c"
    by (rule reachable_cluster_ok [OF assms])
  then have d: "distinct (held_locks (cl_running c))"
    by (simp add: cluster_ok_def)
  have "length (filter (watches ch) (map snd (cl_running c))) \<le> 1"
    by (rule one_per_lock [OF d, where k = "watcherLockID ch"]) (auto simp: watches_def split: process.splits)
  moreover have "length (filter (broadcasts ch) (map snd (cl_running c))) \<le> 1"
    by (rule one_per_lock [OF d, where k = "broadcasterLockID ch"]) (auto simp: broadcasts_def split: process.splits)
  ultimately show ?thesis
    using ok by (simp add: cluster_ok_def)
qed

theorem started_processes_witness:
  "cl_running startup_run = [(startup_host, WatcherProcess startup_watcher)] \<and>
   fst (walletd_main startup_host startup_args startup_run) =
     Inl (ErrText ''another process already holds the advisory lock'') \<and>
   length (filter (watches ''base'') (map snd (cl_running startup_run))) \<le> 1 \<and>
   length (filter (broadcasts ''base'') (map snd (cl_running startup_run))) \<le> 1 \<and>
   list_all (\<lambda>(h, p). configured h p) (cl_running startup_run)"
proof -
  have "cl_running startup_run = [(startup_host, WatcherProcess startup_watcher)]"
    by (simp add: startup_run_def)
  then show ?thesis
    using started_processes [OF startup_reachable, of "''base''"] startup_second by blast
qed

subsection \<open>A changed token address\<close>

text \<open>When the configured address of a chain changes, the row of the old one stays, and with two rows
  neither a fee estimate nor a withdrawal of the token can name its contract.\<close>

lemma changed_address_keeps_row:
  assumes "r \<in> set (token_registry (db w))" "tk_chain r = ch" "tk_contract_address r \<noteq> to_lower addr"
    and u: "UpsertToken ch addr AssetUSDC w = (Inr (), w')"
  obtains x where "x \<in> set (token_registry (db w'))" "tk_chain x = ch" "tk_contract_address x = to_lower addr"
    "tk_asset x = AssetUSDC" "r \<in> set (token_registry (db w'))"
proof -
  let ?same = "\<lambda>x. tk_chain x = ch \<and> tk_contract_address x = to_lower addr"
  let ?set = "\<lambda>x. x\<lparr>tk_asset := AssetUSDC\<rparr>"
  consider (old) x where "x \<in> set (token_registry (db w))" "?same x"
      "token_registry (db w') = modify ?same ?set (token_registry (db w))"
    | (new) "token_registry (db w') = token_registry (db w) @
        [\<lparr>tk_chain = ch, tk_contract_address = to_lower addr, tk_asset = AssetUSDC\<rparr>]"
    using u by (auto simp: UpsertToken_def stmt_def upsert_token_row_def Let_def dest!: next_outcome_world
        split: prod.splits sum.splits if_splits)
  then show thesis
  proof cases
    case old
    have "r \<in> set (token_registry (db w'))" "?set x \<in> set (token_registry (db w'))"
      using old assms(1-3) by (auto simp: modify_def image_iff)
    then show thesis
      using that old(2) by fastforce
  next
    case new
    then show thesis
      by (intro that [of "\<lparr>tk_chain = ch, tk_contract_address = to_lower addr, tk_asset = AssetUSDC\<rparr>"])
        (use assms(1) in simp_all)
  qed
qed

lemma two_rows_ambiguous:
  assumes "registry ch = Inr es" "(a, AssetUSDC) \<in> set es" "(b, AssetUSDC) \<in> set es" "a \<noteq> b"
  shows "usdcContractAddress lib registry ch = Inl (ErrText ''ambiguous token_registry'')"
proof -
  have "{a, b} \<subseteq> fst ` set (filter (\<lambda>(_, x). x = AssetUSDC) es)"
    using assms(2,3) by force
  then have "2 \<le> card (fst ` set (filter (\<lambda>(_, x). x = AssetUSDC) es))"
    using assms(4) by (metis card_2_iff card_mono finite_imageI finite_set)
  also have "\<dots> \<le> length (filter (\<lambda>(_, x). x = AssetUSDC) es)"
    by (metis card_length le_trans card_image_le finite_set)
  finally obtain x y zs where "filter (\<lambda>(_, x). x = AssetUSDC) es = x # y # zs"
    by (metis Suc_le_length_iff numeral_2_eq_2)
  then show ?thesis
    using assms(1) by (simp add: usdcContractAddress_def)
qed

end
