(* ===== verification/Guarantees.thy ===== *)
theory Guarantees
  imports System
begin

text \<open>
  The guarantees of the platform as a whole, as properties of the states its runs reach, with a
  sample run that meets their hypotheses.
\<close>

subsection \<open>A sample run\<close>

text \<open>A customer signs up, deposits 1000 units of ETH on Base, withdraws 700 of them; the withdrawal
  is broadcast and confirmed.\<close>

definition run_ids :: "string \<Rightarrow> uuid list" where
  "run_ids tag = map (\<lambda>c. tag @ [c]) ''abcdefghijklmnopqrstuvwxyz''"

definition run_lib :: http_lib where
  "run_lib = sample_lib
     \<lparr>decode_withdrawal := (\<lambda>_. Some \<lparr>wb_customer_id = ''1a'', wb_chain = ChainBase, wb_asset = AssetETH,
        wb_amount = ''700'', wb_destination_address = bob_address\<rparr>)\<rparr>"

definition run_deployment :: deployment where
  "run_deployment = sample_deployment\<lparr>dp_lib := run_lib, dp_estimate := sample_estimator\<rparr>"

definition run_post :: "string \<Rightarrow> string \<Rightarrow> http_request" where
  "run_post res key = sample_post
     \<lparr>rq_path := ''/v1/'' @ res, rq_segments := [''v1'', res], rq_idempotency_keys := [key]\<rparr>"

definition run_scanner :: scanner where
  "run_scanner = \<lparr>Head = Inr (10, 9, 8), BlockHash = (\<lambda>b. Inr (''0xdead'', True)),
     ScanDeposits = (\<lambda>ads reg a b. Inr ([\<lparr>ot_chain = ChainBase, ot_asset = AssetETH,
       ot_address = ''0x'' @ replicate 40 (CHR ''c''), ot_tx_hash = ''0x02'', ot_log_index = -1,
       ot_amount = 1000, ot_block_number = 8, ot_block_hash = ''0x'' @ replicate 64 (CHR ''a'')\<rparr>], []))\<rparr>"

definition run0 :: "database world" where
  "run0 = \<lparr>db = seeded seed_ids 0, uuids = run_ids ''1'', clock = 1, outcomes = [], wire = []\<rparr>"

definition run1 :: "database world" where
  "run1 = snd (serve run_deployment [''t''] (\<lambda>d. d) (run_post ''customers'' ''k1'') newResponseRecorder run0)"

definition run2 :: "database world" where
  "run2 = snd (TrackDeposits_Execute run_scanner ChainBase (run1\<lparr>uuids := run_ids ''2'', clock := 2, outcomes := []\<rparr>))"

definition run3 :: "database world" where
  "run3 = snd (serve run_deployment [''t''] (\<lambda>d. d) (run_post ''withdrawals'' ''k2'') newResponseRecorder
     (run2\<lparr>uuids := run_ids ''3'', clock := 3, outcomes := []\<rparr>))"

definition run4 :: "database world" where
  "run4 = snd (SignAndBroadcast_Execute sample_ports ChainBase True (run3\<lparr>uuids := run_ids ''4'', clock := 4, outcomes := []\<rparr>))"

definition run5 :: "database world" where
  "run5 = snd (PollReceipts_Execute sample_ports ChainBase (run4\<lparr>uuids := run_ids ''5'', clock := 5, outcomes := []\<rparr>))"

lemma run5_total: "customer_total (db run5) ChainBase AssetETH = 300"
  by code_simp

lemma run4_wire: "wire run4 = [(ChainBase, [7, 171])]"
  by code_simp

lemma run4_status: "map w_status (withdrawals (db run4)) = [WithdrawalStatusBroadcast]"
  by code_simp

lemma run3_approved: "map w_status (withdrawals (db run3)) = [WithdrawalStatusApproved]"
  by code_simp

text \<open>Every stage follows from the one before by letting time pass and making one call.\<close>

lemma run_steps:
  "step run_deployment [''t''] run0 run1"
  "step run_deployment [''t''] (run1\<lparr>uuids := run_ids ''2'', clock := 2, outcomes := []\<rparr>) run2"
  "step run_deployment [''t''] (run2\<lparr>uuids := run_ids ''3'', clock := 3, outcomes := []\<rparr>) run3"
  "step run_deployment [''t''] (run3\<lparr>uuids := run_ids ''4'', clock := 4, outcomes := []\<rparr>) run4"
  "step run_deployment [''t''] (run4\<lparr>uuids := run_ids ''5'', clock := 5, outcomes := []\<rparr>) run5"
  unfolding run1_def run2_def run3_def run4_def run5_def
  by (rule step.request step.watch step.broadcast step.receipts, rule surjective_pairing,
      (rule sample_ports_nonempty)?)+

lemma stage:
  "step dp tokens (w\<lparr>uuids := us, clock := t, outcomes := os\<rparr>) w' \<Longrightarrow> (step dp tokens)\<^sup>*\<^sup>* w w'"
  by (metis converse_rtranclp_into_rtranclp r_into_rtranclp step.tick)

lemma reachable_steps: "(step dp tokens)\<^sup>*\<^sup>* w w' \<Longrightarrow> reachable dp tokens w \<Longrightarrow> reachable dp tokens w'"
  by (induction rule: rtranclp_induct) (auto intro: reachable.run)

lemma run_reachable:
  "reachable run_deployment [''t''] run3" "(step run_deployment [''t''])\<^sup>*\<^sup>* run3 run4"
  "reachable run_deployment [''t''] run4" "reachable run_deployment [''t''] run5"
proof -
  have "reachable run_deployment [''t''] run0"
    by (rule reachable.start [of seed_ids _ 0]) (simp_all add: run0_def seed_ids_def)
  then have "reachable run_deployment [''t''] run1"
    using run_steps(1) by (rule reachable.run)
  then show r3: "reachable run_deployment [''t''] run3"
    using reachable_steps stage [OF run_steps(2)] stage [OF run_steps(3)] by blast
  show s: "(step run_deployment [''t''])\<^sup>*\<^sup>* run3 run4"
    by (rule stage [OF run_steps(4)])
  show r4: "reachable run_deployment [''t''] run4"
    by (rule reachable_steps [OF s r3])
  show "reachable run_deployment [''t''] run5"
    by (rule reachable_steps [OF stage [OF run_steps(5)] r4])
qed

subsection \<open>Properties\<close>

text \<open>C29: the platform is solvent.  In every state that any run of the processes reaches from the
  migrated database, whatever fails on the way, the customers of a supported pair together own
  exactly what was credited minus what was paid out, which is never more than was credited; no
  account of a customer is overdrawn and every journal entry balances.\<close>

theorem reachable_solvent:
  assumes "reachable dp tokens w" "(ch, a) \<in> set SupportedChainAssetPairs"
  shows "customer_total (db w) ch a = credited (db w) ch a - settled (db w) ch a \<and>
    settled (db w) ch a \<le> credited (db w) ch a \<and>
    (\<forall>r\<in>set (accounts (db w)). a_customer_id r \<noteq> None \<longrightarrow> 0 \<le> balance (db w) (a_id r)) \<and>
    entries_balanced (db w)"
proof -
  obtain us t where f: "length us = 8" "evolves (seeded us t) (db w)" and l: "ledger_ok (db w)"
    using reachable_facts [OF assms(1)] by (auto simp: safe_def core_ok_def)
  note eq = solvent [OF l f assms(2)]
  have "0 \<le> customer_total (db w) ch a"
    unfolding customer_total_def total_of_def
    by (rule sum_list_nonneg) (use customer_balances_nonneg [OF l] in auto)
  with eq show ?thesis
    using customer_balances_nonneg [OF l] l by (auto simp: ledger_ok_def)
qed

theorem reachable_solvent_witness:
  "credited (db run5) ChainBase AssetETH - settled (db run5) ChainBase AssetETH = 300"
  using reachable_solvent [of run_deployment "[''t'']" run5 ChainBase AssetETH] run5_total
    run_reachable(4) by (simp add: SupportedChainAssetPairs_def)

text \<open>C30: custody.  In every reachable state, every transaction ever handed to a node is the
  persisted transaction of the one attempt of a withdrawal on that chain that was approved and
  claimed, at the nonce of that withdrawal; a withdrawal has at most one attempt, and a chain has
  seen at most as many different transactions as nonces were allocated to it.\<close>

theorem reachable_custody:
  assumes "reachable dp tokens w"
  shows "(\<forall>(ch, bs)\<in>set (wire w). bs \<noteq> [] \<and>
      (\<exists>x\<in>set (withdrawals (db w)). \<exists>b\<in>set (broadcast_attempts (db w)).
         w_chain x = ch \<and> claimed_status (w_status x) \<and> b_withdrawal_id b = w_id x \<and>
         w_nonce x = Some (b_nonce b) \<and> decode_signed_tx (b_signed_tx b) = Some bs)) \<and>
    distinct (map b_withdrawal_id (broadcast_attempts (db w))) \<and>
    (\<forall>n\<in>set (chain_nonce_state (db w)).
       int (card {bs. (n_chain n, bs) \<in> set (wire w)}) \<le> n_next_nonce n)"
proof -
  have s: "safe w"
    using reachable_facts [OF assms] by blast
  have "distinct (map b_withdrawal_id (broadcast_attempts (db w)))"
    using s by (auto simp: safe_def core_ok_def ledger_ok_def schema_ok_def attempts_ok_def)
  moreover have "bs \<noteq> [] \<and> (\<exists>x\<in>set (withdrawals (db w)). \<exists>b\<in>set (broadcast_attempts (db w)).
      w_chain x = ch \<and> claimed_status (w_status x) \<and> b_withdrawal_id b = w_id x \<and>
      w_nonce x = Some (b_nonce b) \<and> decode_signed_tx (b_signed_tx b) = Some bs)"
    if "(ch, bs) \<in> set (wire w)" for ch bs
    using wire_backed [OF s that] by (metis attempt_of_def)
  ultimately show ?thesis
    using sent_bound [OF s] by auto
qed

theorem reachable_custody_witness:
  "\<exists>x\<in>set (withdrawals (db run4)). \<exists>b\<in>set (broadcast_attempts (db run4)).
     b_withdrawal_id b = w_id x \<and> decode_signed_tx (b_signed_tx b) = Some [7, 171]"
  using reachable_custody [OF run_reachable(3)] run4_wire by auto

text \<open>C31: nothing is taken back.  Whatever the processes go on to do from a reachable state,
  journal entries, postings and events are only added, and every withdrawal is still there with
  the same customer, asset, amount and destination, moved along the edges of its state machine
  only; a confirmed or failed one never changes its state again.\<close>

theorem runs_only_add:
  assumes "reachable dp tokens w" "(step dp tokens)\<^sup>*\<^sup>* w w'"
  shows "(\<exists>js. journal_entries (db w') = journal_entries (db w) @ js) \<and>
    (\<exists>ps. postings (db w') = postings (db w) @ ps) \<and>
    (\<exists>os. outbox_events (db w') = outbox_events (db w) @ os) \<and>
    (\<forall>x\<in>set (withdrawals (db w)). \<exists>y\<in>set (withdrawals (db w')). advance x y \<and>
       (\<not> open_status (w_status x) \<longrightarrow> w_status y = w_status x))"
proof -
  have e: "evolves (db w) (db w')"
    using steps_keep [OF assms(2)] reachable_facts [OF assms(1)] by blast
  then obtain xs ys where w': "withdrawals (db w') = xs @ ys" "list_all2 advance (withdrawals (db w)) xs"
    by (auto simp: evolves_def)
  have "\<exists>y\<in>set (withdrawals (db w')). advance x y" if "x \<in> set (withdrawals (db w))" for x
    using that w' by (auto elim: list_all2_in_set1)
  then have "\<exists>y\<in>set (withdrawals (db w')). advance x y \<and> (\<not> open_status (w_status x) \<longrightarrow> w_status y = w_status x)"
    if "x \<in> set (withdrawals (db w))" for x
    using that advance_final by (fastforce simp: advance_def)
  with e show ?thesis
    by (auto simp: evolves_def)
qed

theorem runs_only_add_witness:
  "\<exists>x y. x \<in> set (withdrawals (db run3)) \<and> y \<in> set (withdrawals (db run4)) \<and> advance x y \<and>
     w_status x = WithdrawalStatusApproved \<and> w_status y = WithdrawalStatusBroadcast"
proof -
  obtain x where x: "withdrawals (db run3) = [x]" "w_status x = WithdrawalStatusApproved"
    using run3_approved by auto
  obtain y where y: "withdrawals (db run4) = [y]" "w_status y = WithdrawalStatusBroadcast"
    using run4_status by auto
  have "advance x y"
    using runs_only_add [OF run_reachable(1,2)] x(1) y(1) by auto
  with x y show ?thesis by auto
qed

end
