(* ===== verification/Platform.thy ===== *)
theory Platform
  imports Payments Startup Guarantees
begin

text \<open>
  The running platform: processes that \<^verbatim>\<open>main\<close> has started, each doing the work of its role with the
  configuration it came up with, over one database.  \<open>process_step\<close> is one call of a process,
  \<open>platform_step\<close> a step of the whole: a start, a refused start, an end, a call, two requests or calls
  that overlap, or time.  It refines both \<open>cluster_step\<close> (so the start-up guarantees hold) and, on the
  world, \<open>step\<close> (so the ledger guarantees hold), and it uses the concrete transaction adapter, so that
  what reaches a node is known to the byte.
\<close>

subsection \<open>The work of a process\<close>

text \<open>The answers of a scanner, of a node and of the libraries of the api are arbitrary.\<close>

inductive process_step :: "'t wallet \<Rightarrow> process \<Rightarrow> database world \<Rightarrow> database world \<Rightarrow> bool"
  for wl :: "'t wallet" where
  request: "serve dp (ac_valid_tokens cfg) (\<lambda>d. d) req newResponseRecorder w = (res, w') \<Longrightarrow>
    process_step wl (ApiProcess cfg) w w'"
| watch: "TrackDeposits_Execute sc (cc_name (wt_chain cfg)) w = (er, w') \<Longrightarrow>
    process_step wl (WatcherProcess cfg) w w'"
| broadcast: "SignAndBroadcast_Execute (evm_ports (wl_evm wl) (wl_abi wl) (wl_txs wl) b (bc_sign cfg))
      (cc_name (bc_chain cfg)) live w = (br, w') \<Longrightarrow>
    eb_chain b = cc_name (bc_chain cfg) \<Longrightarrow> eb_chain_id b = cc_chain_id (bc_chain cfg) \<Longrightarrow>
    registry_reads (db w) (eb_registry b) \<Longrightarrow> process_step wl (BroadcasterProcess cfg) w w'"
| receipts: "PollReceipts_Execute (evm_ports (wl_evm wl) (wl_abi wl) (wl_txs wl) b (bc_sign cfg))
      (cc_name (bc_chain cfg)) w = (pr, w') \<Longrightarrow> process_step wl (BroadcasterProcess cfg) w w'"
| alerts: "DetectStuck_Execute (cc_name (bc_chain cfg)) (sint (bc_stuck_threshold cfg)) w = (sr, w') \<Longrightarrow>
    process_step wl (BroadcasterProcess cfg) w w'"

text \<open>The database is migrated already: a run of the migrations changes nothing.\<close>

definition migrated :: "('p, 'k) host \<Rightarrow> bool" where
  "migrated h \<longleftrightarrow> (\<forall>w r w'. migrate h w = (r, w') \<longrightarrow> db w' = db w \<and> wire w' = wire w)"

text \<open>A broadcaster that belongs to the platform signs with the key of the wallet and names the chain
  as the wallet does.\<close>

definition belongs :: "'t wallet \<Rightarrow> process \<Rightarrow> bool" where
  "belongs wl p \<longleftrightarrow>
     (case p of
        BroadcasterProcess cfg \<Rightarrow> core_signer (bc_sign cfg) (wl_accepts wl) \<and>
          cc_chain_id (bc_chain cfg) = wl_chain_id wl (cc_name (bc_chain cfg))
      | _ \<Rightarrow> True)"

definition later :: "database world \<Rightarrow> database world \<Rightarrow> bool" where
  "later w w' \<longleftrightarrow> db w' = db w \<and> wire w' = wire w"

inductive platform_step :: "'t wallet \<Rightarrow> ('p, 'k) cluster \<Rightarrow> ('p, 'k) cluster \<Rightarrow> bool" for wl :: "'t wallet" where
  up: "walletd_main h args c = (Inr (p, locks), w') \<Longrightarrow> migrated h \<Longrightarrow> belongs wl p \<Longrightarrow>
    platform_step wl c \<lparr>cl_running = (h, p) # cl_running c, cl_locks = locks, cl_world = w'\<rparr>"
| refused: "walletd_main h args c = (Inl e, w') \<Longrightarrow> migrated h \<Longrightarrow> platform_step wl c (c\<lparr>cl_world := w'\<rparr>)"
| ended: "cl_running c = xs @ (h, p) # ys \<Longrightarrow>
    platform_step wl c (c\<lparr>cl_running := xs @ ys,
      cl_locks := (case lock_of p of None \<Rightarrow> cl_locks c | Some key \<Rightarrow> removeAll key (cl_locks c))\<rparr>)"
| work: "(h, p) \<in> set (cl_running c) \<Longrightarrow> process_step wl p (cl_world c) w' \<Longrightarrow>
    platform_step wl c (c\<lparr>cl_world := w'\<rparr>)"
| overlap: "(h, ApiProcess cfg) \<in> set (cl_running c) \<Longrightarrow> (h2, p) \<in> set (cl_running c) \<Longrightarrow>
    later (cl_world c) w0 \<Longrightarrow> process_step wl p w0 w1 \<Longrightarrow> wire w1 = wire (cl_world c) \<Longrightarrow>
    serve dp (ac_valid_tokens cfg) (\<lambda>_. db w1) req newResponseRecorder (cl_world c) = (res, w') \<Longrightarrow>
    platform_step wl c (c\<lparr>cl_world := w'\<rparr>)"
| time: "later (cl_world c) w' \<Longrightarrow> platform_step wl c (c\<lparr>cl_world := w'\<rparr>)"

inductive platform_reachable :: "'t wallet \<Rightarrow> ('p, 'k) cluster \<Rightarrow> bool" for wl :: "'t wallet" where
  start: "cl_running c = [] \<Longrightarrow> cl_locks c = [] \<Longrightarrow> distinct us \<Longrightarrow> length us = 8 \<Longrightarrow>
    db (cl_world c) = seeded us t \<Longrightarrow> wire (cl_world c) = [] \<Longrightarrow> platform_reachable wl c"
| run: "platform_reachable wl c \<Longrightarrow> platform_step wl c c' \<Longrightarrow> platform_reachable wl c'"

subsection \<open>It refines the cluster\<close>

lemma platform_cluster: "platform_step wl c c' \<Longrightarrow> cluster_step c c'"
proof (induction rule: platform_step.induct)
  case (up h args c p locks w')
  show ?case
    using up(1) by (rule cluster_step.up)
next
  case (refused h args c e w')
  show ?case
    using refused(1) by (rule cluster_step.refused)
next
  case (ended c xs h p ys)
  then show ?case
    by (rule cluster_step.ended)
qed (rule cluster_step.work)+

lemma platform_reachable_cluster: "platform_reachable wl c \<Longrightarrow> cluster_reachable c"
  by (induction rule: platform_reachable.induct)
    (auto intro: cluster_reachable.empty cluster_reachable.more platform_cluster)

subsection \<open>It refines the system\<close>

definition tokens_of :: "process \<Rightarrow> string list" where
  "tokens_of p = (case p of ApiProcess cfg \<Rightarrow> ac_valid_tokens cfg | _ \<Rightarrow> [])"

lemma wallet_nonempty: "tx_codec (wl_txs wl) \<Longrightarrow> assemble_nonempty (evm_ports lib abi (wl_txs wl) b sign)"
  by (rule evm_ports_nonempty) (auto simp: tx_codec_def)

lemma process_step_system:
  assumes "process_step wl p w w'" "tx_codec (wl_txs wl)"
  obtains dp where "step dp (tokens_of p) w w'"
  using assms(1)
proof cases
  case (request dp cfg req res)
  then show thesis
    using that [of dp] step.request [OF request(2)] by (simp add: tokens_of_def)
next
  case (watch sc cfg er)
  show thesis
    by (rule that [OF step.watch [OF watch(2)]])
next
  case (broadcast b cfg live br)
  show thesis
    by (rule that [OF step.broadcast [OF broadcast(2) wallet_nonempty [OF assms(2)]]])
next
  case (receipts b cfg pr)
  show thesis
    by (rule that [OF step.receipts [OF receipts(2)]])
next
  case (alerts cfg sr)
  show thesis
    by (rule that [OF step.alerts [OF alerts(2)]])
qed

lemma process_step_keeps:
  assumes "process_step wl p w w'" "tx_codec (wl_txs wl)" "safe w"
  shows "safe w'" "evolves (db w) (db w')"
  using process_step_system [OF assms(1,2)] step_keeps [OF _ assms(3)] by blast+

lemma process_step_pays:
  assumes "process_step wl p w w'" "tx_codec (wl_txs wl)" "safe w" "attempts_pay wl (db w)" "belongs wl p"
  shows "attempts_pay wl (db w')"
proof -
  note e = process_step_keeps(2) [OF assms(1-3)]
  have core: "core_ok (db w)"
    using assms(3) by (simp add: safe_def)
  have same: ?thesis if "set (broadcast_attempts (db w')) \<subseteq> set (broadcast_attempts (db w))"
    using attempts_pay_later [OF assms(4) e] that by blast
  from assms(1) show ?thesis
  proof cases
    case (request dp cfg req res)
    then show ?thesis
      using serve_steps(4) [OF request(2) core core] same by auto
  next
    case (watch sc cfg er)
    then show ?thesis
      using execute_keeps(2) [OF watch(2)] same by (simp add: watcher_view_def)
  next
    case (broadcast b cfg live br)
    then show ?thesis
      using execute_pays [OF broadcast(2) _ assms(2) _ assms(4) core] assms(5)
      by (simp add: belongs_def adapter_of_def)
  next
    case (receipts b cfg pr)
    then show ?thesis
      using poll_attempts [OF receipts(2) core] same by simp
  next
    case (alerts cfg sr)
    have "broadcast_attempts (db w') = broadcast_attempts (db w)"
      by (rule detect_keeps [where P = "\<lambda>d. broadcast_attempts d = broadcast_attempts (db w)", OF alerts(2)])
        (auto simp: attempts_mark_stuck)
    then show ?thesis
      using same by simp
  qed
qed

subsection \<open>Starting changes the token registry at most\<close>

lemma later_refl [simp]: "later w w"
  by (simp add: later_def)

lemma migrated_later: "migrated h \<Longrightarrow> migrate h w = (r, w') \<Longrightarrow> later w w'"
  by (simp add: migrated_def later_def)

definition started :: "database world \<Rightarrow> database world \<Rightarrow> bool" where
  "started w w' \<longleftrightarrow> (\<exists>w1. later w w1 \<and> (w' = w1 \<or> (\<exists>ch addr u. UpsertToken ch addr AssetUSDC w1 = (u, w'))))"

lemma api_started: "runAPI_start h c = (r, w') \<Longrightarrow> migrated h \<Longrightarrow> later (cl_world c) w'"
  by (auto simp: runAPI_start_def Let_def dest: migrated_later split: sum.splits option.splits prod.splits)

lemma broadcaster_started: "runBroadcaster_start h args c = (r, w') \<Longrightarrow> migrated h \<Longrightarrow> later (cl_world c) w'"
  by (auto simp: runBroadcaster_start_def Let_def dest: migrated_later
      split: sum.splits option.splits prod.splits)

lemma watcher_started:
  assumes "runWatcher_start h args c = (r, w')" "migrated h"
  shows "started (cl_world c) w'"
proof -
  consider "w' = cl_world c" | u where "migrate h (cl_world c) = (u, w')"
    | u w1 ch addr u2 where "migrate h (cl_world c) = (u, w1)" "UpsertToken ch addr AssetUSDC w1 = (u2, w')"
    using assms(1)
    by (auto simp: runWatcher_start_def Let_def split: sum.splits option.splits prod.splits)
  then show ?thesis
    using migrated_later [OF assms(2)] unfolding started_def by cases (auto intro: later_refl)
qed

lemma main_started:
  assumes "walletd_main h args c = (r, w')" "migrated h"
  shows "started (cl_world c) w'"
proof -
  consider "w' = cl_world c" | "runAPI_start h c = (r, w')" | rest where "runWatcher_start h rest c = (r, w')"
    | rest where "runBroadcaster_start h rest c = (r, w')"
    using assms(1) by (auto simp: walletd_main_def split: list.splits if_splits)
  then show ?thesis
  proof cases
    case (3 rest)
    then show ?thesis
      by (rule watcher_started [OF _ assms(2)])
  qed (use assms(2) api_started broadcaster_started later_refl in \<open>unfold started_def, blast+\<close>)
qed

subsection \<open>The invariant of the platform\<close>

definition world_ok :: "'t wallet \<Rightarrow> database world \<Rightarrow> bool" where
  "world_ok wl w \<longleftrightarrow> safe w \<and> attempts_pay wl (db w)"

text \<open>What a step does to the world: it keeps \<open>world_ok\<close> and takes nothing back.\<close>

definition progress :: "'t wallet \<Rightarrow> database world \<Rightarrow> database world \<Rightarrow> bool" where
  "progress wl w w' \<longleftrightarrow> (world_ok wl w \<longrightarrow> world_ok wl w' \<and> evolves (db w) (db w'))"

lemma progress_trans: "progress wl w w1 \<Longrightarrow> progress wl w1 w2 \<Longrightarrow> progress wl w w2"
  unfolding progress_def using evolves_trans by blast

lemma progress_later: "later w w' \<Longrightarrow> progress wl w w'"
  by (simp add: later_def progress_def world_ok_def safe_def)

lemma progress_register:
  assumes "UpsertToken ch addr a w = (u, w')"
  shows "progress wl w w'"
proof -
  obtain ts where t: "db w' = (db w)\<lparr>token_registry := ts\<rparr>" "wire w' = wire w"
    using register_world [OF assms] by blast
  have "attempts_pay wl (db w')" if "attempts_pay wl (db w)"
    using attempts_pay_later [OF that register_world(3) [OF assms]] t(1) by simp
  then show ?thesis
    using t register_world(3) [OF assms]
    by (auto simp: progress_def world_ok_def safe_def core_ok_register wire_ok_def)
qed

lemma progress_main:
  assumes "walletd_main h args c = (r, w')" "migrated h"
  shows "progress wl (cl_world c) w'"
  using main_started [OF assms] progress_later progress_register progress_trans
  unfolding started_def by blast

lemma progress_process:
  assumes "process_step wl p w w'" "tx_codec (wl_txs wl)" "belongs wl p"
  shows "progress wl w w'"
  using process_step_keeps [OF assms(1,2)] process_step_pays [OF assms(1,2) _ _ assms(3)]
  by (auto simp: progress_def world_ok_def)

lemma progress_overlap:
  assumes "later w w0" "process_step wl p w0 w1" "tx_codec (wl_txs wl)" "belongs wl p" "wire w1 = wire w"
    and "serve dp tokens (\<lambda>_. db w1) req newResponseRecorder w = (res, w')"
  shows "progress wl w w'"
  unfolding progress_def
proof
  assume ok: "world_ok wl w"
  then have w1: "world_ok wl w1" "evolves (db w) (db w1)"
    using progress_trans [OF progress_later [OF assms(1)] progress_process [OF assms(2-4)]]
    by (auto simp: progress_def)
  have core: "core_ok (db w)" "core_ok (db w1)"
    using ok w1(1) by (simp_all add: world_ok_def safe_def)
  note s = serve_steps [OF assms(6) core w1(2)]
  have "broadcast_attempts (db w') = broadcast_attempts (db w) \<or> broadcast_attempts (db w') = broadcast_attempts (db w1)"
    using s(4) by simp
  then have "wire_ok (db w') (wire w')"
    using ok w1(1) s(3) assms(5) by (auto simp: world_ok_def safe_def wire_ok_def)
  moreover have "attempts_pay wl (db w')"
    using serve_after_rival [OF assms(6)]
  proof
    show "core_ok (db w1)"
      by (rule core(2))
  next
    assume "db w' = db w"
    then show ?thesis
      using ok by (simp add: world_ok_def)
  next
    assume e: "evolves (db w1) (db w')"
    show ?thesis
    proof (rule attempts_pay_later [OF _ e])
      show "attempts_pay wl (db w1)"
        using w1(1) by (simp add: world_ok_def)
    next
      fix b assume "b \<in> set (broadcast_attempts (db w'))" "b \<notin> set (broadcast_attempts (db w1))"
      then have "b \<in> set (broadcast_attempts (db w))"
        using s(4) by auto
      then have "attempt_pays wl (db w) b"
        using ok by (simp add: world_ok_def attempts_pay_def)
      then show "attempt_pays wl (db w') b"
        by (rule attempt_pays_later [OF _ s(1)])
    qed
  qed
  ultimately show "world_ok wl w' \<and> evolves (db w) (db w')"
    using s(1,2) by (simp add: world_ok_def safe_def)
qed

lemma platform_step_progress:
  assumes "platform_step wl c c'" "tx_codec (wl_txs wl)" "list_all (\<lambda>(h, p). belongs wl p) (cl_running c)"
  shows "progress wl (cl_world c) (cl_world c') \<and> list_all (\<lambda>(h, p). belongs wl p) (cl_running c')"
  using assms(1,3)
proof (induction rule: platform_step.induct)
  case (up h args c p locks w')
  then show ?case
    using progress_main [OF up(1,2)] by simp
next
  case (refused h args c e w')
  then show ?case
    using progress_main [OF refused(1,2)] by simp
next
  case (ended c xs h p ys)
  then show ?case
    by (simp add: progress_later)
next
  case (work h p c w')
  then show ?case
    using progress_process [OF work(2) assms(2)] by (auto simp: list_all_iff)
next
  case (overlap h cfg c h2 p w0 w1 dp req res w')
  then have "belongs wl p"
    by (auto simp: list_all_iff)
  then show ?case
    using progress_overlap [OF overlap(3,4) assms(2) _ overlap(5,6)] overlap(7) by simp
next
  case (time c w')
  then show ?case
    by (simp add: progress_later)
qed

lemma platform_ok:
  assumes "platform_reachable wl c" "tx_codec (wl_txs wl)"
  shows "world_ok wl (cl_world c) \<and> list_all (\<lambda>(h, p). belongs wl p) (cl_running c)"
  using assms(1)
proof (induction rule: platform_reachable.induct)
  case (start c us t)
  then show ?case
    using core_fresh [OF start(3,4)]
    by (simp add: world_ok_def safe_def wire_ok_def attempts_pay_def seeded_tables)
next
  case (run c c')
  then show ?case
    using platform_step_progress [OF run(2) assms(2)] by (auto simp: progress_def)
qed

subsection \<open>The loop of a watcher\<close>

text \<open>The cursors that are logged at the start are read in a transaction that is rolled back; an error
  or a panic there is logged only.  Then one poll cycle follows another, and an error of one does not
  end the loop.  Each cycle begins at a later time, with identifiers and faults of its own.\<close>

definition resumed_cursors :: "chain \<Rightarrow> (u64 \<times> u64 \<times> u64) db_m" where
  "resumed_cursors ch =
     in_tx_when (\<lambda>_. False)
       (bindm (Cursor ch CursorTierObserved) (\<lambda>observedCursor.
        bindm (Cursor ch CursorTierSafe) (\<lambda>safeCursor.
        bindm (Cursor ch CursorTierFinalized) (\<lambda>finalizedCursor.
        ret (observedCursor, safeCursor, finalizedCursor)))))"

fun watcher_loop ::
    "chain \<Rightarrow> (scanner \<times> uuid list \<times> time \<times> outcome list) list \<Rightarrow> database world \<Rightarrow> database world" where
  "watcher_loop ch [] w = w"
| "watcher_loop ch ((sc, us, t, os) # polls) w =
     watcher_loop ch polls (snd (TrackDeposits_Execute sc ch (w\<lparr>uuids := us, clock := t, outcomes := os\<rparr>)))"

definition runWatcher_loop ::
    "chain \<Rightarrow> (scanner \<times> uuid list \<times> time \<times> outcome list) list \<Rightarrow> database world \<Rightarrow> database world" where
  "runWatcher_loop ch polls w = watcher_loop ch polls (snd (resumed_cursors ch w))"

lemma rolled_back_db: "db (snd (in_tx_when (\<lambda>_. False) f w)) = db w"
  by (auto simp: in_tx_when_def dest: next_outcome_world split: prod.splits sum.splits)

lemma resumed_later: "later w (snd (resumed_cursors ch w))"
proof -
  have "quiet (resumed_cursors ch)"
    unfolding resumed_cursors_def Cursor_def by (intro quiet_in_tx_when quiet_bindm) simp_all
  then have "wire (snd (resumed_cursors ch w)) = wire w"
    using quietD(2) by (metis prod.collapse)
  then show ?thesis
    using rolled_back_db by (simp add: later_def resumed_cursors_def)
qed

lemma platform_work:
  assumes "(h, p) \<in> set (cl_running c)" "process_step wl p (cl_world c) w'"
  shows "platform_step wl c (c\<lparr>cl_world := w'\<rparr>)"
  using assms by (rule platform_step.work)

text \<open>So the loop of a running watcher is a sequence of steps of the platform.\<close>

lemma watcher_loop_steps:
  assumes "(h, WatcherProcess cfg) \<in> set (cl_running c)"
  shows "(platform_step wl)\<^sup>*\<^sup>* c (c\<lparr>cl_world := watcher_loop (cc_name (wt_chain cfg)) polls (cl_world c)\<rparr>)"
  using assms
proof (induction polls arbitrary: c)
  case Nil
  then show ?case by simp
next
  case (Cons poll polls)
  obtain sc us t os where poll: "poll = (sc, us, t, os)"
    by (cases poll)
  let ?w = "(cl_world c)\<lparr>uuids := us, clock := t, outcomes := os\<rparr>" and ?ch = "cc_name (wt_chain cfg)"
  let ?c1 = "c\<lparr>cl_world := ?w\<rparr>"
  let ?w2 = "snd (TrackDeposits_Execute sc ?ch ?w)"
  have "platform_step wl c ?c1"
    by (rule platform_step.time) (simp add: later_def)
  moreover have "platform_step wl ?c1 (?c1\<lparr>cl_world := ?w2\<rparr>)"
    by (rule platform_work [of h "WatcherProcess cfg"])
      (use Cons.prems in \<open>auto intro!: process_step.watch [OF surjective_pairing]\<close>)
  moreover have "(platform_step wl)\<^sup>*\<^sup>* (c\<lparr>cl_world := ?w2\<rparr>)
      (c\<lparr>cl_world := watcher_loop ?ch polls ?w2\<rparr>)"
    using Cons.IH [of "c\<lparr>cl_world := ?w2\<rparr>"] Cons.prems by simp
  ultimately show ?case
    by (simp add: poll)
qed

lemma runWatcher_steps:
  assumes "(h, WatcherProcess cfg) \<in> set (cl_running c)"
  shows "(platform_step wl)\<^sup>*\<^sup>* c (c\<lparr>cl_world := runWatcher_loop (cc_name (wt_chain cfg)) polls (cl_world c)\<rparr>)"
proof -
  let ?ch = "cc_name (wt_chain cfg)"
  let ?w = "snd (resumed_cursors ?ch (cl_world c))"
  have "platform_step wl c (c\<lparr>cl_world := ?w\<rparr>)"
    by (rule platform_step.time) (rule resumed_later)
  moreover have "(platform_step wl)\<^sup>*\<^sup>* (c\<lparr>cl_world := ?w\<rparr>) (c\<lparr>cl_world := watcher_loop ?ch polls ?w\<rparr>)"
    using watcher_loop_steps [of h cfg "c\<lparr>cl_world := ?w\<rparr>" wl polls] assms by simp
  ultimately show ?thesis
    unfolding runWatcher_loop_def by (rule converse_rtranclp_into_rtranclp)
qed

subsection \<open>A sample run\<close>

text \<open>An api, a watcher and a broadcaster of Base come up; a customer signs up, deposits 1000 units of
  ETH and withdraws 700 of them, which the broadcaster signs and sends.\<close>

definition platform_env :: "string \<Rightarrow> string" where
  "platform_env name =
     (case map_of [(''DATABASE_URL'', ''postgres''), (''API_BEARER_TOKENS'', ''t''), (''API_CURSOR_SIGNING_KEY'', ''k''),
        (''BASE_RPC_URL'', ''http://base''), (''ARBITRUM_RPC_URL'', ''http://arb''), (''BASE_CHAIN_ID'', ''8453''),
        (''ARBITRUM_CHAIN_ID'', ''42161''), (''BASE_USDC_ADDRESS'', alice_address), (''SIGNER_BACKEND'', ''software''),
        (''SIGNER_PRIVATE_KEY'', replicate 64 (CHR ''7''))] name of
        None \<Rightarrow> [] | Some v \<Rightarrow> v)"

definition platform_host :: "(byte, byte list) host" where
  "platform_host = startup_host\<lparr>getenv := platform_env,
     dial_probe := (\<lambda>ch. Inr \<lparr>pc_ChainID = Inr (uint (cc_chain_id ch)), pc_CodeAt = (\<lambda>a. Inr [1])\<rparr>),
     host_curve := sample_curve\<rparr>"

definition base_chain :: chain_config where
  "base_chain = \<lparr>cc_name = ''base'', cc_rpc_url = ''http://base'', cc_chain_id = 8453\<rparr>"

definition platform_api :: api_config where
  "platform_api = \<lparr>ac_listen_addr = '':8080'', ac_valid_tokens = [''t''], ac_cursor_signing_key = ''k'',
     ac_chains = [base_chain, \<lparr>cc_name = ''arbitrum'', cc_rpc_url = ''http://arb'', cc_chain_id = 42161\<rparr>]\<rparr>"

definition platform_watcher :: watcher_config where
  "platform_watcher =
     \<lparr>wt_chain = base_chain, wt_usdc_address = alice_address, wt_poll_interval = defaultWatcherPollInterval\<rparr>"

definition platform_key :: "byte list software_signer" where
  "platform_key = \<lparr>ss_privateKey = replicate 32 119, ss_address = deriveAddress sample_curve 28\<rparr>"

definition platform_broadcaster :: broadcaster_config where
  "platform_broadcaster =
     \<lparr>bc_chain = base_chain, bc_poll_interval = defaultBroadcasterPollInterval,
      bc_stuck_threshold = defaultWithdrawalStuckThreshold,
      bc_liveness_threshold = defaultLivenessStalenessMultiplier * defaultWatcherPollInterval,
      bc_sign = software_Sign sample_curve platform_key, bc_signer_address = ss_address platform_key\<rparr>"

lemma platform_tokens: "splitNonEmpty ''t'' (CHR '','') = [''t'']"
  by code_simp

lemma platform_key_made: "new_software_signer sample_curve (replicate 64 (CHR ''7'')) = Inr platform_key"
proof -
  have h: "hex_decode (trim_prefix ''0x'' (replicate 64 (CHR ''7''))) = Some (replicate 32 119)"
    by code_simp
  show ?thesis
    unfolding new_software_signer_def h by (simp add: PrivKeyBytesLen_def sample_curve_def platform_key_def Let_def)
qed

lemma platform_api_env: "api_env platform_host = Inr (''postgres'', platform_api)"
  by (simp add: api_env_def requiredStringEnv_def requiredChainIDEnv_def platform_host_def platform_env_def
      startup_host_def parse_nat10_def platform_api_def base_chain_def platform_tokens)

lemma platform_watcher_env: "watcher_env platform_host ''base'' = Inr (''postgres'', platform_watcher)"
  by (simp add: watcher_env_def chain_env_def env_prefix_def requiredStringEnv_def requiredChainIDEnv_def
      duration_env_def platform_host_def platform_env_def startup_host_def parse_nat10_def platform_watcher_def
      base_chain_def startup_token)

lemma platform_broadcaster_env: "broadcaster_env platform_host ''base'' =
    Inr (''postgres'', base_chain, defaultBroadcasterPollInterval, defaultWithdrawalStuckThreshold,
      defaultLivenessStalenessMultiplier * defaultWatcherPollInterval)"
  by (simp add: broadcaster_env_def chain_env_def env_prefix_def requiredStringEnv_def requiredChainIDEnv_def
      duration_env_def liveness_default_def watcher_interval_def platform_host_def platform_env_def startup_host_def
      parse_nat10_def base_chain_def)

lemma platform_signer: "signer_backend platform_host = Inr (software_Sign sample_curve platform_key, ss_address platform_key)"
  by (simp add: signer_backend_def requiredStringEnv_def platform_host_def platform_env_def platform_key_made)

lemma platform_probe: "VerifyDeployerPresence platform_host ch = None"
  by (simp add: VerifyDeployerPresence_None probed_def platform_host_def)

lemma platform_lock:
  "key \<notin> set taken \<Longrightarrow> take_lock platform_host dsn key taken = Inr (key # taken)"
  by (simp add: take_lock_def platform_host_def startup_host_def)

lemma platform_systems: "migrate platform_host = ret ()" "dial_chain platform_host ch = None" "open_pool platform_host dsn = None"
  "migrated platform_host"
  by (simp_all add: platform_host_def startup_host_def migrated_def)

definition platform_wallet :: "byte list wallet" where
  "platform_wallet = \<lparr>wl_evm = startup_evm, wl_abi = sample_abi, wl_txs = sample_txs, wl_chain_id = (\<lambda>_. 8453),
     wl_accepts = recovers_to sample_curve 28\<rparr>"

definition platform_eb :: "byte list evm_broadcaster" where
  "platform_eb = sample_eb\<lparr>eb_registry := (\<lambda>ch. Inr (if ch = ''base'' then [(alice_address, AssetUSDC)] else []))\<rparr>"

definition plat0 :: "database world" where
  "plat0 = snd (UpsertToken ''base'' alice_address AssetUSDC run0)"

definition plat1 :: "database world" where
  "plat1 = snd (serve run_deployment [''t''] (\<lambda>d. d) (run_post ''customers'' ''k1'') newResponseRecorder plat0)"

definition plat2 :: "database world" where
  "plat2 = snd (TrackDeposits_Execute run_scanner ''base'' (plat1\<lparr>uuids := run_ids ''2'', clock := 2, outcomes := []\<rparr>))"

definition plat3 :: "database world" where
  "plat3 = snd (serve run_deployment [''t''] (\<lambda>d. d) (run_post ''withdrawals'' ''k2'') newResponseRecorder
     (plat2\<lparr>uuids := run_ids ''3'', clock := 3, outcomes := []\<rparr>))"

definition platform_ports :: ports where
  "platform_ports = evm_ports startup_evm sample_abi sample_txs platform_eb (software_Sign sample_curve platform_key)"

definition plat4 :: "database world" where
  "plat4 = snd (SignAndBroadcast_Execute platform_ports ''base'' True (plat3\<lparr>uuids := run_ids ''4'', clock := 4, outcomes := []\<rparr>))"

lemma plat3_registry: "token_registry (db plat3) =
    [\<lparr>tk_chain = ''base'', tk_contract_address = alice_address, tk_asset = AssetUSDC\<rparr>]"
  by code_simp

lemma plat0_upsert: "fst (UpsertToken ''base'' alice_address AssetUSDC run0) = Inr ()"
  by code_simp

lemma plat4_sent: "map fst (wire plat4) = [''base'']"
  by code_simp

lemma plat4_row: "map (\<lambda>x. (w_asset x, w_amount x, w_destination_address x)) (withdrawals (db plat4)) =
    [(AssetETH, 700, bob_address)]"
  by code_simp

definition platform_at :: "database world \<Rightarrow> (byte, byte list) cluster" where
  "platform_at w =
     \<lparr>cl_running = [(platform_host, BroadcasterProcess platform_broadcaster), (platform_host, WatcherProcess platform_watcher),
        (platform_host, ApiProcess platform_api)],
      cl_locks = [890200001, 890100001], cl_world = w\<rparr>"

lemma platform_dials:
  "first_error (VerifyDeployerPresence platform_host) chs = None" "NewFeeEstimator platform_host chs = None"
  by (simp_all add: NewFeeEstimator_def first_error_None platform_probe platform_systems)

lemma platform_api_up: "walletd_main platform_host [''walletd'', ''api''] \<lparr>cl_running = [], cl_locks = [], cl_world = run0\<rparr> =
    (Inr (ApiProcess platform_api, []), run0)"
  by (simp add: walletd_main_def runAPI_start_def Let_def platform_api_env platform_dials platform_systems)

lemma platform_watcher_up: "walletd_main platform_host startup_args
    \<lparr>cl_running = [(platform_host, ApiProcess platform_api)], cl_locks = [], cl_world = run0\<rparr> =
    (Inr (WatcherProcess platform_watcher, [890100001]), plat0)"
proof -
  have "UpsertToken ''base'' (wt_usdc_address platform_watcher) AssetUSDC run0 = (Inr (), plat0)"
    using plat0_upsert by (simp add: platform_watcher_def plat0_def prod_eq_iff)
  then show ?thesis
    by (simp add: walletd_main_def startup_args_def runWatcher_start_def Let_def startup_flags platform_watcher_env
        platform_probe platform_lock platform_systems watcherLockID_def)
qed

lemma platform_broadcaster_up: "walletd_main platform_host [''walletd'', ''broadcaster'', ''--chain=base'']
    \<lparr>cl_running = [(platform_host, WatcherProcess platform_watcher), (platform_host, ApiProcess platform_api)],
     cl_locks = [890100001], cl_world = plat0\<rparr> =
    (Inr (BroadcasterProcess platform_broadcaster, [890200001, 890100001]), plat0)"
  by (simp add: walletd_main_def runBroadcaster_start_def Let_def startup_flags platform_broadcaster_env
      platform_lock platform_systems broadcasterLockID_def platform_signer platform_broadcaster_def)

lemma platform_belongs: "belongs platform_wallet (BroadcasterProcess platform_broadcaster)"
proof -
  have "core_signer (software_Sign sample_curve platform_key) (recovers_to sample_curve
      (PubKey sample_curve (ss_privateKey platform_key)))"
    by (rule software_core_signer) (simp add: sample_curve_def)
  moreover have "PubKey sample_curve k = 28" for k
    by (simp add: sample_curve_def)
  ultimately show ?thesis
    by (simp add: belongs_def platform_broadcaster_def platform_wallet_def base_chain_def)
qed

lemma platform_up: "platform_reachable platform_wallet (platform_at plat0)"
proof -
  have "platform_reachable platform_wallet \<lparr>cl_running = [], cl_locks = [], cl_world = run0\<rparr>"
    by (rule platform_reachable.start [of _ seed_ids 0]) (simp_all add: run0_def seed_ids_def)
  from platform_reachable.run [OF this platform_step.up [OF platform_api_up platform_systems(4)]]
  have "platform_reachable platform_wallet
      \<lparr>cl_running = [(platform_host, ApiProcess platform_api)], cl_locks = [], cl_world = run0\<rparr>"
    by (simp add: belongs_def)
  from platform_reachable.run [OF this platform_step.up [OF platform_watcher_up platform_systems(4)]]
  have "platform_reachable platform_wallet
      \<lparr>cl_running = [(platform_host, WatcherProcess platform_watcher), (platform_host, ApiProcess platform_api)],
       cl_locks = [890100001], cl_world = plat0\<rparr>"
    by (simp add: belongs_def)
  from platform_reachable.run [OF this platform_step.up [OF platform_broadcaster_up platform_systems(4) platform_belongs]]
  show ?thesis
    by (simp add: platform_at_def)
qed

text \<open>From then on time passes and one of the three processes makes a call.\<close>

lemma platform_call:
  assumes "platform_reachable wl (platform_at w)" "later w w0" "process_step wl p w0 w'"
    and "(platform_host, p) \<in> set (cl_running (platform_at w))"
  shows "platform_reachable wl (platform_at w')"
proof -
  have "platform_reachable wl (platform_at w0)"
    using platform_reachable.run [OF assms(1) platform_step.time [of "platform_at w" w0]] assms(2)
    by (simp add: platform_at_def)
  moreover have "platform_step wl (platform_at w0) (platform_at w')"
    using platform_step.work [of platform_host p "platform_at w0" wl w'] assms(3,4) by (simp add: platform_at_def)
  ultimately show ?thesis
    by (rule platform_reachable.run)
qed

lemma platform_run: "platform_reachable platform_wallet (platform_at plat4)"
proof -
  have 1: "process_step platform_wallet (ApiProcess platform_api) plat0 plat1"
    unfolding plat1_def
    by (rule process_step.request [where dp = run_deployment and req = "run_post ''customers'' ''k1''"])
      (simp add: platform_api_def prod_eq_iff)
  have 2: "process_step platform_wallet (WatcherProcess platform_watcher)
      (plat1\<lparr>uuids := run_ids ''2'', clock := 2, outcomes := []\<rparr>) plat2"
    unfolding plat2_def
    by (rule process_step.watch [where sc = run_scanner]) (simp add: platform_watcher_def base_chain_def prod_eq_iff)
  have 3: "process_step platform_wallet (ApiProcess platform_api)
      (plat2\<lparr>uuids := run_ids ''3'', clock := 3, outcomes := []\<rparr>) plat3"
    unfolding plat3_def
    by (rule process_step.request [where dp = run_deployment and req = "run_post ''withdrawals'' ''k2''"])
      (simp add: platform_api_def prod_eq_iff)
  have "alice_address = to_lower alice_address"
    by code_simp
  then have "registry_reads (db plat3) (eb_registry platform_eb)"
    by (auto simp: registry_reads_def plat3_registry platform_eb_def)
  then have 4: "process_step platform_wallet (BroadcasterProcess platform_broadcaster)
      (plat3\<lparr>uuids := run_ids ''4'', clock := 4, outcomes := []\<rparr>) plat4"
    unfolding plat4_def
    by (intro process_step.broadcast [where b = platform_eb and live = True])
      (simp_all add: platform_wallet_def platform_broadcaster_def base_chain_def platform_ports_def platform_eb_def
        sample_eb_def ChainBase_def prod_eq_iff)
  have r: "(platform_host, p) \<in> set (cl_running (platform_at w))"
    if "p \<in> {ApiProcess platform_api, WatcherProcess platform_watcher, BroadcasterProcess platform_broadcaster}" for p w
    using that by (auto simp: platform_at_def)
  note t = later_def [THEN iffD2]
  have "platform_reachable platform_wallet (platform_at plat1)"
    by (rule platform_call [OF platform_up later_refl 1]) (simp add: r)
  then have "platform_reachable platform_wallet (platform_at plat2)"
    by (rule platform_call [OF _ _ 2]) (simp_all add: r later_def)
  then have "platform_reachable platform_wallet (platform_at plat3)"
    by (rule platform_call [OF _ _ 3]) (simp_all add: r later_def)
  then show ?thesis
    by (rule platform_call [OF _ _ 4]) (simp_all add: r later_def)
qed

subsection \<open>Property\<close>

text \<open>C40: what leaves the platform.  In every state that the running processes reach from the migrated
  database, however they start, stop, fail and overlap, every transaction ever handed to a node pays
  one withdrawal that was approved and claimed on that chain: its exact amount to its own destination,
  as ether or through a contract of USDC registered for the chain, with the nonce of the withdrawal,
  the identifier of the chain and a signature of its own digest by the key of the wallet; and that
  withdrawal has no other transaction.  Assumed of go-ethereum: what it encodes is not empty, decodes
  to what it was, and knows its chain.\<close>

theorem platform_pays:
  assumes "platform_reachable wl c" "tx_codec (wl_txs wl)"
  shows "\<forall>(ch, raw)\<in>set (wire (cl_world c)). \<exists>x\<in>set (withdrawals (db (cl_world c))). \<exists>b n.
    w_chain x = ch \<and> claimed_status (w_status x) \<and> w_nonce x = Some n \<and>
    payment wl (db (cl_world c)) ch x n raw \<and>
    {b' \<in> set (broadcast_attempts (db (cl_world c))). b_withdrawal_id b' = w_id x} = {b} \<and>
    decode_signed_tx (b_signed_tx b) = Some raw"
  using platform_ok [OF assms] wire_pays unfolding world_ok_def by blast

theorem platform_pays_witness:
  "\<exists>x raw n. withdrawals (db plat4) = [x] \<and> wire plat4 = [(''base'', raw)] \<and>
     w_amount x = 700 \<and> w_destination_address x = bob_address \<and> payment platform_wallet (db plat4) ''base'' x n raw"
proof -
  obtain raw where raw: "wire plat4 = [(''base'', raw)]"
    using plat4_sent by auto
  obtain x where x: "withdrawals (db plat4) = [x]" "w_amount x = 700" "w_destination_address x = bob_address"
    using plat4_row by auto
  have "tx_codec (wl_txs platform_wallet)"
    using sample_codec by (simp add: platform_wallet_def)
  from platform_pays [OF platform_run this] show ?thesis
    using raw x by (auto simp: platform_at_def)
qed

end
