(* ===== verification/Spec2Isabelle.thy ===== *)
theory Spec2Isabelle
  imports Custody Chain_Guarantees Platform
begin

text \<open>
  A custodial wallet platform in Go (\<^verbatim>\<open>src/\<close>): customers hold ETH and USDC on two chains, deposit to
  addresses of their own, transfer to each other, and withdraw.  This library models its logic and
  proves what makes it correct.

  \<^bold>\<open>The program.\<close>  One binary (\<^verbatim>\<open>cmd/walletd/main.go\<close>) runs as one of three kinds of process over one
  PostgreSQL database.  The \<^emph>\<open>api\<close> answers HTTP requests: a bearer check, an idempotency middleware that
  runs each mutating request in one transaction with its key and its stored answer, parameter
  binding, and ten handlers over the use cases of \<^verbatim>\<open>internal/core\<close>.  A \<^emph>\<open>watcher\<close> per chain polls the
  node: it scans the next blocks for payments to known addresses, promotes the deposits below the
  safe and finalized tags, and credits the finalized ones.  A \<^emph>\<open>broadcaster\<close> per chain signs and sends
  approved withdrawals, looks for their receipts, settles them, and alerts on stuck ones.  Every
  movement of money is a journal entry with two postings; no balance is stored.  The processes share
  only the database: they interleave between transactions, and the guarantees hold for any order.

  \<^bold>\<open>How the code is modelled.\<close>  A use case is a function from a world to a result and a world
  (\<open>Prelude\<close>): the world holds the tables, the clock, the identifiers still to be drawn, the outcome of
  every round trip to the database still to come, and the raw transactions handed to a node.  An error
  is a value and every early return a branch.  A transaction runs, then commits, is rolled back, or
  meets a lost or late commit (the caller sees an error although the server has committed), so that a
  process can fail between any two statements.  The tables are lists of records, each statement a
  function with the constraints of the migrations as its guards.  A row lock (\<^verbatim>\<open>SELECT ... FOR UPDATE\<close>)
  makes the transactions that take it one after another, which is how a transaction is modelled;
  other processes act between transactions (the parameter \<open>rival\<close> of the middleware, the relation
  \<open>step\<close> of the system).  Integers of the code that are bounded are words or checked against their
  column type; \<^verbatim>\<open>*big.Int\<close> is \<^typ>\<open>int\<close>, with \<^verbatim>\<open>nil\<close> an option where the code tests it.

  \<^bold>\<open>The theories.\<close>
  \<^item> \<open>Prelude\<close>, \<open>Domain\<close>, \<open>Database\<close>: errors, computations and their inversion rules; the types of
    \<^verbatim>\<open>core\<close>; the schema after the twelve migrations, its statements, \<open>schema_ok\<close> and \<open>seeded\<close>.
  \<^item> \<open>Ledger\<close> (the posting block of \<^verbatim>\<open>transfer_repo.go\<close>, \<^verbatim>\<open>withdrawal_repo.go\<close>, \<^verbatim>\<open>deposit_repo.go\<close>): the
    locale \<open>ledger\<close>, interpreted on the tables, and \<open>ledger_ok\<close>, the books of the platform.
  \<^item> \<open>Transfers\<close>, \<open>Customers\<close>, \<open>Withdrawals\<close>: the use cases of the same names with their repositories;
    each has an exactness theorem and \<open>Transfers\<close> and \<open>Withdrawals\<close> a refinement of an abstract
    outcome, every error in the order of its check.
  \<^item> \<open>Broadcast\<close>, \<open>Broadcaster\<close>, \<open>Custody\<close>: the definitions, lemmas and properties of the broadcaster
    (\<^verbatim>\<open>sign_and_broadcast_withdrawal.go\<close>, \<^verbatim>\<open>poll_withdrawal_receipts.go\<close>,
    \<^verbatim>\<open>detect_stuck_withdrawals.go\<close>, \<^verbatim>\<open>runBroadcaster\<close>).
  \<^item> \<open>Deposits\<close>, \<open>Watcher\<close>, \<open>Deposit_Guarantees\<close>: the same for the watcher (\<^verbatim>\<open>track_deposits.go\<close>,
    \<^verbatim>\<open>deposit_repo.go\<close> and the small repositories it uses).
  \<^item> \<open>Scanner\<close>, \<open>Chain_Guarantees\<close>: the chain adapter \<^verbatim>\<open>evm/scanner.go\<close>, and what the watcher
    guarantees on top of it, from the answers of the node to the rows of the table.
  \<^item> \<open>Encoding\<close>, \<open>Signer\<close>: big-endian bytes and the DER decoder of the standard library; the two signers
    (\<^verbatim>\<open>kms_signer.go\<close>, \<^verbatim>\<open>software_signer.go\<close>) and the locale \<open>core_signer\<close>, the contract of the port,
    interpreted on the KMS signer; the software signer meets it when the library recovers what it signs.
  \<^item> \<open>Fee_Estimator\<close>, \<open>Evm_Broadcaster\<close>, \<open>Adapter_Guarantees\<close>: \<^verbatim>\<open>evm/fee_estimator.go\<close> and
    \<^verbatim>\<open>evm/broadcaster.go\<close>, and the properties that join them to the use cases: what reaches the node for
    a withdrawal, when it is settled, what a fee is made of, the shape of a signature.
  \<^item> \<open>Startup\<close>: command line, environment, chain probes and advisory locks of \<^verbatim>\<open>main.go\<close> with
    \<^verbatim>\<open>evm/deployer.go\<close> and \<^verbatim>\<open>evm/address.go\<close>, and the processes that run side by side.
  \<^item> \<open>Payments\<close>, \<open>Platform\<close>: all parts composed.  \<open>Payments\<close> is the invariant that the stored bytes of an
    attempt pay its withdrawal, over the concrete transaction builder; \<open>Platform\<close> runs the processes
    that \<^verbatim>\<open>main\<close> started, with their configuration, and refines \<open>System\<close> and \<open>Startup\<close>; the loop of
    \<^verbatim>\<open>runWatcher\<close> is a sequence of its steps.
  \<^item> \<open>History\<close> (\<^verbatim>\<open>transaction_repo.go\<close>): the signed cursor and the locale \<open>keyset\<close> of pagination,
    interpreted on a customer's history.
  \<^item> \<open>Http\<close>, \<open>Endpoints\<close>, \<open>Api\<close>: the middlewares, the routes and handlers, and the locale
    \<open>endpoint\<close> between the two, interpreted on the router.
  \<^item> \<open>System\<close>, \<open>Guarantees\<close>: all processes together as a step relation, its reachable states, and the
    invariants of all runs.  \<open>Samples\<close> holds the databases the witnesses run on.

  \<^bold>\<open>What the lemmas show.\<close>  Functional exactness of every movement of money (what moves, and that
  nothing else changes), on success and on each error; the invariants \<open>ledger_ok\<close> (no overdraft, every
  hold, treasury and float account equal to the total it stands for) and \<open>core_ok\<close> (with nonces and
  attempts) kept by every operation; exactly-once execution of requests under retries and races;
  persistence before sending, one transaction per nonce; deposits recorded exactly when the node
  reports a payment, moving forward only, credited once; complete and duplicate-free pagination; round
  trips of cursors and of customers and of DER signatures; and, over all runs, solvency, custody, and that
  whatever reaches a node pays exactly one approved withdrawal.

  \<^bold>\<open>Steps, bounds and fuel.\<close>  A step of the system is one call of an entry point; its faults strike
  inside it.  The drain loop of a broadcaster takes fuel, and a theorem gives the amount after which it
  has ended (two per approved and one per signed withdrawal).  The loop over blocks is a partial
  function with a theorem that it returns below the top of the 64-bit range and does not at the top.
  Page sizes, batch limits, the 2000 blocks of a scan and the 500 deposits of a reorganisation check are
  the constants of the code.

  \<^bold>\<open>Parameters.\<close>  Code outside \<^verbatim>\<open>src/\<close> is an argument: go-ethereum, the RPC node, AWS KMS, the
  secp256k1 library, SHA-256 and HMAC, \<^verbatim>\<open>github.com/google/uuid\<close>, the parameter binding of oapi-codegen;
  so are the JSON codec, the time formats and \<^verbatim>\<open>ParseDuration\<close> of the standard library.  What a theorem needs of one is
  a hypothesis, and its witness runs with a concrete instance.

  \<^bold>\<open>Not modelled.\<close>  The Solidity contracts (\<^verbatim>\<open>contracts/\<close>) whose addresses the Go code only derives
  (\<open>Startup\<close>); the migration runner (the migrations themselves are \<open>seeded\<close> and the constraints of
  \<open>Database\<close>); dialling, closing, logging, signal handling and the HTTP server's own timeouts; the
  embedded OpenAPI document and the unused generated options of \<^verbatim>\<open>server.gen.go\<close>; two
  transactions that run at the same time without sharing a lock are taken one after the other, and
  retries inside the database driver do not occur; a database session ends only with its process, so the
  advisory lock of a running process is not lost.
\<close>

end
